(* ===== verification/Mesh_Prelude.thy ===== *)
theory Mesh_Prelude
  imports Main "HOL-Library.Word" "HOL-Library.AList" "HOL-Library.Code_Target_Nat"
begin

text \<open>
  Shared vocabulary of the development: machine integers, results, panics, the clock,
  and Rust's \<open>HashMap\<close> as an association list with distinct keys.  The interface of
  the map is the locale \<open>hash_store\<close>; everything the components need of it is
  proved once there and obtained through the interpretation \<open>hm\<close>.
\<close>

section \<open>Machine integers, results, time\<close>

type_synonym byte = "8 word"
type_synonym u16 = "16 word"
type_synonym u32 = "32 word"
type_synonym u64 = "64 word"
type_synonym bytes = "byte list"

lemma unat_byte: "unat (b :: byte) < 256"
  using unsigned_less [of b, where ?'a = nat] by simp

text \<open>
  A call that may panic returns a \<open>run\<close>.  The release profile of the workspace sets
  \<open>panic = "abort"\<close>, so \<open>Panic\<close> is the end of the process.
\<close>

datatype 'a run = Ret 'a | Panic

text \<open>
  \<open>Instant\<close> and \<open>Duration\<close> are counted in nanoseconds.  An instant is an
  integer, so that \<open>now - interval\<close> is always defined; the standard library's
  \<open>duration_since\<close> saturates at zero.
\<close>

type_synonym instant = int
type_synonym duration = nat

definition secs :: "nat \<Rightarrow> duration" where
  "secs n = n * 1000000000"

definition millis :: "nat \<Rightarrow> duration" where
  "millis n = n * 1000000"

definition duration_since :: "instant \<Rightarrow> instant \<Rightarrow> duration" where
  "duration_since later earlier = nat (later - earlier)"

definition instant_add :: "instant \<Rightarrow> duration \<Rightarrow> instant" where
  "instant_add t d = t + int d"

definition instant_sub :: "instant \<Rightarrow> duration \<Rightarrow> instant" where
  "instant_sub t d = t - int d"

named_theorems time_defs
declare secs_def [time_defs] millis_def [time_defs] duration_since_def [time_defs]
  instant_add_def [time_defs] instant_sub_def [time_defs]

text \<open>Sequencing of fallible computations: Rust's \<open>?\<close>.\<close>

definition res_bind :: "'e + 'a \<Rightarrow> ('a \<Rightarrow> 'e + 'b) \<Rightarrow> 'e + 'b" where
  "res_bind r f = (case r of Inl e \<Rightarrow> Inl e | Inr x \<Rightarrow> f x)"

lemma res_bind_simps [simp]:
  "res_bind (Inl e) f = Inl e"
  "res_bind (Inr x) f = f x"
  by (simp_all add: res_bind_def)

lemma res_bind_Inr:
  "res_bind r f = Inr y \<longleftrightarrow> (\<exists>x. r = Inr x \<and> f x = Inr y)"
  by (cases r) auto

definition is_ok :: "'e + 'a \<Rightarrow> bool" where
  "is_ok r = (case r of Inl _ \<Rightarrow> False | Inr _ \<Rightarrow> True)"

lemma is_ok_simps [simp]: "is_ok (Inr x)" "\<not> is_ok (Inl e)"
  by (simp_all add: is_ok_def)

section \<open>HashMap\<close>

type_synonym ('k, 'v) hmap = "('k \<times> 'v) list"

definition hm_get :: "('k, 'v) hmap \<Rightarrow> 'k \<Rightarrow> 'v option" where
  "hm_get m k = map_of m k"

definition hm_insert :: "'k \<Rightarrow> 'v \<Rightarrow> ('k, 'v) hmap \<Rightarrow> ('k, 'v) hmap" where
  "hm_insert k v m = AList.update k v m"

definition hm_remove :: "'k \<Rightarrow> ('k, 'v) hmap \<Rightarrow> ('k, 'v) hmap" where
  "hm_remove k m = filter (\<lambda>(k', v). k' \<noteq> k) m"

definition hm_contains :: "('k, 'v) hmap \<Rightarrow> 'k \<Rightarrow> bool" where
  "hm_contains m k = (case hm_get m k of None \<Rightarrow> False | Some _ \<Rightarrow> True)"

definition hm_keys :: "('k, 'v) hmap \<Rightarrow> 'k list" where
  "hm_keys m = map fst m"

definition hm_values :: "('k, 'v) hmap \<Rightarrow> 'v list" where
  "hm_values m = map snd m"

definition hm_ok :: "('k, 'v) hmap \<Rightarrow> bool" where
  "hm_ok m = distinct (map fst m)"

text \<open>
  The contract of \<open>std::collections::HashMap\<close> that the code relies on.  The order
  of iteration is unspecified; the locale says no more about \<open>keys\<close> than that each
  key is visited exactly once.
\<close>

locale hash_store =
  fixes get :: "'m \<Rightarrow> 'k \<Rightarrow> 'v option"
    and ins :: "'k \<Rightarrow> 'v \<Rightarrow> 'm \<Rightarrow> 'm"
    and del :: "'k \<Rightarrow> 'm \<Rightarrow> 'm"
    and entries :: "'m \<Rightarrow> ('k \<times> 'v) list"
    and ok :: "'m \<Rightarrow> bool"
  assumes get_ins: "get (ins k v m) k' = (if k' = k then Some v else get m k')"
    and get_del: "get (del k m) k' = (if k' = k then None else get m k')"
    and ok_ins: "ok m \<Longrightarrow> ok (ins k v m)"
    and ok_del: "ok m \<Longrightarrow> ok (del k m)"
    and entries_get: "ok m \<Longrightarrow> (k, v) \<in> set (entries m) \<longleftrightarrow> get m k = Some v"
    and entries_distinct: "ok m \<Longrightarrow> distinct (map fst (entries m))"
begin

lemma get_ins_same [simp]: "get (ins k v m) k = Some v"
  by (simp add: get_ins)

lemma get_ins_other: "k' \<noteq> k \<Longrightarrow> get (ins k v m) k' = get m k'"
  by (simp add: get_ins)

lemma get_del_same [simp]: "get (del k m) k = None"
  by (simp add: get_del)

lemma get_del_ins: "k' \<noteq> k \<Longrightarrow> get (del k (ins k v m)) k' = get m k'"
  by (simp add: get_del get_ins)

lemma ok_del_ins: "ok m \<Longrightarrow> ok (del k (ins k' v m))"
  by (intro ok_del ok_ins)

lemma entries_key:
  assumes "ok m"
  shows "k \<in> fst ` set (entries m) \<longleftrightarrow> get m k \<noteq> None"
proof -
  have "k \<in> fst ` set (entries m) \<longleftrightarrow> (\<exists>v. (k, v) \<in> set (entries m))" by force
  then show ?thesis using assms by (simp add: entries_get)
qed

lemma entries_ins_keys:
  "ok m \<Longrightarrow> fst ` set (entries (ins k v m)) = insert k (fst ` set (entries m))"
  by (auto simp: entries_key ok_ins get_ins set_eq_iff simp del: image_iff)

lemma entries_del_keys:
  "ok m \<Longrightarrow> fst ` set (entries (del k m)) = fst ` set (entries m) - {k}"
  by (auto simp: entries_key ok_del get_del set_eq_iff simp del: image_iff)

lemma entries_del_iff:
  "ok m \<Longrightarrow> e \<in> set (entries (del k m)) \<longleftrightarrow> e \<in> set (entries m) \<and> fst e \<noteq> k"
  by (cases e) (auto simp: entries_get ok_del get_del)

lemma entries_ins_iff:
  "ok m \<Longrightarrow> e \<in> set (entries (ins k v m)) \<longleftrightarrow>
     e = (k, v) \<or> (e \<in> set (entries m) \<and> fst e \<noteq> k)"
  by (cases e) (auto simp: entries_get ok_ins get_ins)

end

interpretation hm: hash_store hm_get hm_insert hm_remove "\<lambda>m. m" hm_ok
proof unfold_locales
  fix m :: "('a, 'b) hmap" and k k' :: 'a and v :: 'b
  show "hm_get (hm_insert k v m) k' = (if k' = k then Some v else hm_get m k')"
    by (simp add: hm_get_def hm_insert_def update_conv')
  show "hm_get (hm_remove k m) k' = (if k' = k then None else hm_get m k')"
    by (induction m) (auto simp: hm_get_def hm_remove_def)
  show "hm_ok m \<Longrightarrow> hm_ok (hm_insert k v m)"
    by (simp add: hm_ok_def hm_insert_def distinct_update)
  show "hm_ok m \<Longrightarrow> hm_ok (hm_remove k m)"
    by (simp add: hm_ok_def hm_remove_def distinct_map_filter)
  show "hm_ok m \<Longrightarrow> ((k, v) \<in> set m) = (hm_get m k = Some v)"
    by (simp add: hm_ok_def hm_get_def)
  show "hm_ok m \<Longrightarrow> distinct (map fst m)"
    by (simp add: hm_ok_def)
qed

lemma hm_ok_empty [simp]: "hm_ok []"
  by (simp add: hm_ok_def)

lemma hm_get_empty [simp]: "hm_get [] k = None"
  by (simp add: hm_get_def)

lemma hm_get_Cons: "hm_get ((k', v) # m) k = (if k = k' then Some v else hm_get m k)"
  by (simp add: hm_get_def)

lemma hm_contains_iff: "hm_contains m k \<longleftrightarrow> hm_get m k \<noteq> None"
  by (simp add: hm_contains_def split: option.splits)

lemma hm_keys_iff: "k \<in> fst ` set m \<longleftrightarrow> hm_get m k \<noteq> None"
  by (simp add: hm_get_def map_of_eq_None_iff)

lemma hm_remove_absent: "hm_get m k = None \<Longrightarrow> hm_remove k m = m"
  by (induction m) (auto simp: hm_get_def hm_remove_def split: if_splits)

lemma hm_remove_empty [simp]: "hm_remove k [] = []"
  by (simp add: hm_remove_def)

lemma hm_get_in: "hm_get m k = Some v \<Longrightarrow> (k, v) \<in> set m"
  by (simp add: hm_get_def map_of_SomeD)

named_theorems hm_simps
lemmas [hm_simps] = hm.get_ins hm.get_del hm_contains_iff hm_get_Cons
lemmas hm_ok_intros [intro] = hm.ok_ins hm.ok_del

section \<open>Runs of a labelled transition relation\<close>

text \<open>
  The concurrent parts are step relations whose labels say what happened.  An invariant
  may speak of the labels so far; the locale \<open>run_invariant\<close> lifts it from steps to runs.
\<close>

inductive runs :: "('s \<Rightarrow> 'l \<Rightarrow> 's \<Rightarrow> bool) \<Rightarrow> 's \<Rightarrow> 'l list \<Rightarrow> 's \<Rightarrow> bool"
  for step where
  run_start [intro]: "runs step s [] s"
| run_step [intro]: "runs step s ls s' \<Longrightarrow> step s' l s'' \<Longrightarrow> runs step s (ls @ [l]) s''"

locale run_invariant =
  fixes step :: "'s \<Rightarrow> 'l \<Rightarrow> 's \<Rightarrow> bool" and inv :: "'l list \<Rightarrow> 's \<Rightarrow> bool"
  assumes preserved: "step s l s' \<Longrightarrow> inv ls s \<Longrightarrow> inv (ls @ [l]) s'"
begin

lemma holds_after: "runs step s ls s' \<Longrightarrow> inv [] s \<Longrightarrow> inv ls s'"
  by (induction rule: runs.induct) (auto intro: preserved)

end

end
