(* ===== verification/Rust_Text.thy ===== *)
theory Rust_Text
  imports Mesh_Prelude
begin

text \<open>
  Rust's \<open>str\<close> and \<open>char\<close>, as far as the code uses them.  A \<open>char\<close> is a
  Unicode scalar value and is modelled by its code point; a \<open>String\<close> is the list of
  its characters.  \<open>byte_len\<close> is \<open>str::len\<close> (the length of the UTF-8 form), and
  slicing by byte offsets fails where an offset is not a character boundary, as in Rust,
  where it panics.
\<close>

section \<open>Characters and strings\<close>

type_synonym rchar = nat
type_synonym rstr = "rchar list"

definition ch :: "char \<Rightarrow> rchar" where
  "ch c = of_char c"

definition lit :: "string \<Rightarrow> rstr" where
  "lit s = map of_char s"

definition is_ascii_digit :: "rchar \<Rightarrow> bool" where
  "is_ascii_digit c \<longleftrightarrow> 48 \<le> c \<and> c \<le> 57"

definition is_ascii_alpha :: "rchar \<Rightarrow> bool" where
  "is_ascii_alpha c \<longleftrightarrow> (65 \<le> c \<and> c \<le> 90) \<or> (97 \<le> c \<and> c \<le> 122)"

definition is_ascii_alphanumeric :: "rchar \<Rightarrow> bool" where
  "is_ascii_alphanumeric c \<longleftrightarrow> is_ascii_digit c \<or> is_ascii_alpha c"

definition is_ascii_hexdigit :: "rchar \<Rightarrow> bool" where
  "is_ascii_hexdigit c \<longleftrightarrow>
     is_ascii_digit c \<or> (65 \<le> c \<and> c \<le> 70) \<or> (97 \<le> c \<and> c \<le> 102)"

definition ascii_upper :: "rchar \<Rightarrow> rchar" where
  "ascii_upper c = (if 97 \<le> c \<and> c \<le> 122 then c - 32 else c)"

definition ascii_lower :: "rchar \<Rightarrow> rchar" where
  "ascii_lower c = (if 65 \<le> c \<and> c \<le> 90 then c + 32 else c)"

text \<open>\<open>char::is_control\<close>: the general category Cc.\<close>

definition is_control :: "rchar \<Rightarrow> bool" where
  "is_control c \<longleftrightarrow> c < 32 \<or> (127 \<le> c \<and> c < 160)"

text \<open>\<open>char::is_whitespace\<close>: the Unicode property White\_Space.\<close>

definition is_whitespace :: "rchar \<Rightarrow> bool" where
  "is_whitespace c \<longleftrightarrow>
     (9 \<le> c \<and> c \<le> 13) \<or> c = 32 \<or> c = 133 \<or> c = 160 \<or> c = 5760 \<or>
     (8192 \<le> c \<and> c \<le> 8202) \<or> c = 8232 \<or> c = 8233 \<or> c = 8239 \<or> c = 8287 \<or> c = 12288"

definition trim_by :: "(rchar \<Rightarrow> bool) \<Rightarrow> rstr \<Rightarrow> rstr" where
  "trim_by p s = rev (dropWhile p (rev (dropWhile p s)))"

definition trim :: "rstr \<Rightarrow> rstr" where
  "trim s = trim_by is_whitespace s"

definition upper :: "rstr \<Rightarrow> rstr" where
  "upper s = map ascii_upper s"

definition lower :: "rstr \<Rightarrow> rstr" where
  "lower s = map ascii_lower s"

section \<open>UTF-8\<close>

definition utf8_len :: "rchar \<Rightarrow> nat" where
  "utf8_len c = (if c < 128 then 1 else if c < 2048 then 2 else if c < 65536 then 3 else 4)"

definition byte_len :: "rstr \<Rightarrow> nat" where
  "byte_len s = sum_list (map utf8_len s)"

text \<open>\<open>String::into_bytes\<close>\<close>

definition utf8_char :: "rchar \<Rightarrow> bytes" where
  "utf8_char c =
     (if c < 128 then [of_nat c]
      else if c < 2048 then [of_nat (192 + c div 64), of_nat (128 + c mod 64)]
      else if c < 65536 then
        [of_nat (224 + c div 4096), of_nat (128 + c div 64 mod 64), of_nat (128 + c mod 64)]
      else
        [of_nat (240 + c div 262144), of_nat (128 + c div 4096 mod 64),
         of_nat (128 + c div 64 mod 64), of_nat (128 + c mod 64)])"

definition into_bytes :: "rstr \<Rightarrow> bytes" where
  "into_bytes s = concat (map utf8_char s)"

fun split_at_byte :: "nat \<Rightarrow> rstr \<Rightarrow> (rstr \<times> rstr) option" where
  "split_at_byte n [] = (if n = 0 then Some ([], []) else None)"
| "split_at_byte n (c # cs) =
     (if n = 0 then Some ([], c # cs)
      else if utf8_len c \<le> n
        then map_option (\<lambda>(a, b). (c # a, b)) (split_at_byte (n - utf8_len c) cs)
      else None)"

text \<open>The slice \<open>&s[a..b]\<close>; \<open>Panic\<close> when an end is no character boundary.\<close>

definition str_slice :: "rstr \<Rightarrow> nat \<Rightarrow> nat \<Rightarrow> rstr run" where
  "str_slice s a b =
     (case split_at_byte a s of
        None \<Rightarrow> Panic
      | Some (_, rest) \<Rightarrow>
          (if b < a then Panic
           else case split_at_byte (b - a) rest of None \<Rightarrow> Panic | Some (x, _) \<Rightarrow> Ret x))"

section \<open>Splitting and joining\<close>

definition rsplit_once :: "rchar \<Rightarrow> rstr \<Rightarrow> (rstr \<times> rstr) option" where
  "rsplit_once c s =
     (if c \<in> set s
      then Some (rev (tl (dropWhile (\<lambda>x. x \<noteq> c) (rev s))), rev (takeWhile (\<lambda>x. x \<noteq> c) (rev s)))
      else None)"

text \<open>The first item of \<open>s.rsplit(p)\<close>: what follows the last separator.\<close>

definition rsplit_first :: "(rchar \<Rightarrow> bool) \<Rightarrow> rstr \<Rightarrow> rstr" where
  "rsplit_first p s = rev (takeWhile (\<lambda>x. \<not> p x) (rev s))"

fun join :: "rstr \<Rightarrow> rstr list \<Rightarrow> rstr" where
  "join sep [] = []"
| "join sep [x] = x"
| "join sep (x # y # xs) = x @ sep @ join sep (y # xs)"

section \<open>Numbers\<close>

fun show_nat :: "nat \<Rightarrow> rstr" where
  "show_nat n = (if n < 10 then [48 + n] else show_nat (n div 10) @ [48 + n mod 10])"

declare show_nat.simps [simp del]

definition digit_val :: "rchar \<Rightarrow> nat option" where
  "digit_val c =
     (if 48 \<le> c \<and> c \<le> 57 then Some (c - 48)
      else if 97 \<le> c \<and> c \<le> 122 then Some (c - 87)
      else if 65 \<le> c \<and> c \<le> 90 then Some (c - 55)
      else None)"

fun parse_acc :: "nat \<Rightarrow> nat \<Rightarrow> nat \<Rightarrow> rstr \<Rightarrow> nat option" where
  "parse_acc radix bound acc [] = Some acc"
| "parse_acc radix bound acc (c # cs) =
     (case digit_val c of
        None \<Rightarrow> None
      | Some d \<Rightarrow>
          (if radix \<le> d then None
           else if bound < acc * radix + d then None
           else parse_acc radix bound (acc * radix + d) cs))"

text \<open>
  \<open>from_str_radix\<close> of an unsigned type whose largest value is \<open>bound\<close>.  A leading
  \<open>+\<close> is accepted; an empty string, or a sign alone, is an error.
\<close>

definition parse_unsigned :: "nat \<Rightarrow> nat \<Rightarrow> rstr \<Rightarrow> nat option" where
  "parse_unsigned radix bound s =
     (case s of
        [] \<Rightarrow> None
      | c # cs \<Rightarrow>
          (if c = 43 then (if cs = [] then None else parse_acc radix bound 0 cs)
           else parse_acc radix bound 0 (c # cs)))"

definition hex_digit_lower :: "nat \<Rightarrow> rchar" where
  "hex_digit_lower d = (if d < 10 then 48 + d else 87 + d)"

definition hex_digit_upper :: "nat \<Rightarrow> rchar" where
  "hex_digit_upper d = (if d < 10 then 48 + d else 55 + d)"

text \<open>\<open>format!("{b:02x}")\<close> and \<open>format!("{b:02X}")\<close>\<close>

definition byte_hex_lower :: "byte \<Rightarrow> rstr" where
  "byte_hex_lower b = [hex_digit_lower (unat b div 16), hex_digit_lower (unat b mod 16)]"

definition byte_hex_upper :: "byte \<Rightarrow> rstr" where
  "byte_hex_upper b = [hex_digit_upper (unat b div 16), hex_digit_upper (unat b mod 16)]"

text \<open>\<open>{:0kX}\<close> for a value of at most \<open>k\<close> hexadecimal digits.\<close>

fun hex_fixed_upper :: "nat \<Rightarrow> nat \<Rightarrow> rstr" where
  "hex_fixed_upper 0 n = []"
| "hex_fixed_upper (Suc k) n = hex_fixed_upper k (n div 16) @ [hex_digit_upper (n mod 16)]"

section \<open>Facts about text\<close>

named_theorems char_defs
declare is_ascii_digit_def [char_defs] is_ascii_alpha_def [char_defs]
  is_ascii_alphanumeric_def [char_defs] is_ascii_hexdigit_def [char_defs]
  ascii_upper_def [char_defs] ascii_lower_def [char_defs]
  is_control_def [char_defs] is_whitespace_def [char_defs]

subsection \<open>Trimming\<close>

lemma trim_by_subset: "set (trim_by p s) \<subseteq> set s"
  by (auto simp: trim_by_def dest!: set_dropWhileD)

lemma trim_by_length: "length (trim_by p s) \<le> length s"
  unfolding trim_by_def by (metis length_dropWhile_le length_rev le_trans)

lemma trim_by_Nil_iff: "trim_by p s = [] \<longleftrightarrow> (\<forall>c \<in> set s. p c)"
proof (cases "dropWhile p s")
  case Nil
  then have "\<forall>c \<in> set s. p c" by (simp add: dropWhile_eq_Nil_conv)
  then show ?thesis by (auto simp: trim_by_def dest: set_dropWhileD)
next
  case (Cons c cs)
  then have "\<not> p c" by (metis hd_dropWhile list.distinct(1) list.sel(1))
  moreover have "c \<in> set s" using Cons by (metis list.set_intros(1) set_dropWhileD)
  ultimately show ?thesis using Cons by (auto simp: trim_by_def)
qed

lemma rev_dropWhile_hd:
  assumes "rev (dropWhile p (rev xs)) \<noteq> []"
  shows "hd (rev (dropWhile p (rev xs))) = hd xs"
proof -
  have "xs = rev (dropWhile p (rev xs)) @ rev (takeWhile p (rev xs))"
    by (metis rev_append rev_rev_ident takeWhile_dropWhile_id)
  then show ?thesis using assms by (metis hd_append2)
qed

lemma trim_by_hd: "trim_by p s \<noteq> [] \<Longrightarrow> \<not> p (hd (trim_by p s))"
  unfolding trim_by_def
  by (metis dropWhile.simps(1) hd_dropWhile rev.simps(1) rev_dropWhile_hd)

lemma trim_by_last: "trim_by p s \<noteq> [] \<Longrightarrow> \<not> p (last (trim_by p s))"
  unfolding trim_by_def by (simp add: last_rev hd_dropWhile)

lemma dropWhile_id: "xs = [] \<or> \<not> p (hd xs) \<Longrightarrow> dropWhile p xs = xs"
  by (cases xs) auto

lemma trim_by_id: "s = [] \<or> (\<not> p (hd s) \<and> \<not> p (last s)) \<Longrightarrow> trim_by p s = s"
  unfolding trim_by_def by (auto simp: dropWhile_id hd_rev)

lemma trim_by_idem [simp]: "trim_by p (trim_by p s) = trim_by p s"
  by (rule trim_by_id) (use trim_by_hd trim_by_last in blast)

lemma trim_idem [simp]: "trim (trim s) = trim s"
  by (simp add: trim_def)

subsection \<open>Byte lengths and slices\<close>

lemma byte_len_simps [simp]:
  "byte_len [] = 0"
  "byte_len (c # s) = utf8_len c + byte_len s"
  "byte_len (s @ t) = byte_len s + byte_len t"
  by (simp_all add: byte_len_def)

lemma utf8_len_pos [simp]: "0 < utf8_len c"
  by (simp add: utf8_len_def)

lemma utf8_len_le: "utf8_len c \<le> 4"
  by (simp add: utf8_len_def)

lemma length_into_bytes [simp]: "length (into_bytes s) = byte_len s"
  by (induction s) (auto simp: into_bytes_def utf8_char_def utf8_len_def)

lemma byte_len_ascii: "\<forall>c \<in> set s. c < 128 \<Longrightarrow> byte_len s = length s"
  by (induction s) (auto simp: utf8_len_def)

lemma byte_len_bounds: "length s \<le> byte_len s \<and> byte_len s \<le> 4 * length s"
proof (induction s)
  case (Cons c s)
  have "Suc 0 \<le> utf8_len c" by (simp add: Suc_le_eq)
  then have "Suc (length s) \<le> utf8_len c + byte_len s" using Cons by linarith
  moreover have "utf8_len c + byte_len s \<le> 4 + 4 * length s"
    using Cons utf8_len_le [of c] by linarith
  ultimately show ?case by simp
qed simp

lemma split_at_byte_len: "split_at_byte n s = Some (a, b) \<Longrightarrow> s = a @ b \<and> byte_len a = n"
  by (induction n s arbitrary: a b rule: split_at_byte.induct) (auto split: if_splits)

lemma split_at_byte_append [simp]: "split_at_byte (byte_len a) (a @ b) = Some (a, b)"
  by (induction a) (cases b, auto)

lemma str_slice_append: "str_slice (a @ x @ b) (byte_len a) (byte_len a + byte_len x) = Ret x"
  by (simp add: str_slice_def)

lemma str_slice_ascii:
  assumes "\<forall>c \<in> set s. c < 128" "i \<le> j" "j \<le> length s"
  shows "str_slice s i j = Ret (take (j - i) (drop i s))"
proof -
  let ?a = "take i s" and ?x = "take (j - i) (drop i s)" and ?b = "drop (j - i) (drop i s)"
  have la: "byte_len ?a = i" using assms by (subst byte_len_ascii) (auto dest: in_set_takeD)
  have lx: "byte_len ?x = j - i"
    using assms by (subst byte_len_ascii) (auto dest!: in_set_takeD in_set_dropD)
  have "s = ?a @ ?x @ ?b" by (metis append_take_drop_id)
  then have "str_slice s i j = str_slice (?a @ ?x @ ?b) (byte_len ?a) (byte_len ?a + byte_len ?x)"
    using la lx assms(2) by simp
  then show ?thesis by (simp only: str_slice_append)
qed

subsection \<open>Splitting\<close>

lemma rsplit_once_append: "c \<notin> set b \<Longrightarrow> rsplit_once c (a @ c # b) = Some (a, b)"
proof -
  assume b: "c \<notin> set b"
  have "\<forall>x \<in> set (rev b). x \<noteq> c" using b by auto
  then have "dropWhile (\<lambda>x. x \<noteq> c) (rev b @ c # rev a) = c # rev a"
    and "takeWhile (\<lambda>x. x \<noteq> c) (rev b @ c # rev a) = rev b"
    by (simp_all add: dropWhile_append3 takeWhile_append2 takeWhile_tail)
  then show ?thesis by (simp add: rsplit_once_def)
qed

lemma rsplit_once_None: "rsplit_once c s = None \<longleftrightarrow> c \<notin> set s"
  by (simp add: rsplit_once_def)

lemma rsplit_first_free: "x \<in> set (rsplit_first p s) \<Longrightarrow> \<not> p x"
  by (auto simp: rsplit_first_def dest: set_takeWhileD)

lemma rsplit_first_subset: "set (rsplit_first p s) \<subseteq> set s"
  by (auto simp: rsplit_first_def dest: set_takeWhileD)

lemma rsplit_first_append:
  assumes "p c" "\<forall>x \<in> set b. \<not> p x"
  shows "rsplit_first p (a @ c # b) = b"
proof -
  have "takeWhile (\<lambda>x. \<not> p x) (rev b @ c # rev a) = rev b"
    using assms by (subst takeWhile_append2) auto
  then show ?thesis by (simp add: rsplit_first_def)
qed

subsection \<open>Decimal numbers\<close>

lemma digit_val_dec: "d < 10 \<Longrightarrow> digit_val (48 + d) = Some d"
  by (simp add: digit_val_def)

lemma parse_acc_snoc:
  "parse_acc r b acc (xs @ [c]) =
     (case parse_acc r b acc xs of None \<Rightarrow> None | Some a \<Rightarrow> parse_acc r b a [c])"
  by (induction xs arbitrary: acc) (auto split: option.splits)

lemma parse_acc_show: "n \<le> bound \<Longrightarrow> parse_acc 10 bound 0 (show_nat n) = Some n"
proof (induction n rule: show_nat.induct)
  case (1 n)
  show ?case
  proof (cases "n < 10")
    case True
    with "1.prems" show ?thesis by (subst show_nat.simps) (simp add: digit_val_dec)
  next
    case False
    with 1 have "parse_acc 10 bound 0 (show_nat (n div 10)) = Some (n div 10)" by simp
    with False "1.prems" show ?thesis
      by (subst show_nat.simps) (simp add: parse_acc_snoc digit_val_dec mult.commute)
  qed
qed

lemma show_nat_digits: "c \<in> set (show_nat n) \<Longrightarrow> 48 \<le> c \<and> c \<le> 57"
proof (induction n rule: show_nat.induct)
  case (1 n)
  then show ?case
    by (subst (asm) (2) show_nat.simps) (auto split: if_splits)
qed

lemma show_nat_nonempty [simp]: "show_nat n \<noteq> []"
  by (subst show_nat.simps) simp

lemma show_nat_no_sep: "c < 48 \<or> 57 < c \<Longrightarrow> c \<notin> set (show_nat n)"
  using show_nat_digits by (metis not_less)

lemma parse_show: "n \<le> bound \<Longrightarrow> parse_unsigned 10 bound (show_nat n) = Some n"
proof -
  assume n: "n \<le> bound"
  obtain c cs where s: "show_nat n = c # cs" by (cases "show_nat n") auto
  then have "c \<noteq> 43" using show_nat_digits [of c n] by auto
  then show ?thesis using parse_acc_show [OF n] s by (simp add: parse_unsigned_def)
qed

lemma show_nat_inj [simp]: "show_nat m = show_nat n \<longleftrightarrow> m = n"
proof
  assume eq: "show_nat m = show_nat n"
  have "parse_unsigned 10 (max m n) (show_nat m) = Some m" by (simp add: parse_show)
  moreover have "parse_unsigned 10 (max m n) (show_nat n) = Some n" by (simp add: parse_show)
  ultimately show "m = n" using eq by (metis option.inject)
qed simp

subsection \<open>Hexadecimal digits\<close>

lemma digit_val_hex_lower: "d < 16 \<Longrightarrow> digit_val (hex_digit_lower d) = Some d"
  by (auto simp: digit_val_def hex_digit_lower_def)

lemma digit_val_hex_upper: "d < 16 \<Longrightarrow> digit_val (hex_digit_upper d) = Some d"
  by (auto simp: digit_val_def hex_digit_upper_def)

lemma hex_digit_upper_ascii: "d < 16 \<Longrightarrow> is_ascii_hexdigit (hex_digit_upper d)"
  by (auto simp: char_defs hex_digit_upper_def)

lemma length_hex_fixed [simp]: "length (hex_fixed_upper k n) = k"
  by (induction k arbitrary: n) auto

lemma hex_fixed_hexdigits: "c \<in> set (hex_fixed_upper k n) \<Longrightarrow> is_ascii_hexdigit c"
  by (induction k arbitrary: n) (auto simp: hex_digit_upper_ascii)

lemma parse_acc_hex_fixed:
  "n < 16 ^ k \<Longrightarrow> n \<le> bound \<Longrightarrow> parse_acc 16 bound 0 (hex_fixed_upper k n) = Some n"
proof (induction k arbitrary: n)
  case 0
  then show ?case by simp
next
  case (Suc k)
  have "n div 16 < 16 ^ k" using Suc.prems by (simp add: less_mult_imp_div_less mult.commute)
  with Suc have "parse_acc 16 bound 0 (hex_fixed_upper k (n div 16)) = Some (n div 16)"
    by (metis div_le_dividend le_trans)
  with Suc.prems show ?case
    by (simp add: parse_acc_snoc digit_val_hex_upper mult.commute)
qed

lemma hex_digit_lower_char: "d < 16 \<Longrightarrow> hex_digit_lower d < 128 \<and> hex_digit_lower d \<noteq> 43"
  by (simp add: hex_digit_lower_def)

lemma byte_nibbles: "unat (b :: byte) div 16 < 16" "unat (b :: byte) mod 16 < 16"
  using unat_byte [of b] by (simp_all add: less_mult_imp_div_less)

lemma byte_hex_lower_chars: "c \<in> set (byte_hex_lower b) \<Longrightarrow> c < 128 \<and> c \<noteq> 43"
  using hex_digit_lower_char [OF byte_nibbles(1) [of b]] hex_digit_lower_char [OF byte_nibbles(2) [of b]]
  by (auto simp: byte_hex_lower_def)

lemma length_byte_hex_lower [simp]: "length (byte_hex_lower b) = 2"
  by (simp add: byte_hex_lower_def)

lemma parse_byte_hex_lower: "parse_unsigned 16 255 (byte_hex_lower b) = Some (unat b)"
proof -
  define h l where "h = unat b div 16" and "l = unat b mod 16"
  have hl: "h < 16" "l < 16" "h * 16 + l = unat b"
    using byte_nibbles [of b] by (simp_all add: h_def l_def)
  have "h * 16 + l \<le> 255" using hl unat_byte [of b] by linarith
  moreover have "hex_digit_lower h \<noteq> 43" using hex_digit_lower_char hl by blast
  ultimately show ?thesis using hl
    by (simp add: parse_unsigned_def byte_hex_lower_def digit_val_hex_lower not_le
        h_def [symmetric] l_def [symmetric])
qed

end
