(* ===== verification/Errors.thy ===== *)
theory Errors
  imports Rust_Text
begin

text \<open>
  \<open>core/src/lib.rs\<close>: the crate-wide error type and its readable form, and the
  protocol version.  An operating-system error is its kind (the kinds the code inspects)
  and the message the system gives for it.
\<close>

datatype io_kind =
    UnexpectedEof | WriteZero | Interrupted | InvalidInput | InvalidData | OtherKind

record io_error =
  err_kind :: io_kind
  err_msg :: rstr

definition io_new :: "io_kind \<Rightarrow> rstr \<Rightarrow> io_error" where
  "io_new k m = \<lparr>err_kind = k, err_msg = m\<rparr>"

datatype error =
    Io io_error
  | Crypto rstr
  | Protocol rstr
  | RoomCode rstr
  | Unsupported rstr
  | Config rstr
  | Closed rstr

type_synonym 'a res = "error + 'a"

text \<open>\<open>impl fmt::Display for Error\<close>\<close>

fun show_error :: "error \<Rightarrow> rstr" where
  "show_error (Io e) = err_msg e"
| "show_error (Crypto m) = lit ''encryption error: '' @ m"
| "show_error (Protocol m) = lit ''protocol error: '' @ m"
| "show_error (RoomCode m) = lit ''room code error: '' @ m"
| "show_error (Unsupported m) = m"
| "show_error (Config m) = m"
| "show_error (Closed m) = m"

text \<open>\<open>impl From<std::io::Error> for Error\<close>, under the \<open>?\<close> operator.\<close>

definition from_io :: "io_error + 'a \<Rightarrow> 'a res" where
  "from_io r = (case r of Inl e \<Rightarrow> Inl (Io e) | Inr x \<Rightarrow> Inr x)"

text \<open>\<open>impl From<serde_json::Error> for Error\<close>: the JSON error is its message.\<close>

definition from_json_error :: "rstr + 'a \<Rightarrow> 'a res" where
  "from_json_error r = (case r of Inl m \<Rightarrow> Inl (Protocol m) | Inr x \<Rightarrow> Inr x)"

definition PROTOCOL_VERSION :: u32 where
  "PROTOCOL_VERSION = 1"

lemma from_io_simps [simp]: "from_io (Inl e) = Inl (Io e)" "from_io (Inr x) = Inr x"
  by (simp_all add: from_io_def)

lemma from_json_error_simps [simp]:
  "from_json_error (Inl m) = Inl (Protocol m)" "from_json_error (Inr x) = Inr x"
  by (simp_all add: from_json_error_def)

end
