(* ===== verification/Transport_Kind.thy ===== *)
theory Transport_Kind
  imports Errors
begin

text \<open>
  \<open>core/src/transport/mod.rs\<close>: the two transports, their names and their room-code
  tags; and the Bluetooth address strings, which \<open>bluetooth_stub.rs\<close> and
  \<open>bluetooth_windows.rs\<close> define alike.
\<close>

unbundle bit_operations_syntax

datatype transport_kind = Lan | Bluetooth

definition kind_as_str :: "transport_kind \<Rightarrow> rstr" where
  "kind_as_str k = (case k of Lan \<Rightarrow> lit ''LAN'' | Bluetooth \<Rightarrow> lit ''Bluetooth'')"

definition kind_parse :: "rstr \<Rightarrow> transport_kind option" where
  "kind_parse s =
     (let t = lower (trim s) in
      if t = lit ''lan'' \<or> t = lit ''tcp'' \<or> t = lit ''local'' then Some Lan
      else if t = lit ''bluetooth'' \<or> t = lit ''bt'' \<or> t = lit ''rfcomm'' then Some Bluetooth
      else None)"

definition kind_tag :: "transport_kind \<Rightarrow> rchar" where
  "kind_tag k = (case k of Lan \<Rightarrow> ch CHR ''L'' | Bluetooth \<Rightarrow> ch CHR ''B'')"

definition kind_from_tag :: "rchar \<Rightarrow> transport_kind option" where
  "kind_from_tag c =
     (let u = ascii_upper c in
      if u = ch CHR ''L'' then Some Lan
      else if u = ch CHR ''B'' then Some Bluetooth
      else None)"

text \<open>There are just the two, so what holds of all is checked by evaluation.\<close>

instantiation transport_kind :: enum
begin

definition "enum_class.enum = [Lan, Bluetooth]"
definition "enum_class.enum_all P \<longleftrightarrow> P Lan \<and> P Bluetooth"
definition "enum_class.enum_ex P \<longleftrightarrow> P Lan \<or> P Bluetooth"

instance
proof
  show "(UNIV :: transport_kind set) = set enum_class.enum"
    by (auto simp: enum_transport_kind_def intro: transport_kind.exhaust)
  show "enum_class.enum_all P = Ball (UNIV :: transport_kind set) P"
    "enum_class.enum_ex P = Bex (UNIV :: transport_kind set) P" for P
    by (auto simp: enum_all_transport_kind_def enum_ex_transport_kind_def)
      (metis transport_kind.exhaust)+
  show "distinct (enum_class.enum :: transport_kind list)" by (simp add: enum_transport_kind_def)
qed

end

lemma kind_texts: "\<forall>k. kind_from_tag (kind_tag k) = Some k \<and> kind_parse (kind_as_str k) = Some k"
  by code_simp

lemma kind_from_tag_tag [simp]: "kind_from_tag (kind_tag k) = Some k"
  using kind_texts by simp

lemma kind_parse_as_str [simp]: "kind_parse (kind_as_str k) = Some k"
  using kind_texts by simp

section \<open>Bluetooth addresses\<close>

definition format_addr :: "u64 \<Rightarrow> rstr" where
  "format_addr addr = hex_fixed_upper 12 (unat (addr AND mask 48))"

definition parse_addr :: "rstr \<Rightarrow> u64 res" where
  "parse_addr s =
     (let hex = filter is_ascii_hexdigit s in
      if byte_len hex \<noteq> 12
      then Inl (RoomCode ([39] @ s @ [39] @ lit '' is not a 12 hex digit Bluetooth address''))
      else case parse_unsigned 16 (2 ^ 64 - 1) hex of
             None \<Rightarrow> Inl (RoomCode (lit ''invalid digit found in string''))
           | Some n \<Rightarrow> Inr (of_nat n))"

definition parse_dial :: "rstr \<Rightarrow> (u64 \<times> u32) res" where
  "parse_dial s =
     (case rsplit_once (ch CHR '':'') s of
        None \<Rightarrow> Inl (RoomCode ([39] @ s @ [39] @ lit '' is not ADDRESS:CHANNEL''))
      | Some (mac, chan) \<Rightarrow>
          res_bind (parse_addr mac) (\<lambda>addr.
            case parse_unsigned 10 (2 ^ 32 - 1) chan of
              None \<Rightarrow>
                Inl (RoomCode ([39] @ chan @ [39] @ lit '' is not a valid RFCOMM channel''))
            | Some n \<Rightarrow> Inr (addr, of_nat n)))"

lemma unat_mask_48: "unat ((w :: u64) AND mask 48) < 16 ^ 12"
proof -
  have "unat (take_bit 48 w) < 2 ^ 48" unfolding unsigned_take_bit_eq by (rule take_bit_nat_less_exp)
  then show ?thesis by (simp add: take_bit_eq_mask)
qed

lemma format_addr_hexdigits: "c \<in> set (format_addr a) \<Longrightarrow> is_ascii_hexdigit c"
  by (auto simp: format_addr_def dest: hex_fixed_hexdigits)

lemma length_format_addr [simp]: "length (format_addr a) = 12"
  by (simp add: format_addr_def)

lemma parse_format_addr: "parse_addr (format_addr a) = Inr (a AND mask 48)"
proof -
  let ?s = "format_addr a" and ?n = "unat (a AND mask 48)"
  have f: "filter is_ascii_hexdigit ?s = ?s"
    by (rule filter_True) (auto dest: format_addr_hexdigits)
  have l: "byte_len ?s = 12"
    by (subst byte_len_ascii) (auto dest!: format_addr_hexdigits simp: char_defs)
  obtain c cs where s: "?s = c # cs" by (cases "?s") (metis length_format_addr list.size(3) zero_neq_numeral, simp)
  have "c \<noteq> 43" using format_addr_hexdigits [of c a] s by (auto simp: char_defs)
  moreover have "parse_acc 16 (2 ^ 64 - 1) 0 ?s = Some ?n"
    unfolding format_addr_def
    by (rule parse_acc_hex_fixed [OF unat_mask_48]) (use unat_mask_48 [of a] in simp)
  ultimately have "parse_unsigned 16 (2 ^ 64 - 1) ?s = Some ?n"
    using s by (simp add: parse_unsigned_def)
  with f l show ?thesis by (simp add: parse_addr_def)
qed

lemma parse_dial_format:
  "unat chan = n \<Longrightarrow>
   parse_dial (format_addr a @ [ch CHR '':''] @ show_nat n) = Inr (a AND mask 48, chan)"
proof -
  assume n: "unat chan = n"
  have "ch CHR '':'' \<notin> set (show_nat n)"
    by (rule show_nat_no_sep) (simp add: ch_def)
  then have "rsplit_once (ch CHR '':'') (format_addr a @ [ch CHR '':''] @ show_nat n) =
      Some (format_addr a, show_nat n)"
    by (simp add: rsplit_once_append)
  moreover have "n \<le> 2 ^ 32 - 1"
    using n unsigned_less [of chan, where ?'a = nat] by simp
  then have "parse_unsigned 10 (2 ^ 32 - 1) (show_nat n) = Some n" by (rule parse_show)
  ultimately show ?thesis using n by (auto simp: parse_dial_def parse_format_addr)
qed

end
