(* ===== verification/Bit_Streams.thy ===== *)
theory Bit_Streams
  imports Mesh_Prelude
begin

text \<open>
  Words as bit strings, most significant bit first, and big-endian bytes
  (\<open>to_be_bytes\<close> and \<open>from_be_bytes\<close>).  The framing header, the chunk header and
  the room codes all rest on the facts of this theory.
\<close>

unbundle bit_operations_syntax

definition bits_of :: "nat \<Rightarrow> 'a::len word \<Rightarrow> bool list" where
  "bits_of k w = map (bit w) (rev [0..<k])"

definition be_bytes :: "nat \<Rightarrow> 'a::len word \<Rightarrow> bytes" where
  "be_bytes k w = map (\<lambda>i. ucast (drop_bit (8 * i) w)) (rev [0..<k])"

definition of_be_bytes :: "bytes \<Rightarrow> 'a::len word" where
  "of_be_bytes bs = foldl (\<lambda>acc b. push_bit 8 acc OR ucast b) 0 bs"

lemma length_bits_of [simp]: "length (bits_of k w) = k"
  by (simp add: bits_of_def)

lemma bits_of_0 [simp]: "bits_of 0 w = []"
  by (simp add: bits_of_def)

lemma length_be_bytes [simp]: "length (be_bytes k w) = k"
  by (simp add: be_bytes_def)

lemma nth_bits_of: "i < k \<Longrightarrow> bits_of k w ! i = bit w (k - Suc i)"
  by (simp add: bits_of_def rev_nth)

lemma bits_of_eqI:
  "(\<And>i. i < k \<Longrightarrow> bit v i = bit w i) \<Longrightarrow> bits_of k v = bits_of k w"
  by (auto simp: bits_of_def)

lemma bits_of_eq_iff: "bits_of k v = bits_of k w \<longleftrightarrow> (\<forall>i < k. bit v i = bit w i)"
  by (auto simp: bits_of_def)

lemma bits_of_append:
  fixes w :: "'a::len word"
  shows "bits_of (j + k) w = bits_of j (drop_bit k w) @ bits_of k w"
proof -
  have "rev [0..<j + k] = map (\<lambda>i. i + k) (rev [0..<j]) @ rev [0..<k]"
    by (metis add.commute map_add_upt rev_append rev_map upt_add_eq_append zero_le)
  then show ?thesis by (simp add: bits_of_def bit_drop_bit_eq add.commute)
qed

lemma bits_of_inj:
  fixes v w :: "'a::len word"
  assumes "bits_of k v = bits_of k w" "LENGTH('a) \<le> k"
  shows "v = w"
  by (rule bit_word_eqI) (use assms in \<open>auto simp: bits_of_eq_iff\<close>)

lemma byte_bits_inj [simp]: "bits_of 8 (a :: byte) = bits_of 8 b \<longleftrightarrow> a = b"
  using bits_of_inj [of 8 a b] by auto

text \<open>A list of bytes is determined by its bits.\<close>

lemma concat_bits_inj:
  "concat (map (bits_of 8) (as :: bytes)) @ r = concat (map (bits_of 8) bs) @ s \<Longrightarrow>
   length as = length bs \<Longrightarrow> as = bs \<and> r = s"
  by (induction as bs rule: list_induct2') auto

lemma length_concat_bits [simp]: "length (concat (map (bits_of k) ws)) = k * length ws"
  by (induction ws) auto

lemma bits_of_mask: "k \<le> n \<Longrightarrow> bits_of k (w AND mask n) = bits_of k w"
  by (rule bits_of_eqI) (auto simp: bit_simps dest: bit_imp_le_length)

lemma bits_of_push_or:
  fixes acc v :: "'a::len word"
  assumes "j + k \<le> LENGTH('a)" and "\<And>i. k \<le> i \<Longrightarrow> \<not> bit v i"
  shows "bits_of (j + k) (push_bit k acc OR v) = bits_of j acc @ bits_of k v"
proof -
  have "bits_of j (drop_bit k (push_bit k acc OR v)) = bits_of j acc"
    by (rule bits_of_eqI) (use assms in \<open>auto simp: bit_simps\<close>)
  moreover have "bits_of k (push_bit k acc OR v) = bits_of k v"
    by (rule bits_of_eqI) (auto simp: bit_simps)
  ultimately show ?thesis by (simp add: bits_of_append)
qed

lemma bits_of_ucast_byte:
  "8 \<le> LENGTH('a::len) \<Longrightarrow> bits_of 8 (ucast (b :: byte) :: 'a word) = bits_of 8 b"
  by (auto simp: bits_of_def bit_simps)

lemma ucast_byte_high: "8 \<le> i \<Longrightarrow> \<not> bit (ucast (b :: byte) :: 'a::len word) i"
  by (auto simp: bit_simps dest: bit_imp_le_length)

lemma bits_of_push_byte:
  fixes acc :: "'a::len word"
  assumes "j + 8 \<le> LENGTH('a)"
  shows "bits_of (j + 8) (push_bit 8 acc OR ucast (b :: byte)) = bits_of j acc @ bits_of 8 b"
  using assms by (simp only: bits_of_push_or [OF _ ucast_byte_high] bits_of_ucast_byte)

lemma bits_of_be_bytes:
  fixes w :: "'a::len word"
  shows "concat (map (bits_of 8) (be_bytes k w)) = bits_of (8 * k) w"
proof (induction k)
  case 0
  then show ?case by (simp add: be_bytes_def)
next
  case (Suc k)
  have "bits_of (8 * Suc k) w = bits_of (8 + 8 * k) w" by simp
  also have "\<dots> = bits_of 8 (drop_bit (8 * k) w) @ bits_of (8 * k) w" by (rule bits_of_append)
  also have "bits_of 8 (drop_bit (8 * k) w) = bits_of 8 (ucast (drop_bit (8 * k) w) :: byte)"
    by (rule bits_of_eqI) (simp add: bit_simps)
  finally show ?case using Suc by (simp add: be_bytes_def)
qed

lemma of_be_bytes_snoc:
  "of_be_bytes (bs @ [b]) = push_bit 8 (of_be_bytes bs) OR ucast b"
  by (simp add: of_be_bytes_def)

lemma bits_of_of_be_bytes:
  fixes bs :: bytes
  assumes "8 * length bs \<le> LENGTH('a::len)"
  shows "bits_of (8 * length bs) (of_be_bytes bs :: 'a word) = concat (map (bits_of 8) bs)"
  using assms
proof (induction bs rule: rev_induct)
  case Nil
  then show ?case by simp
next
  case (snoc b bs)
  have "8 * length (bs @ [b]) = 8 * length bs + 8" by simp
  then have "bits_of (8 * length (bs @ [b])) (of_be_bytes (bs @ [b]) :: 'a word) =
      bits_of (8 * length bs) (of_be_bytes bs :: 'a word) @ bits_of 8 b"
    using snoc.prems by (simp only: of_be_bytes_snoc bits_of_push_byte)
  with snoc show ?case by simp
qed

lemma bit_of_be_bytes_high:
  "8 * length bs \<le> i \<Longrightarrow> \<not> bit (of_be_bytes bs :: 'a::len word) i"
proof (induction bs arbitrary: i rule: rev_induct)
  case Nil
  then show ?case by (simp add: of_be_bytes_def)
next
  case (snoc b bs)
  then show ?case
    by (auto simp: of_be_bytes_snoc bit_simps dest: bit_imp_le_length)
qed

lemma of_be_bytes_be_bytes:
  fixes w :: "'a::len word"
  assumes "8 * k = LENGTH('a)"
  shows "of_be_bytes (be_bytes k w) = w"
proof (rule bits_of_inj)
  show "bits_of (8 * k) (of_be_bytes (be_bytes k w) :: 'a word) = bits_of (8 * k) w"
    using bits_of_of_be_bytes [of "be_bytes k w", where 'a = 'a] assms
    by (simp add: bits_of_be_bytes)
qed (use assms in simp)

lemma of_be_bytes_low:
  fixes w :: "'a::len word"
  assumes "8 * k \<le> LENGTH('a)"
  shows "of_be_bytes (be_bytes k w) = take_bit (8 * k) w"
proof (rule bit_word_eqI)
  fix i
  have "bits_of (8 * k) (of_be_bytes (be_bytes k w) :: 'a word) = bits_of (8 * k) w"
    using bits_of_of_be_bytes [of "be_bytes k w", where 'a = 'a] assms
    by (simp add: bits_of_be_bytes)
  then have "i < 8 * k \<Longrightarrow> bit (of_be_bytes (be_bytes k w) :: 'a word) i = bit w i"
    by (simp add: bits_of_eq_iff)
  then show "bit (of_be_bytes (be_bytes k w) :: 'a word) i = bit (take_bit (8 * k) w) i"
    by (cases "i < 8 * k") (auto simp: bit_take_bit_iff bit_of_be_bytes_high)
qed

lemma be_bytes_of_be_bytes:
  assumes "8 * length bs \<le> LENGTH('a::len)"
  shows "be_bytes (length bs) (of_be_bytes bs :: 'a word) = bs"
proof -
  have "concat (map (bits_of 8) (be_bytes (length bs) (of_be_bytes bs :: 'a word))) @ [] =
        concat (map (bits_of 8) bs) @ []"
    using assms by (simp add: bits_of_be_bytes bits_of_of_be_bytes)
  then show ?thesis by (rule concat_bits_inj [THEN conjunct1]) simp
qed

end
