(* ===== verification/Socket_Addr.thy ===== *)
theory Socket_Addr
  imports Rust_Text
begin

text \<open>
  \<open>std::net::SocketAddr\<close>, its parser and its printed form, as the standard library
  documents them: an IPv4 address is four decimal octets of at most three digits without
  leading zeros, an IPv6 socket address is bracketed, a port is a decimal 16-bit number.
  Parsers return the rest of the input.  Of an IPv6 address the code only uses that it is
  one, so its value is not kept.
\<close>

datatype socket_addr = V4 bytes u16 | V6

definition to_digit :: "nat \<Rightarrow> rchar \<Rightarrow> nat option" where
  "to_digit radix c = (case digit_val c of Some d \<Rightarrow> (if d < radix then Some d else None) | None \<Rightarrow> None)"

text \<open>The longest prefix of digits, its value and what follows it.\<close>

fun read_digits :: "nat \<Rightarrow> nat \<Rightarrow> nat \<Rightarrow> rstr \<Rightarrow> nat \<times> nat \<times> rstr" where
  "read_digits radix acc n [] = (acc, n, [])"
| "read_digits radix acc n (c # cs) =
     (case to_digit radix c of
        None \<Rightarrow> (acc, n, c # cs)
      | Some d \<Rightarrow> read_digits radix (acc * radix + d) (Suc n) cs)"

definition read_number ::
  "nat \<Rightarrow> nat option \<Rightarrow> bool \<Rightarrow> nat \<Rightarrow> rstr \<Rightarrow> (nat \<times> rstr) option" where
  "read_number radix max_digits allow_zero_prefix bound s =
     (let (v, n, rest) = read_digits radix 0 0 s;
          has_leading_zero = (case s of c # _ \<Rightarrow> c = 48 | [] \<Rightarrow> False)
      in if n = 0 then None
         else if (case max_digits of Some m \<Rightarrow> m < n | None \<Rightarrow> False) then None
         else if \<not> allow_zero_prefix \<and> has_leading_zero \<and> 1 < n then None
         else if bound < v then None
         else Some (v, rest))"

definition read_given_char :: "rchar \<Rightarrow> rstr \<Rightarrow> rstr option" where
  "read_given_char c s = (case s of x # xs \<Rightarrow> (if x = c then Some xs else None) | [] \<Rightarrow> None)"

definition read_octet :: "rstr \<Rightarrow> (nat \<times> rstr) option" where
  "read_octet s = read_number 10 (Some 3) False 255 s"

definition dot_octet :: "rstr \<Rightarrow> (nat \<times> rstr) option" where
  "dot_octet s = Option.bind (read_given_char (ch CHR ''.'') s) read_octet"

definition read_ipv4_addr :: "rstr \<Rightarrow> (bytes \<times> rstr) option" where
  "read_ipv4_addr s0 =
     Option.bind (read_octet s0) (\<lambda>(a, s1).
     Option.bind (dot_octet s1) (\<lambda>(b, s2).
     Option.bind (dot_octet s2) (\<lambda>(c, s3).
     Option.bind (dot_octet s3) (\<lambda>(d, s4).
       Some ([of_nat a, of_nat b, of_nat c, of_nat d], s4)))))"

definition read_port :: "rstr \<Rightarrow> (nat \<times> rstr) option" where
  "read_port s = Option.bind (read_given_char (ch CHR '':'') s) (read_number 10 None True 65535)"

text \<open>
  \<open>read_groups\<close> for \<open>limit\<close> slots, at slot \<open>i\<close>: the number of slots filled,
  whether an embedded IPv4 address ended the run, and the rest.
\<close>

definition read_separator :: "nat \<Rightarrow> rstr \<Rightarrow> rstr option" where
  "read_separator i s = (if i = 0 then Some s else read_given_char (ch CHR '':'') s)"

fun read_groups :: "nat \<Rightarrow> nat \<Rightarrow> nat \<Rightarrow> rstr \<Rightarrow> nat \<times> bool \<times> rstr" where
  "read_groups 0 limit i s = (limit, False, s)"
| "read_groups (Suc k) limit i s =
     (case (if i + 1 < limit then Option.bind (read_separator i s) read_ipv4_addr else None) of
        Some (_, rest) \<Rightarrow> (i + 2, True, rest)
      | None \<Rightarrow>
          (case Option.bind (read_separator i s) (read_number 16 (Some 4) True 65535) of
             None \<Rightarrow> (i, False, s)
           | Some (_, rest) \<Rightarrow> read_groups k limit (Suc i) rest))"

definition read_ipv6_addr :: "rstr \<Rightarrow> rstr option" where
  "read_ipv6_addr s =
     (let (n, v4, rest) = read_groups 8 8 0 s in
      if n = 8 then Some rest
      else if v4 then None
      else Option.bind (read_given_char (ch CHR '':'') rest) (\<lambda>r1.
           Option.bind (read_given_char (ch CHR '':'') r1) (\<lambda>r2.
             let limit = 8 - (n + 1); (m, w4, r3) = read_groups limit limit 0 r2 in Some r3)))"

definition read_scope_id :: "rstr \<Rightarrow> (nat \<times> rstr) option" where
  "read_scope_id s =
     Option.bind (read_given_char (ch CHR ''%'') s) (read_number 10 None True (2 ^ 32 - 1))"

definition read_socket_addr_v6 :: "rstr \<Rightarrow> rstr option" where
  "read_socket_addr_v6 s =
     Option.bind (read_given_char (ch CHR ''['') s) (\<lambda>s1.
     Option.bind (read_ipv6_addr s1) (\<lambda>s2.
       let s3 = (case read_scope_id s2 of Some (_, r) \<Rightarrow> r | None \<Rightarrow> s2) in
     Option.bind (read_given_char (ch CHR '']'') s3) (\<lambda>s4.
       map_option snd (read_port s4))))"

definition read_socket_addr_v4 :: "rstr \<Rightarrow> (bytes \<times> nat \<times> rstr) option" where
  "read_socket_addr_v4 s =
     Option.bind (read_ipv4_addr s) (\<lambda>(ip, s1).
     Option.bind (read_port s1) (\<lambda>(p, s2). Some (ip, p, s2)))"

definition parse_socket_addr :: "rstr \<Rightarrow> socket_addr option" where
  "parse_socket_addr s =
     (case read_socket_addr_v4 s of
        Some (ip, p, rest) \<Rightarrow> (if rest = [] then Some (V4 ip (of_nat p)) else None)
      | None \<Rightarrow> (if read_socket_addr_v6 s = Some [] then Some V6 else None))"

definition show_ipv4 :: "bytes \<Rightarrow> rstr" where
  "show_ipv4 octets = join [ch CHR ''.''] (map (\<lambda>b. show_nat (unat b)) octets)"

section \<open>Facts\<close>

lemma to_digit_dec: "d < 10 \<Longrightarrow> to_digit 10 (48 + d) = Some d"
  by (simp add: to_digit_def digit_val_dec)

lemma read_digits_show:
  assumes "\<And>c cs. rest = c # cs \<Longrightarrow> to_digit 10 c = None"
  shows "read_digits 10 0 0 (show_nat n @ rest) = (n, length (show_nat n), rest)"
proof -
  have "read_digits 10 a k (show_nat n @ r) = read_digits 10 (a * 10 ^ length (show_nat n) + n)
          (k + length (show_nat n)) r" for a k r n
  proof (induction n arbitrary: a k r rule: show_nat.induct)
    case (1 n)
    show ?case
    proof (cases "n < 10")
      case True
      then show ?thesis by (simp add: show_nat.simps [of n] to_digit_dec)
    next
      case False
      have "n div 10 * 10 + n mod 10 = n" by simp
      with False 1 [of a k] show ?thesis
        by (simp add: show_nat.simps [of n] to_digit_dec algebra_simps)
    qed
  qed
  moreover have "read_digits 10 a k rest = (a, k, rest)" for a k
    using assms by (cases rest) auto
  ultimately show ?thesis by simp
qed

lemma length_show_nat_octet: "n < 1000 \<Longrightarrow> length (show_nat n) \<le> 3"
  by (simp add: show_nat.simps [of n] show_nat.simps [of "n div 10"] show_nat.simps [of "n div 10 div 10"])

lemma show_nat_leading_zero: "show_nat n = 48 # cs \<Longrightarrow> cs = []"
proof (induction n arbitrary: cs rule: show_nat.induct)
  case (1 n)
  show ?case
  proof (cases "n < 10")
    case True
    with "1.prems" show ?thesis by (simp add: show_nat.simps [of n])
  next
    case False
    obtain d ds where s: "show_nat (n div 10) = d # ds" by (cases "show_nat (n div 10)") auto
    with False "1.prems" have "d = 48" by (simp add: show_nat.simps [of n])
    with s False "1.IH" have "ds = []" by simp
    with s \<open>d = 48\<close> have "show_nat (n div 10) = show_nat 0" by (simp add: show_nat.simps [of 0])
    then have "n div 10 = 0" by (simp only: show_nat_inj)
    with False show ?thesis by simp
  qed
qed

lemma read_number_show:
  assumes "\<And>c cs. rest = c # cs \<Longrightarrow> to_digit 10 c = None"
    and "n \<le> bound" and "\<And>m. mx = Some m \<Longrightarrow> length (show_nat n) \<le> m"
  shows "read_number 10 mx z bound (show_nat n @ rest) = Some (n, rest)"
proof -
  obtain c cs where s: "show_nat n = c # cs" by (cases "show_nat n") auto
  then have "c = 48 \<Longrightarrow> length (show_nat n) = 1" using show_nat_leading_zero [of n cs] by simp
  moreover have rd: "read_digits 10 0 0 (c # cs @ rest) = (n, Suc (length cs), rest)"
    using read_digits_show [OF assms(1), where n = n] s by simp
  ultimately show ?thesis using assms(2,3) s
    by (auto simp: read_number_def Let_def simp del: read_digits.simps split: option.splits)
qed

lemma to_digit_dot_colon [simp]:
  "to_digit 10 (ch CHR ''.'') = None" "to_digit 10 (ch CHR '':'') = None"
  by (simp_all add: to_digit_def digit_val_def ch_def)

lemma read_given_char_same [simp]: "read_given_char c (c # s) = Some s"
  by (simp add: read_given_char_def)

lemma read_octet_show:
  assumes "\<And>c cs. rest = c # cs \<Longrightarrow> to_digit 10 c = None"
  shows "read_octet (show_nat (unat (b :: byte)) @ rest) = Some (unat b, rest)"
  unfolding read_octet_def
  by (rule read_number_show) (use assms unat_byte [of b] in \<open>auto intro: length_show_nat_octet\<close>)

lemma read_octet_dot [simp]:
  "read_octet (show_nat (unat (b :: byte)) @ ch CHR ''.'' # r) = Some (unat b, ch CHR ''.'' # r)"
  by (rule read_octet_show) auto

lemma read_ipv4_show:
  assumes "length ip = 4" "\<And>c cs. rest = c # cs \<Longrightarrow> to_digit 10 c = None"
  shows "read_ipv4_addr (show_ipv4 ip @ rest) = Some (ip, rest)"
proof -
  obtain a b c d where ip: "ip = [a, b, c, d]"
    using assms(1) by (auto simp: numeral_eq_Suc length_Suc_conv)
  show ?thesis
    by (simp add: ip show_ipv4_def read_ipv4_addr_def dot_octet_def read_octet_show assms(2))
qed

lemma parse_socket_addr_v4:
  assumes "length ip = 4"
  shows "parse_socket_addr (show_ipv4 ip @ [ch CHR '':''] @ show_nat (unat (p :: u16))) = Some (V4 ip p)"
proof -
  have p: "unat p \<le> 65535" using unsigned_less [of p, where ?'a = nat] by simp
  have "read_number 10 None True 65535 (show_nat (unat p) @ []) = Some (unat p, [])"
    by (rule read_number_show) (use p in auto)
  moreover have "read_ipv4_addr (show_ipv4 ip @ ch CHR '':'' # show_nat (unat p)) =
      Some (ip, ch CHR '':'' # show_nat (unat p))"
    by (rule read_ipv4_show) (use assms in auto)
  ultimately show ?thesis
    by (simp add: parse_socket_addr_def read_socket_addr_v4_def read_port_def)
qed

end
