(* ===== verification/Room_Code.thy ===== *)
theory Room_Code
  imports Transport_Kind Bit_Streams Socket_Addr
begin

text \<open>
  \<open>core/src/roomcode.rs\<close>: room codes in Crockford base32.  The 32-bit accumulator of
  the two loops is kept at its width (the bits shifted out at the top are lost, as in the
  code); the bit counter never exceeds 12 and is a natural number.
\<close>

section \<open>Base32\<close>

definition ALPHABET :: rstr where
  "ALPHABET = lit ''0123456789ABCDEFGHJKMNPQRSTVWXYZ''"

definition alphabet_at :: "u32 \<Rightarrow> rchar" where
  "alphabet_at v = ALPHABET ! unat v"

text \<open>The inner \<open>while bits >= 5\<close>: what it pushes and the bits it leaves.\<close>

fun emit_bits :: "u32 \<Rightarrow> nat \<Rightarrow> nat \<times> rstr" where
  "emit_bits acc bits =
     (if 5 \<le> bits then
        let c = alphabet_at (drop_bit (bits - 5) acc AND 0x1f);
            (left, out) = emit_bits acc (bits - 5)
        in (left, c # out)
      else (bits, []))"

declare emit_bits.simps [simp del]

fun b32_encode_loop :: "bytes \<Rightarrow> u32 \<Rightarrow> nat \<Rightarrow> rstr" where
  "b32_encode_loop [] acc bits =
     (if 0 < bits then [alphabet_at (push_bit (5 - bits) acc AND 0x1f)] else [])"
| "b32_encode_loop (b # data) acc bits =
     (let acc' = push_bit 8 acc OR ucast b;
          (bits', out) = emit_bits acc' (bits + 8)
      in out @ b32_encode_loop data acc' bits')"

definition b32_encode :: "bytes \<Rightarrow> rstr" where
  "b32_encode data = b32_encode_loop data 0 0"

fun position :: "'a \<Rightarrow> 'a list \<Rightarrow> nat option" where
  "position x [] = None"
| "position x (y # ys) = (if x = y then Some 0 else map_option Suc (position x ys))"

definition b32_value :: "rchar \<Rightarrow> u32 res" where
  "b32_value c0 =
     (let c1 = ascii_upper c0;
          c = (if c1 = ch CHR ''I'' \<or> c1 = ch CHR ''L'' then ch CHR ''1''
               else if c1 = ch CHR ''O'' then ch CHR ''0''
               else c1)
      in case position c ALPHABET of
           Some p \<Rightarrow> Inr (of_nat p)
         | None \<Rightarrow>
             Inl (RoomCode ([39, c, 39] @ lit '' is not a valid character in a room code'')))"

fun b32_decode_loop :: "rstr \<Rightarrow> u32 \<Rightarrow> nat \<Rightarrow> bytes res" where
  "b32_decode_loop [] acc bits = Inr []"
| "b32_decode_loop (c # cs) acc bits =
     (case b32_value c of
        Inl e \<Rightarrow> Inl e
      | Inr v \<Rightarrow>
          let acc' = push_bit 5 acc OR v; bits' = bits + 5 in
          if 8 \<le> bits'
          then (case b32_decode_loop cs acc' (bits' - 8) of
                  Inl e \<Rightarrow> Inl e
                | Inr out \<Rightarrow> Inr (ucast (drop_bit (bits' - 8) acc' AND 0xff) # out))
          else b32_decode_loop cs acc' bits')"

definition b32_decode :: "rstr \<Rightarrow> nat \<Rightarrow> bytes res" where
  "b32_decode s expected_bytes =
     res_bind (b32_decode_loop s 0 0) (\<lambda>out.
       if length out < expected_bytes
       then Inl (RoomCode (lit ''room code is too short''))
       else Inr (take expected_bytes out))"

section \<open>Codes\<close>

text \<open>\<open>fn split\<close>: strip the formatting, read the tag.\<close>

definition split_code :: "rstr \<Rightarrow> (transport_kind \<times> rstr) res" where
  "split_code code =
     (let cleaned = upper (filter is_ascii_alphanumeric code) in
      case cleaned of
        [] \<Rightarrow> Inl (RoomCode (lit ''the room code is empty''))
      | tag # payload \<Rightarrow>
          (case kind_from_tag tag of
             None \<Rightarrow> Inl (RoomCode ([39, tag, 39] @
               lit '' is not a known room-code prefix (expected L for LAN or B for Bluetooth)''))
           | Some kind \<Rightarrow> Inr (kind, payload)))"

fun chunks :: "nat \<Rightarrow> 'a list \<Rightarrow> 'a list list" where
  "chunks k xs = (if xs = [] \<or> k = 0 then [] else take k xs # chunks k (drop k xs))"

declare chunks.simps [simp del]

definition pretty :: "rchar \<Rightarrow> rstr \<Rightarrow> rstr" where
  "pretty tag payload = [tag] @ [ch CHR ''-''] @ join [ch CHR ''-''] (chunks 5 payload)"

definition encode :: "transport_kind \<Rightarrow> rstr \<Rightarrow> rstr res" where
  "encode kind dial =
     (case kind of
        Lan \<Rightarrow>
          (case parse_socket_addr dial of
             None \<Rightarrow> Inl (RoomCode ([39] @ dial @ [39] @ lit '' is not a valid address:port''))
           | Some V6 \<Rightarrow> Inl (RoomCode
               (lit ''LAN mode needs an IPv4 address; this machine reported only IPv6''))
           | Some (V4 octets port) \<Rightarrow>
               Inr (pretty (kind_tag Lan) (b32_encode (octets @ be_bytes 2 port))))
      | Bluetooth \<Rightarrow>
          res_bind (parse_dial dial) (\<lambda>(addr, channel).
            if channel = 0 \<or> 30 < channel
            then Inl (RoomCode (lit ''RFCOMM channel '' @ show_nat (unat channel) @
                   lit '' is outside the encodable range 1-30''))
            else Inr (pretty (kind_tag Bluetooth)
                   (b32_encode (drop 2 (be_bytes 8 addr) @ [ucast channel])))))"

definition decode :: "rstr \<Rightarrow> (transport_kind \<times> rstr) res" where
  "decode code =
     res_bind (split_code code) (\<lambda>(kind, payload).
       case kind of
         Lan \<Rightarrow>
           res_bind (b32_decode payload 6) (\<lambda>bytes.
             let ip = show_ipv4 (take 4 bytes);
                 port = of_be_bytes (take 2 (drop 4 bytes)) :: u16
             in if port = 0
                then Inl (RoomCode (lit ''room code contains an invalid port''))
                else Inr (kind, ip @ [ch CHR '':''] @ show_nat (unat port)))
       | Bluetooth \<Rightarrow>
           res_bind (b32_decode payload 7) (\<lambda>bytes.
             let addr = of_be_bytes (take 6 bytes) :: u64;
                 channel = ucast (bytes ! 6) :: u32
             in if channel = 0 \<or> 30 < channel
                then Inl (RoomCode (lit ''room code contains an invalid RFCOMM channel''))
                else Inr (kind, format_addr addr @ [ch CHR '':''] @ show_nat (unat channel))))"

section \<open>Base32 is a faithful encoding of bytes\<close>

definition quintet :: "u32 \<Rightarrow> bool" where
  "quintet v \<longleftrightarrow> unat v < 32"

abbreviation quintet_bits :: "u32 list \<Rightarrow> bool list" where
  "quintet_bits vs \<equiv> concat (map (bits_of 5) vs)"

abbreviation byte_bits :: "bytes \<Rightarrow> bool list" where
  "byte_bits bs \<equiv> concat (map (bits_of 8) bs)"

lemma alphabet_length: "length ALPHABET = 32"
  by (simp add: ALPHABET_def lit_def)

lemma b32_value_alphabet_table:
  "list_all (\<lambda>i. b32_value (ALPHABET ! i) = Inr (of_nat i)) [0..<32]"
  by code_simp

lemma b32_value_alphabet: "quintet v \<Longrightarrow> b32_value (alphabet_at v) = Inr v"
  using b32_value_alphabet_table by (simp add: list_all_iff quintet_def alphabet_at_def)

lemma alphabet_chars_table:
  "list_all (\<lambda>c. is_ascii_alphanumeric c \<and> ascii_upper c = c) ALPHABET"
  by code_simp

lemma alphabet_chars:
  "quintet v \<Longrightarrow> is_ascii_alphanumeric (alphabet_at v) \<and> ascii_upper (alphabet_at v) = alphabet_at v"
  using alphabet_chars_table
  by (simp add: list_all_length quintet_def alphabet_at_def alphabet_length)

lemma quintet_and_mask [simp]: "quintet (w AND 0x1f)"
proof -
  have "w AND 0x1f = take_bit 5 w" by (simp add: take_bit_eq_mask mask_eq_exp_minus_1)
  moreover have "unat (take_bit 5 w) < 2 ^ 5"
    unfolding unsigned_take_bit_eq by (rule take_bit_nat_less_exp)
  ultimately show ?thesis by (simp add: quintet_def)
qed

lemma bits_of_and_31: "bits_of 5 (w AND 0x1f) = bits_of 5 (w :: u32)"
  using bits_of_mask [of 5 5 w] by (simp add: mask_eq_exp_minus_1)

lemma quintet_high: "quintet v \<Longrightarrow> 5 \<le> i \<Longrightarrow> \<not> bit v i"
proof -
  assume v: "quintet v" and i: "5 \<le> i"
  have "take_bit 5 (unat v) = unat v"
    using v by (simp add: quintet_def take_bit_nat_eq_self_iff)
  then have "\<not> bit (unat v) i" using i by (metis bit_take_bit_iff not_less)
  then show "\<not> bit v i" by (simp add: bit_unsigned_iff)
qed

lemma emit_bits_spec:
  "emit_bits acc bits = (left, out) \<Longrightarrow>
   left < 5 \<and> (\<exists>vs. out = map alphabet_at vs \<and> list_all quintet vs \<and>
     bits_of bits acc = quintet_bits vs @ bits_of left acc)"
proof (induction acc bits arbitrary: left out rule: emit_bits.induct)
  case (1 acc bits)
  show ?case
  proof (cases "5 \<le> bits")
    case False
    with "1.prems" show ?thesis by (simp add: emit_bits.simps [of acc bits])
  next
    case True
    define v where "v = drop_bit (bits - 5) acc AND 0x1f"
    obtain out' where e: "emit_bits acc (bits - 5) = (left, out')" "out = alphabet_at v # out'"
      using "1.prems" True by (auto simp: emit_bits.simps [of acc bits] v_def split: prod.splits)
    from "1.IH" [OF True refl e(1)] obtain vs where vs: "left < 5" "out' = map alphabet_at vs"
      "list_all quintet vs" "bits_of (bits - 5) acc = quintet_bits vs @ bits_of left acc"
      by blast
    have "bits_of (5 + (bits - 5)) acc = bits_of 5 v @ bits_of (bits - 5) acc"
      by (simp only: bits_of_append v_def bits_of_and_31)
    with True vs have "bits_of bits acc = quintet_bits (v # vs) @ bits_of left acc" by simp
    moreover have "list_all quintet (v # vs)" using vs(3) by (simp add: v_def)
    moreover have "out = map alphabet_at (v # vs)" using e(2) vs(2) by simp
    ultimately show ?thesis using vs(1) by blast
  qed
qed

lemma encode_loop_spec:
  "bits < 5 \<Longrightarrow> \<exists>vs pad. b32_encode_loop data acc bits = map alphabet_at vs \<and>
     list_all quintet vs \<and> length pad < 5 \<and>
     quintet_bits vs = bits_of bits acc @ byte_bits data @ pad"
proof (induction data acc bits rule: b32_encode_loop.induct)
  case (1 acc bits)
  show ?case
  proof (cases "bits = 0")
    case True
    then show ?thesis by (intro exI [of _ "[]"]) simp
  next
    case False
    define v where "v = push_bit (5 - bits) acc AND 0x1f"
    have "bits_of (bits + (5 - bits)) (push_bit (5 - bits) acc OR 0) =
        bits_of bits acc @ bits_of (5 - bits) (0 :: u32)"
      by (rule bits_of_push_or) (use "1.prems" in simp_all)
    with "1.prems" have "bits_of 5 v = bits_of bits acc @ bits_of (5 - bits) (0 :: u32)"
      by (simp add: v_def bits_of_and_31)
    with False show ?thesis
      by (intro exI [of _ "[v]"] exI [of _ "bits_of (5 - bits) (0 :: u32)"]) (simp add: v_def)
  qed
next
  case (2 b data acc bits)
  let ?acc = "push_bit 8 acc OR ucast b :: u32"
  obtain left out where e: "emit_bits ?acc (bits + 8) = (left, out)" by fastforce
  from emit_bits_spec [OF e] obtain vs where vs: "left < 5" "out = map alphabet_at vs"
    "list_all quintet vs" "bits_of (bits + 8) ?acc = quintet_bits vs @ bits_of left ?acc"
    by blast
  from "2.IH" [OF refl e [symmetric] refl vs(1)] obtain us pad where us:
    "b32_encode_loop data ?acc left = map alphabet_at us" "list_all quintet us" "length pad < 5"
    "quintet_bits us = bits_of left ?acc @ byte_bits data @ pad"
    by blast
  have "bits_of (bits + 8) ?acc = bits_of bits acc @ bits_of 8 b"
    by (rule bits_of_push_byte) (use "2.prems" in simp)
  with vs us have "quintet_bits (vs @ us) = bits_of bits acc @ byte_bits (b # data) @ pad"
    by simp
  with e vs us show ?case
    by (intro exI [of _ "vs @ us"] exI [of _ pad]) (simp add: Let_def)
qed

lemma decode_loop_spec:
  "bits < 8 \<Longrightarrow> list_all quintet vs \<Longrightarrow>
   \<exists>out rest. b32_decode_loop (map alphabet_at vs) acc bits = Inr out \<and> length rest < 8 \<and>
     bits_of bits acc @ quintet_bits vs = byte_bits out @ rest"
proof (induction vs arbitrary: acc bits)
  case Nil
  then show ?case by (intro exI [of _ "[]"] exI [of _ "bits_of bits acc"]) simp
next
  case (Cons v vs)
  let ?acc = "push_bit 5 acc OR v"
  have q: "quintet v" "list_all quintet vs" using Cons.prems by simp_all
  have acc: "bits_of (bits + 5) ?acc = bits_of bits acc @ bits_of 5 v"
    by (rule bits_of_push_or) (use Cons.prems q quintet_high in auto)
  show ?case
  proof (cases "8 \<le> bits + 5")
    case False
    then obtain out rest where ih: "b32_decode_loop (map alphabet_at vs) ?acc (bits + 5) = Inr out"
      "length rest < 8" "bits_of (bits + 5) ?acc @ quintet_bits vs = byte_bits out @ rest"
      using Cons.IH [of "bits + 5" ?acc] q by auto
    with False q acc show ?thesis
      by (intro exI [of _ out] exI [of _ rest]) (simp add: b32_value_alphabet)
  next
    case True
    define k where "k = bits + 5 - 8"
    define b where "b = (ucast (drop_bit k ?acc AND 0xff) :: byte)"
    have k: "k < 8" "bits + 5 = 8 + k" using True Cons.prems by (simp_all add: k_def)
    obtain out rest where ih: "b32_decode_loop (map alphabet_at vs) ?acc k = Inr out"
      "length rest < 8" "bits_of k ?acc @ quintet_bits vs = byte_bits out @ rest"
      using Cons.IH [of k ?acc] k q by auto
    have "drop_bit k ?acc AND 0xff = drop_bit k ?acc AND mask 8" by (simp add: mask_eq_exp_minus_1)
    then have "bits_of 8 b = bits_of 8 (drop_bit k ?acc)"
      by (auto simp: bits_of_eq_iff b_def bits_of_def bit_simps)
    then have "bits_of (bits + 5) ?acc = bits_of 8 b @ bits_of k ?acc"
      by (simp only: k(2) bits_of_append)
    with acc ih have "bits_of bits acc @ quintet_bits (v # vs) = byte_bits (b # out) @ rest"
      by simp (metis append.assoc)
    moreover have "b32_decode_loop (map alphabet_at (v # vs)) acc bits = Inr (b # out)"
      using True ih(1) q(1) by (simp add: b32_value_alphabet b_def k_def Let_def)
    ultimately show ?thesis using ih(2) by blast
  qed
qed

lemma b32_encode_spec:
  "\<exists>vs pad. b32_encode data = map alphabet_at vs \<and> list_all quintet vs \<and> length pad < 5 \<and>
     quintet_bits vs = byte_bits data @ pad"
  using encode_loop_spec [of 0 data 0] by (simp add: b32_encode_def)

lemma b32_decode_encode: "b32_decode (b32_encode data) (length data) = Inr data"
proof -
  obtain vs pad where e: "b32_encode data = map alphabet_at vs" "list_all quintet vs"
    "length pad < 5" "quintet_bits vs = byte_bits data @ pad"
    using b32_encode_spec by blast
  obtain out rest where d: "b32_decode_loop (map alphabet_at vs) 0 0 = Inr out" "length rest < 8"
    "quintet_bits vs = byte_bits out @ rest"
    using decode_loop_spec [of 0 vs 0] e(2) by auto
  have eq: "byte_bits out @ rest = byte_bits data @ pad" using d(3) e(4) by simp
  then have "8 * length out + length rest = 8 * length data + length pad"
    by (metis length_append length_concat_bits)
  then have "length out = length data" using d(2) e(3) by linarith
  with eq have "out = data" using concat_bits_inj by blast
  with d(1) e(1) show ?thesis by (simp add: b32_decode_def)
qed

lemma length_b32_encode: "length (b32_encode data) = (8 * length data + 4) div 5"
proof -
  obtain vs pad where e: "b32_encode data = map alphabet_at vs"
    "length pad < 5" "quintet_bits vs = byte_bits data @ pad"
    using b32_encode_spec by blast
  then have "5 * length vs = 8 * length data + length pad"
    by (metis length_append length_concat_bits)
  with e(2) have "length vs = (8 * length data + 4) div 5" by linarith
  with e(1) show ?thesis by simp
qed

lemma b32_encode_chars:
  "c \<in> set (b32_encode data) \<Longrightarrow> is_ascii_alphanumeric c \<and> ascii_upper c = c"
  using b32_encode_spec [of data] alphabet_chars by (auto simp: list_all_iff)

section \<open>The payload interface\<close>

text \<open>
  What a room code needs of the encoding of its payload: bytes come back, and the
  characters survive the clean-up that \<open>split\<close> does.
\<close>

lemma concat_chunks: "0 < k \<Longrightarrow> concat (chunks k xs) = xs"
  by (induction k xs rule: chunks.induct) (simp add: chunks.simps)

lemma filter_join:
  "\<forall>x \<in> set sep. \<not> p x \<Longrightarrow> filter p (join sep gs) = filter p (concat gs)"
  by (induction sep gs rule: join.induct) (auto simp: filter_empty_conv)

lemma dash_not_alphanumeric: "\<not> is_ascii_alphanumeric (ch CHR ''-'')"
  by (simp add: ch_def char_defs)

lemma kind_tag_chars:
  "is_ascii_alphanumeric (kind_tag k) \<and> ascii_upper (kind_tag k) = kind_tag k"
  by (cases k) (simp_all add: kind_tag_def ch_def char_defs)

locale payload_code =
  fixes enc :: "bytes \<Rightarrow> rstr" and dec :: "rstr \<Rightarrow> nat \<Rightarrow> bytes res"
  assumes dec_enc: "dec (enc bs) (length bs) = Inr bs"
    and enc_chars: "c \<in> set (enc bs) \<Longrightarrow> is_ascii_alphanumeric c \<and> ascii_upper c = c"
begin

lemma enc_inj: "length as = length bs \<Longrightarrow> enc as = enc bs \<longleftrightarrow> as = bs"
  using dec_enc by (metis sum.inject(2))

lemma enc_clean: "filter is_ascii_alphanumeric (enc bs) = enc bs" "upper (enc bs) = enc bs"
  using enc_chars by (auto simp: upper_def filter_id_conv intro!: map_idI)

lemma clean_pretty:
  "upper (filter is_ascii_alphanumeric (pretty (kind_tag k) (enc bs))) = kind_tag k # enc bs"
proof -
  have "filter is_ascii_alphanumeric (pretty (kind_tag k) (enc bs)) = kind_tag k # enc bs"
    using kind_tag_chars [of k] dash_not_alphanumeric
    by (simp add: pretty_def filter_join concat_chunks enc_clean)
  then show ?thesis using kind_tag_chars [of k] enc_clean(2) by (simp add: upper_def)
qed

lemma split_pretty: "split_code (pretty (kind_tag k) (enc bs)) = Inr (k, enc bs)"
  by (simp add: split_code_def clean_pretty)

lemma pretty_inj:
  "length as = length bs \<Longrightarrow>
   pretty (kind_tag k) (enc as) = pretty (kind_tag k') (enc bs) \<Longrightarrow> k = k' \<and> as = bs"
  by (metis enc_inj prod.inject split_pretty sum.inject(2))

end

interpretation b32: payload_code b32_encode b32_decode
  by unfold_locales (use b32_decode_encode b32_encode_chars in auto)

section \<open>Properties of room codes\<close>

lemma decode_cong:
  "upper (filter is_ascii_alphanumeric c) = upper (filter is_ascii_alphanumeric c') \<Longrightarrow>
   decode c = decode c'"
  by (simp add: decode_def split_code_def)

lemma b32_decode_length: "b32_decode s n = Inr out \<Longrightarrow> length out = n"
  by (auto simp: b32_decode_def res_bind_Inr split: if_splits)

lemma lan_decode_pretty:
  fixes p :: u16
  assumes "length ip = 4" "p \<noteq> 0"
  shows "decode (pretty (kind_tag Lan) (b32_encode (ip @ be_bytes 2 p))) =
    Inr (Lan, show_ipv4 ip @ [ch CHR '':''] @ show_nat (unat p))"
proof -
  have "b32_decode (b32_encode (ip @ be_bytes 2 p)) 6 = Inr (ip @ be_bytes 2 p)"
    using b32.dec_enc [of "ip @ be_bytes 2 p"] assms(1) by simp
  moreover have "(of_be_bytes (be_bytes 2 p) :: u16) = p" by (rule of_be_bytes_be_bytes) simp
  ultimately show ?thesis using assms by (simp add: decode_def b32.split_pretty)
qed

lemma bt_decode_pretty:
  fixes chan :: u32
  assumes "0 < chan" "chan \<le> 30"
  shows "decode (pretty (kind_tag Bluetooth) (b32_encode (drop 2 (be_bytes 8 addr) @ [ucast chan]))) =
    Inr (Bluetooth, format_addr addr @ [ch CHR '':''] @ show_nat (unat chan))"
proof -
  let ?bs = "drop 2 (be_bytes 8 addr) @ [ucast chan :: byte]"
  have low: "drop 2 (be_bytes 8 addr) = be_bytes 6 addr"
    by (simp add: be_bytes_def numeral_eq_Suc)
  have "b32_decode (b32_encode ?bs) 7 = Inr ?bs" using b32.dec_enc [of ?bs] by simp
  moreover have "ucast (ucast chan :: byte) = chan"
  proof -
    have "unat chan < 2 ^ 8" using assms(2) by (simp add: word_le_nat_alt)
    then have "take_bit 8 (unat chan) = unat chan" by (simp add: take_bit_nat_eq_self_iff)
    then have "unat (ucast (ucast chan :: byte) :: u32) = unat chan"
      by (simp add: unsigned_ucast_eq unsigned_take_bit_eq)
    then show ?thesis by (rule unsigned_word_eqI)
  qed
  moreover have "(of_be_bytes (be_bytes 6 addr) :: u64) = addr AND mask 48"
    using of_be_bytes_low [of 6 addr] by (simp add: take_bit_eq_mask)
  moreover have "format_addr (addr AND mask 48) = format_addr addr"
    by (simp add: format_addr_def and.assoc)
  ultimately show ?thesis using assms
    by (simp add: decode_def b32.split_pretty low nth_append word_gt_0 not_less)
qed

lemma encode_lan:
  "length ip = 4 \<Longrightarrow> encode Lan (show_ipv4 ip @ [ch CHR '':''] @ show_nat (unat (p :: u16))) =
     Inr (pretty (kind_tag Lan) (b32_encode (ip @ be_bytes 2 p)))"
  by (simp only: encode_def transport_kind.case parse_socket_addr_v4 option.case socket_addr.case refl)

lemma encode_bt:
  "0 < chan \<Longrightarrow> chan \<le> 30 \<Longrightarrow>
   encode Bluetooth (format_addr addr @ [ch CHR '':''] @ show_nat (unat (chan :: u32))) =
     Inr (pretty (kind_tag Bluetooth)
       (b32_encode (drop 2 (be_bytes 8 (addr AND mask 48)) @ [ucast chan])))"
  unfolding encode_def transport_kind.case parse_dial_format [OF refl] res_bind_simps
  by (simp add: word_gt_0 not_less)

lemma format_addr_masked [simp]: "format_addr (addr AND mask 48) = format_addr addr"
  by (simp add: format_addr_def and.assoc)

text \<open>How a payload character is understood once it has been read out and typed in.\<close>

definition read_aloud :: "rchar \<Rightarrow> rchar" where
  "read_aloud c =
     (let u = ascii_upper c in
      if u = ch CHR ''I'' \<or> u = ch CHR ''L'' then ch CHR ''1''
      else if u = ch CHR ''O'' then ch CHR ''0'' else u)"

lemma b32_value_read_aloud:
  "b32_value c = (case position (read_aloud c) ALPHABET of
     Some p \<Rightarrow> Inr (of_nat p)
   | None \<Rightarrow> Inl (RoomCode ([39, read_aloud c, 39] @ lit '' is not a valid character in a room code'')))"
  by (simp only: b32_value_def read_aloud_def Let_def)

lemma b32_value_cong: "read_aloud c = read_aloud c' \<Longrightarrow> b32_value c = b32_value c'"
  by (simp only: b32_value_read_aloud)

lemma b32_decode_loop_cong:
  "map read_aloud s = map read_aloud s' \<Longrightarrow> b32_decode_loop s acc bits = b32_decode_loop s' acc bits"
proof (induction s acc bits arbitrary: s' rule: b32_decode_loop.induct)
  case (1 acc bits)
  then show ?case by simp
next
  case (2 c cs acc bits)
  then obtain c' cs' where s': "s' = c' # cs'" "read_aloud c = read_aloud c'"
    "map read_aloud cs = map read_aloud cs'" by auto
  have "b32_value c' = b32_value c" using b32_value_cong s'(2) by metis
  with 2 s' show ?case by (auto simp: Let_def split: sum.split)
qed

lemma decodedE:
  assumes "decode code = Inr (kind, dial)"
  obtains (lan) ip p where "kind = Lan" "length ip = 4" "(p :: u16) \<noteq> 0"
      "dial = show_ipv4 ip @ [ch CHR '':''] @ show_nat (unat p)"
    | (bt) addr chan where "kind = Bluetooth" "0 < chan" "(chan :: u32) \<le> 30"
      "dial = format_addr addr @ [ch CHR '':''] @ show_nat (unat chan)"
proof -
  obtain k payload where k: "split_code code = Inr (k, payload)"
    using assms by (auto simp: decode_def res_bind_Inr)
  then have "kind = k"
    using assms by (cases k) (auto simp: decode_def res_bind_Inr Let_def split: if_splits)
  with k have s: "split_code code = Inr (kind, payload)" by simp
  show thesis
  proof (cases kind)
    case Lan
    with s assms obtain bs where bs: "b32_decode payload 6 = Inr bs"
      "(of_be_bytes (take 2 (drop 4 bs)) :: u16) \<noteq> 0"
      "dial = show_ipv4 (take 4 bs) @ [ch CHR '':''] @
         show_nat (unat (of_be_bytes (take 2 (drop 4 bs)) :: u16))"
      by (auto simp: decode_def res_bind_Inr Let_def split: if_splits)
    moreover have "length (take 4 bs) = 4" using b32_decode_length [OF bs(1)] by simp
    ultimately show ?thesis using lan Lan by blast
  next
    case Bluetooth
    with s assms obtain bs where bs: "b32_decode payload 7 = Inr bs"
      "(ucast (bs ! 6) :: u32) \<noteq> 0" "\<not> 30 < (ucast (bs ! 6) :: u32)"
      "dial = format_addr (of_be_bytes (take 6 bs)) @ [ch CHR '':''] @
         show_nat (unat (ucast (bs ! 6) :: u32))"
      by (auto simp: decode_def res_bind_Inr Let_def split: if_splits)
    then show ?thesis using bt Bluetooth by (metis not_less word_gt_0)
  qed
qed

section \<open>The claims\<close>

text \<open>
  A LAN room code carries its address: for every IPv4 address and every port other
  than 0, \<open>encode\<close> succeeds on the dial string, and \<open>decode\<close> of the code gives the
  transport and exactly that dial string back.
\<close>

theorem lan_code_roundtrip:
  fixes ip :: bytes and p :: u16
  assumes "length ip = 4" "p \<noteq> 0"
  shows "\<exists>code. encode Lan (show_ipv4 ip @ [ch CHR '':''] @ show_nat (unat p)) = Inr code \<and>
    decode code = Inr (Lan, show_ipv4 ip @ [ch CHR '':''] @ show_nat (unat p))"
  using encode_lan [OF assms(1)] lan_decode_pretty [OF assms] by blast

theorem lan_code_roundtrip_witness:
  "\<exists>code. encode Lan (show_ipv4 [192, 168, 1, 24] @ [ch CHR '':''] @ show_nat (unat (47021 :: u16))) = Inr code \<and>
    decode code = Inr (Lan, show_ipv4 [192, 168, 1, 24] @ [ch CHR '':''] @ show_nat (unat (47021 :: u16)))"
  by (rule lan_code_roundtrip) simp_all

text \<open>
  C14. A Bluetooth room code carries its address: for every 48-bit radio address and every
  RFCOMM channel from 1 to 30, \<open>decode\<close> undoes \<open>encode\<close>.
\<close>

theorem bluetooth_code_roundtrip:
  fixes addr :: u64 and chan :: u32
  assumes "0 < chan" "chan \<le> 30"
  shows "\<exists>code. encode Bluetooth (format_addr addr @ [ch CHR '':''] @ show_nat (unat chan)) = Inr code \<and>
    decode code = Inr (Bluetooth, format_addr addr @ [ch CHR '':''] @ show_nat (unat chan))"
  using encode_bt [OF assms, of addr] bt_decode_pretty [OF assms, of "addr AND mask 48"] by auto

theorem bluetooth_code_roundtrip_witness:
  "\<exists>code. encode Bluetooth (format_addr 0xA4B1C2D3E4F5 @ [ch CHR '':''] @ show_nat (unat (25 :: u32))) = Inr code \<and>
    decode code = Inr (Bluetooth, format_addr 0xA4B1C2D3E4F5 @ [ch CHR '':''] @ show_nat (unat (25 :: u32)))"
  by (rule bluetooth_code_roundtrip) simp_all

text \<open>
  Whatever \<open>decode\<close> accepts is a usable address: the dial string it returns is one
  that \<open>encode\<close> accepts for the same transport, and the canonical code \<open>encode\<close>
  makes of it leads to the same place.
\<close>

theorem decoded_address_is_encodable:
  assumes "decode code = Inr (kind, dial)"
  shows "\<exists>code'. encode kind dial = Inr code' \<and> decode code' = Inr (kind, dial)"
  using assms
proof (cases rule: decodedE)
  case (lan ip p)
  then show ?thesis using encode_lan lan_decode_pretty by blast
next
  case (bt addr chan)
  then show ?thesis using encode_bt bt_decode_pretty [of chan "addr AND mask 48"] by simp
qed

theorem decoded_address_is_encodable_witness:
  "\<exists>code'. encode Lan (show_ipv4 [10, 0, 0, 7] @ [ch CHR '':''] @ show_nat (unat (5000 :: u16))) = Inr code' \<and>
     decode code' = Inr (Lan, show_ipv4 [10, 0, 0, 7] @ [ch CHR '':''] @ show_nat (unat (5000 :: u16)))"
proof (rule decoded_address_is_encodable)
  show "decode (pretty (kind_tag Lan) (b32_encode ([10, 0, 0, 7] @ be_bytes 2 (5000 :: u16)))) =
      Inr (Lan, show_ipv4 [10, 0, 0, 7] @ [ch CHR '':''] @ show_nat (unat (5000 :: u16)))"
    by (rule lan_decode_pretty) simp_all
qed

text \<open>
  C21. Reading a code out loud and typing it in does not change it: if two inputs agree on
  their first letter and, after dashes, spaces, other punctuation and case are ignored, on
  the way their remaining characters are understood (\<open>I\<close> and \<open>L\<close> as \<open>1\<close>, \<open>O\<close>
  as \<open>0\<close>), then \<open>decode\<close> gives the same result for both, errors included.
\<close>

theorem decode_ignores_formatting:
  assumes "upper (filter is_ascii_alphanumeric code) = tag # payload"
    and "upper (filter is_ascii_alphanumeric code') = tag # payload'"
    and "map read_aloud payload = map read_aloud payload'"
  shows "decode code = decode code'"
proof -
  have dec: "b32_decode payload n = b32_decode payload' n" for n
    using b32_decode_loop_cong [OF assms(3)] by (simp add: b32_decode_def)
  show ?thesis
  proof (cases "kind_from_tag tag")
    case None
    with assms(1,2) show ?thesis by (simp add: decode_def split_code_def)
  next
    case (Some kind)
    with assms(1,2) show ?thesis by (cases kind) (simp_all add: decode_def split_code_def dec)
  qed
qed

theorem decode_ignores_formatting_witness:
  "decode (lit ''L-18000-1RKH0'') = decode (lit ''  l 1 8oo0 irkho'')"
  by (rule decode_ignores_formatting [where tag = 76 and
        payload = "lit ''180001RKH0''" and payload' = "lit ''18OO0IRKHO''"])
    code_simp+

end
