(* ===== verification/Names.thy ===== *)
theory Names
  imports Room_Code
begin

text \<open>
  The functions that clean up what a remote peer or the operator typed:
  \<open>sanitize_name\<close> and \<open>normalize_code\<close> of \<open>core/src/mesh.rs\<close>,
  \<open>safe_file_name\<close> and \<open>human_size\<close> of \<open>core/src/files.rs\<close>.
\<close>

section \<open>Display names and codes\<close>

definition normalize_code :: "rstr \<Rightarrow> rstr" where
  "normalize_code code = upper (filter is_ascii_alphanumeric code)"

definition sanitize_name :: "rstr \<Rightarrow> rstr" where
  "sanitize_name name =
     (let cleaned = trim (take 32 (filter (\<lambda>c. \<not> is_control c) name)) in
      if cleaned = [] then lit ''Anonymous'' else cleaned)"

section \<open>File names\<close>

definition is_path_sep :: "rchar \<Rightarrow> bool" where
  "is_path_sep c \<longleftrightarrow> c = ch CHR ''/'' \<or> c = ch CHR 0x5C"

definition is_reserved :: "rchar \<Rightarrow> bool" where
  "is_reserved c \<longleftrightarrow> c \<in> set (lit '':*?<>|'') \<or> c = ch CHR 0x22"

definition safe_file_name :: "rstr \<Rightarrow> rstr" where
  "safe_file_name name =
     (let base = rsplit_first is_path_sep name;
          cleaned = take 120 (filter (\<lambda>c. \<not> is_control c \<and> \<not> is_reserved c) base);
          trimmed = trim_by (\<lambda>c. c = ch CHR ''.'') (trim cleaned)
      in if trimmed = [] then lit ''received.bin'' else trimmed)"

section \<open>Sizes\<close>

text \<open>
  \<open>human_size\<close> computes with a double.  The conversion of a 64-bit integer rounds to 53
  significant bits, ties to even; the divisions by 1024 are exact; printing with one
  decimal rounds the exact value, ties to even.  So the double is the natural number
  \<open>f64_of_u64\<close> divided by a power of 1024.
\<close>

fun bit_length :: "nat \<Rightarrow> nat" where
  "bit_length n = (if n = 0 then 0 else Suc (bit_length (n div 2)))"

declare bit_length.simps [simp del]

definition round_half_even :: "nat \<Rightarrow> nat \<Rightarrow> nat" where
  "round_half_even a b =
     (let q = a div b; r = a mod b in
      if 2 * r < b \<or> (2 * r = b \<and> even q) then q else Suc q)"

definition f64_of_u64 :: "nat \<Rightarrow> nat" where
  "f64_of_u64 n = (let e = bit_length n - 53 in round_half_even n (2 ^ e) * 2 ^ e)"

text \<open>\<open>while v >= 1024.0 && i < UNITS.len() - 1\<close>\<close>

function unit_loop :: "nat \<Rightarrow> nat \<Rightarrow> nat" where
  "unit_loop m i = (if 1024 ^ Suc i \<le> m \<and> i < 4 then unit_loop m (Suc i) else i)"
  by pat_completeness auto
termination
  by (relation "measure (\<lambda>(m, i). 4 - i)") auto

declare unit_loop.simps [simp del]

definition UNITS :: "rstr list" where
  "UNITS = [lit ''B'', lit ''KB'', lit ''MB'', lit ''GB'', lit ''TB'']"

definition size_tenths :: "nat \<Rightarrow> nat \<Rightarrow> nat" where
  "size_tenths m i = round_half_even (10 * m) (1024 ^ i)"

definition human_size :: "u64 \<Rightarrow> rstr" where
  "human_size bytes =
     (let m = f64_of_u64 (unat bytes); i = unit_loop m 0 in
      if i = 0 then show_nat (unat bytes) @ lit '' B''
      else let t = size_tenths m i in
        show_nat (t div 10) @ [ch CHR ''.''] @ show_nat (t mod 10) @ [ch CHR '' ''] @ UNITS ! i)"

section \<open>Facts\<close>

lemma normalize_code_decode: "normalize_code a = normalize_code b \<Longrightarrow> decode a = decode b"
  by (rule decode_cong) (simp add: normalize_code_def)

lemma trimmed_take_filter:
  assumes "s = trim (take n (filter p t))" "s \<noteq> []"
  shows "trim (take n (filter p s)) = s"
proof -
  have sub: "set s \<subseteq> set (take n (filter p t))" using trim_by_subset assms by (simp add: trim_def)
  have "\<forall>c \<in> set s. p c" using sub by (force dest: in_set_takeD)
  then have "filter p s = s" by (simp add: filter_id_conv)
  moreover have "length s \<le> n"
    using trim_by_length [of is_whitespace "take n (filter p t)"] assms by (simp add: trim_def)
  ultimately show ?thesis using assms by simp
qed

lemma anonymous_facts:
  "length (lit ''Anonymous'') \<le> 32 \<and> (\<forall>c \<in> set (lit ''Anonymous''). \<not> is_control c \<and> \<not> is_whitespace c)"
  by code_simp

lemma sanitize_name_cases:
  obtains (anon) "sanitize_name name = lit ''Anonymous''"
    | (clean) "sanitize_name name = trim (take 32 (filter (\<lambda>c. \<not> is_control c) name))"
      "sanitize_name name \<noteq> []"
  by (cases "trim (take 32 (filter (\<lambda>c. \<not> is_control c) name)) = []")
    (auto simp: sanitize_name_def Let_def)

lemma round_half_even_error:
  assumes "0 < b"
  shows "2 * \<bar>int (round_half_even a b * b) - int a\<bar> \<le> int b"
proof -
  define q r where "q = a div b" and "r = a mod b"
  have a: "a = q * b + r" "r < b" using assms by (simp_all add: q_def r_def)
  show ?thesis
  proof (cases "2 * r < b \<or> (2 * r = b \<and> even q)")
    case True
    then have "round_half_even a b = q" by (simp add: round_half_even_def q_def r_def)
    with True a show ?thesis by auto
  next
    case False
    then have "round_half_even a b = Suc q" by (auto simp: round_half_even_def q_def r_def)
    moreover have "b \<le> 2 * r" using False by auto
    ultimately show ?thesis using a by (simp add: algebra_simps)
  qed
qed

lemma bit_length_bound: "n < 2 ^ k \<Longrightarrow> bit_length n \<le> k"
proof (induction k arbitrary: n)
  case 0
  then show ?case by (simp add: bit_length.simps)
next
  case (Suc k)
  then have "bit_length (n div 2) \<le> k" by simp
  then show ?case by (simp add: bit_length.simps [of n])
qed

lemma f64_exact: "n < 2 ^ 53 \<Longrightarrow> f64_of_u64 n = n"
  using bit_length_bound [of n 53] by (simp add: f64_of_u64_def round_half_even_def)

lemma unit_loop_spec:
  assumes "i \<le> 4"
  shows "i \<le> unit_loop m i \<and> unit_loop m i \<le> 4 \<and>
    (unit_loop m i = i \<or> 1024 ^ unit_loop m i \<le> m) \<and>
    (unit_loop m i = 4 \<or> m < 1024 ^ Suc (unit_loop m i))"
  using assms
proof (induction m i rule: unit_loop.induct)
  case (1 m i)
  show ?case
  proof (cases "1024 ^ Suc i \<le> m \<and> i < 4")
    case True
    with "1.IH" have ih: "Suc i \<le> unit_loop m (Suc i)" "unit_loop m (Suc i) \<le> 4"
      "unit_loop m (Suc i) = Suc i \<or> 1024 ^ unit_loop m (Suc i) \<le> m"
      "unit_loop m (Suc i) = 4 \<or> m < 1024 ^ Suc (unit_loop m (Suc i))" by auto
    have "unit_loop m i = unit_loop m (Suc i)" using True by (subst unit_loop.simps) simp
    with ih True show ?thesis by auto
  next
    case False
    then have "unit_loop m i = i" by (subst unit_loop.simps) (simp only: if_False)
    with False "1.prems" show ?thesis by auto
  qed
qed

lemma safe_file_name_cases:
  obtains (default) "safe_file_name name = lit ''received.bin''"
    | (clean) cleaned where "safe_file_name name = trim_by (\<lambda>c. c = ch CHR ''.'') (trim cleaned)"
      "safe_file_name name \<noteq> []"
      "cleaned = take 120 (filter (\<lambda>c. \<not> is_control c \<and> \<not> is_reserved c) (rsplit_first is_path_sep name))"
  by (cases "trim_by (\<lambda>c. c = ch CHR ''.'') (trim (take 120
      (filter (\<lambda>c. \<not> is_control c \<and> \<not> is_reserved c) (rsplit_first is_path_sep name)))) = []")
    (auto simp: safe_file_name_def Let_def)

lemma sanitize_name_twice: "sanitize_name (sanitize_name name) = sanitize_name name"
proof (cases name rule: sanitize_name_cases)
  case anon
  have "sanitize_name (lit ''Anonymous'') = lit ''Anonymous''" by code_simp
  then show ?thesis using anon by (simp add: lit_def)
next
  case clean
  then show ?thesis using trimmed_take_filter [OF clean] by (simp add: sanitize_name_def)
qed

section \<open>The claims\<close>

text \<open>
  A display name received from a peer is short, single-line and printable: the
  sanitised name is never empty, has at most 32 characters, no control character and no
  white space at either end; sanitising it again changes nothing.
\<close>

theorem sanitized_name_is_printable:
  "sanitize_name name \<noteq> [] \<and> length (sanitize_name name) \<le> 32 \<and>
   list_all (\<lambda>c. \<not> is_control c) (sanitize_name name) \<and>
   \<not> is_whitespace (hd (sanitize_name name)) \<and> \<not> is_whitespace (last (sanitize_name name)) \<and>
   sanitize_name (sanitize_name name) = sanitize_name name"
proof (cases name rule: sanitize_name_cases)
  case anon
  have "list_all (\<lambda>c. \<not> is_control c) (lit ''Anonymous'') \<and>
    \<not> is_whitespace (hd (lit ''Anonymous'')) \<and> \<not> is_whitespace (last (lit ''Anonymous''))"
    by code_simp
  then show ?thesis using anon anonymous_facts sanitize_name_twice [of name] by (simp add: lit_def)
next
  case clean
  let ?s = "sanitize_name name" and ?f = "take 32 (filter (\<lambda>c. \<not> is_control c) name)"
  have "set ?s \<subseteq> set ?f" using trim_by_subset clean(1) by (simp add: trim_def)
  then have "list_all (\<lambda>c. \<not> is_control c) ?s"
    by (force simp: list_all_iff dest: in_set_takeD)
  moreover have "length ?s \<le> 32"
    using trim_by_length [of is_whitespace ?f] clean(1) by (simp add: trim_def)
  moreover have "\<not> is_whitespace (hd ?s)" "\<not> is_whitespace (last ?s)"
    using trim_by_hd trim_by_last clean by (metis trim_def)+
  ultimately show ?thesis using clean(2) sanitize_name_twice by blast
qed

text \<open>
  C24. A file name received from a peer cannot leave the folder the user chose: the safe
  name is never empty, has no path separator, no control and no reserved character, at
  most 120 characters, and neither starts nor ends with a dot (so it is not \<open>.\<close>
  or \<open>..\<close>).
\<close>

theorem safe_file_name_stays_in_folder:
  "safe_file_name name \<noteq> [] \<and> length (safe_file_name name) \<le> 120 \<and>
   list_all (\<lambda>c. \<not> is_path_sep c \<and> \<not> is_control c \<and> \<not> is_reserved c) (safe_file_name name) \<and>
   hd (safe_file_name name) \<noteq> ch CHR ''.'' \<and> last (safe_file_name name) \<noteq> ch CHR ''.''"
proof (cases name rule: safe_file_name_cases)
  case default
  have "lit ''received.bin'' \<noteq> [] \<and> length (lit ''received.bin'') \<le> 120 \<and>
    list_all (\<lambda>c. \<not> is_path_sep c \<and> \<not> is_control c \<and> \<not> is_reserved c) (lit ''received.bin'') \<and>
    hd (lit ''received.bin'') \<noteq> ch CHR ''.'' \<and> last (lit ''received.bin'') \<noteq> ch CHR ''.''"
    by code_simp
  with default show ?thesis by simp
next
  case (clean cleaned)
  let ?s = "safe_file_name name"
  have sub: "set ?s \<subseteq> set cleaned"
    using clean(1) trim_by_subset unfolding trim_def by (metis subset_trans)
  have "list_all (\<lambda>c. \<not> is_path_sep c \<and> \<not> is_control c \<and> \<not> is_reserved c) ?s"
    using sub unfolding clean(3) by (force simp: list_all_iff dest: in_set_takeD rsplit_first_free)
  moreover have "length ?s \<le> length cleaned"
    using clean(1) trim_by_length unfolding trim_def by (metis le_trans)
  moreover have "hd ?s \<noteq> ch CHR ''.''" "last ?s \<noteq> ch CHR ''.''"
    using trim_by_hd [of "\<lambda>c. c = ch CHR ''.''"] trim_by_last [of "\<lambda>c. c = ch CHR ''.''"] clean(1,2)
    by metis+
  ultimately show ?thesis using clean(2,3) by auto
qed

text \<open>
  The file names of the unit test; and one the sanitiser leaves blank: only the outer dots
  are stripped after the white space, so what is left may be white space alone.
\<close>

lemma safe_file_name_examples:
  "safe_file_name (lit ''/etc/passwd'') = lit ''passwd''"
  "safe_file_name (lit ''   '') = lit ''received.bin''"
  by code_simp+

lemma safe_file_name_may_be_blank: "safe_file_name (lit ''. .'') = lit '' ''"
  by code_simp

text \<open>
  The size shown for a file is right: below 1024 bytes it is the exact number, and up
  to 2 to the 53 bytes the tenths it prints differ from the size by at most half a tenth
  of the unit it prints, which is the largest of KB, MB, GB and TB not above the size.
\<close>

theorem human_size_is_accurate:
  assumes "unat bytes < 2 ^ 53"
  shows "(unat bytes < 1024 \<and> human_size bytes = show_nat (unat bytes) @ lit '' B'') \<or>
    (\<exists>i t. 0 < i \<and> i \<le> 4 \<and> 1024 ^ i \<le> unat bytes \<and> (i = 4 \<or> unat bytes < 1024 ^ Suc i) \<and>
       human_size bytes =
         show_nat (t div 10) @ [ch CHR ''.''] @ show_nat (t mod 10) @ [ch CHR '' ''] @ UNITS ! i \<and>
       2 * \<bar>int (t * 1024 ^ i) - int (10 * unat bytes)\<bar> \<le> int (1024 ^ i))"
proof -
  let ?n = "unat bytes"
  define i where "i = unit_loop ?n 0"
  have spec: "i \<le> 4" "i = 0 \<or> 1024 ^ i \<le> ?n" "i = 4 \<or> ?n < 1024 ^ Suc i"
    using unit_loop_spec [of 0 ?n] by (auto simp: i_def)
  have f64: "f64_of_u64 ?n = ?n" by (rule f64_exact [OF assms])
  show ?thesis
  proof (cases "i = 0")
    case True
    with spec have "?n < 1024" by simp
    moreover have "human_size bytes = show_nat ?n @ lit '' B''"
      using True by (simp add: human_size_def f64 i_def Let_def)
    ultimately show ?thesis by blast
  next
    case False
    let ?t = "size_tenths ?n i"
    have "human_size bytes =
        show_nat (?t div 10) @ [ch CHR ''.''] @ show_nat (?t mod 10) @ [ch CHR '' ''] @ UNITS ! i"
      using False by (simp add: human_size_def f64 i_def Let_def)
    moreover have "2 * \<bar>int (?t * 1024 ^ i) - int (10 * ?n)\<bar> \<le> int (1024 ^ i)"
      unfolding size_tenths_def by (rule round_half_even_error) simp
    ultimately show ?thesis using False spec by blast
  qed
qed

theorem human_size_is_accurate_witness:
  "(unat (2048 :: u64) < 1024 \<and> human_size 2048 = show_nat (unat (2048 :: u64)) @ lit '' B'') \<or>
    (\<exists>i t. 0 < i \<and> i \<le> 4 \<and> 1024 ^ i \<le> unat (2048 :: u64) \<and> (i = 4 \<or> unat (2048 :: u64) < 1024 ^ Suc i) \<and>
       human_size 2048 =
         show_nat (t div 10) @ [ch CHR ''.''] @ show_nat (t mod 10) @ [ch CHR '' ''] @ UNITS ! i \<and>
       2 * \<bar>int (t * 1024 ^ i) - int (10 * unat (2048 :: u64))\<bar> \<le> int (1024 ^ i))"
  by (rule human_size_is_accurate) simp

end
