(* ===== verification/Disk.thy ===== *)
theory Disk
  imports Errors
begin

text \<open>
  The part of \<open>std::fs\<close> the code uses: \<open>File::create\<close> truncates or makes a file and
  returns a handle with a position of its own; \<open>write_all\<close> writes at that position.  Both
  can fail: creation at the will of the system, writing when the file would grow beyond
  the room there is, in which case the part that fits has been written.
\<close>

type_synonym path = rstr

record disk =
  dk_files :: "(path, bytes) hmap"
  dk_create :: "path \<Rightarrow> io_error option"
  dk_room :: "path \<Rightarrow> (nat \<times> io_error) option"

record file_handle =
  fh_path :: path
  fh_pos :: nat

definition file_content :: "disk \<Rightarrow> path \<Rightarrow> bytes" where
  "file_content d p = (case hm_get (dk_files d) p of None \<Rightarrow> [] | Some bs \<Rightarrow> bs)"

definition file_create :: "path \<Rightarrow> disk \<Rightarrow> (io_error + file_handle) \<times> disk" where
  "file_create p d =
     (case dk_create d p of
        Some e \<Rightarrow> (Inl e, d)
      | None \<Rightarrow> (Inr \<lparr>fh_path = p, fh_pos = 0\<rparr>, d\<lparr>dk_files := hm_insert p [] (dk_files d)\<rparr>))"

text \<open>Writing in the middle of a file overwrites; writing past its end leaves zeros.\<close>

definition write_at :: "nat \<Rightarrow> bytes \<Rightarrow> bytes \<Rightarrow> bytes" where
  "write_at pos bs c = take pos c @ replicate (pos - length c) 0 @ bs @ drop (pos + length bs) c"

definition file_put :: "file_handle \<Rightarrow> bytes \<Rightarrow> disk \<Rightarrow> file_handle \<times> disk" where
  "file_put h bs d =
     (h\<lparr>fh_pos := fh_pos h + length bs\<rparr>,
      d\<lparr>dk_files :=
          hm_insert (fh_path h) (write_at (fh_pos h) bs (file_content d (fh_path h))) (dk_files d)\<rparr>)"

definition file_write_all ::
  "file_handle \<Rightarrow> bytes \<Rightarrow> disk \<Rightarrow> io_error option \<times> file_handle \<times> disk" where
  "file_write_all h bs d =
     (case dk_room d (fh_path h) of
        None \<Rightarrow> (None, file_put h bs d)
      | Some (n, e) \<Rightarrow>
          (if fh_pos h + length bs \<le> n then (None, file_put h bs d)
           else (Some e, file_put h (take (n - fh_pos h) bs) d)))"

lemma write_at_end [simp]: "pos = length c \<Longrightarrow> write_at pos bs c = c @ bs"
  by (simp add: write_at_def)

lemma file_put_path [simp]: "fh_path (fst (file_put h bs d)) = fh_path h"
  by (simp add: file_put_def)

lemma file_put_other:
  "q \<noteq> fh_path h \<Longrightarrow> file_content (snd (file_put h bs d)) q = file_content d q"
  by (simp add: file_put_def file_content_def hm_simps)

lemma file_put_same:
  "file_content (snd (file_put h bs d)) (fh_path h) =
     write_at (fh_pos h) bs (file_content d (fh_path h))"
  by (simp add: file_put_def file_content_def hm_simps)

lemma file_create_ok:
  "file_create p d = (Inr h, d') \<Longrightarrow>
     h = \<lparr>fh_path = p, fh_pos = 0\<rparr> \<and>
     file_content d' = (\<lambda>q. if q = p then [] else file_content d q) \<and>
     dk_create d' = dk_create d \<and> dk_room d' = dk_room d"
  by (auto simp: file_create_def file_content_def hm_simps fun_eq_iff split: option.splits)

lemma file_create_err: "file_create p d = (Inl e, d') \<Longrightarrow> d' = d"
  by (auto simp: file_create_def split: option.splits)

lemma file_write_ok: "file_write_all h bs d = (None, w) \<Longrightarrow> w = file_put h bs d"
  by (auto simp: file_write_all_def split: option.splits if_splits)

text \<open>Whatever the outcome, a write changes its own file only.\<close>

lemma file_write_some: "\<exists>bs'. snd (file_write_all h bs d) = file_put h bs' d"
  by (auto simp: file_write_all_def split: option.splits)

lemma file_write_other:
  "file_write_all h bs d = (r, h', d') \<Longrightarrow> q \<noteq> fh_path h \<Longrightarrow>
     file_content d' q = file_content d q"
  using file_write_some [of h bs d] file_put_other [of q h _ d] by (metis snd_conv)

text \<open>A write at the end of a file appends to it.\<close>

lemma file_write_append:
  "file_write_all h bs d = (None, h', d') \<Longrightarrow>
     fh_pos h = length (file_content d (fh_path h)) \<Longrightarrow>
     h' = h\<lparr>fh_pos := fh_pos h + length bs\<rparr> \<and>
     file_content d' (fh_path h) = file_content d (fh_path h) @ bs"
  using file_put_same [of h bs d] by (auto dest!: file_write_ok simp: file_put_def)

end
