(* ===== verification/Wire_Protocol.thy ===== *)
theory Wire_Protocol
  imports Errors Bit_Streams
begin

text \<open>
  \<open>core/src/protocol.rs\<close>: the messages, their frames and the transfer identifiers.
  The JSON form of a control message is made by the external crate \<open>serde_json\<close>; it is
  the pair of parameters \<open>to_json\<close>, \<open>from_json\<close>, of which the roundtrip theorem
  assumes that parsing undoes printing.
\<close>

definition KIND_CONTROL :: byte where
  "KIND_CONTROL = 0x01"

definition KIND_CHUNK :: byte where
  "KIND_CHUNK = 0x02"

definition CHUNK_SIZE :: nat where
  "CHUNK_SIZE = 32 * 1024"

type_synonym peer_id = rstr
type_synonym i64 = "64 word"

record peer_info =
  pi_id :: peer_id
  pi_name :: rstr
  pi_addr :: rstr
  pi_fingerprint :: rstr

datatype control =
    Hello u32 rstr peer_info
  | MeshHello u32 rstr peer_info
  | Welcome rstr peer_info "peer_info list"
  | MeshAck peer_info
  | Rejected rstr
  | PeerJoined peer_info
  | PeerLeft peer_id rstr
  | Chat rstr peer_id rstr i64 rstr
  | FileOffer rstr rstr u64 rstr
  | FileAccept rstr
  | FileDecline rstr rstr
  | FileDone rstr
  | FileAbort rstr rstr
  | Bye

datatype frame = Control control | Chunk bytes u32 bytes

type_synonym to_json = "control \<Rightarrow> rstr + bytes"
type_synonym from_json = "bytes \<Rightarrow> rstr + control"

section \<open>Frames\<close>

definition encode_control :: "to_json \<Rightarrow> control \<Rightarrow> bytes res" where
  "encode_control to_json c =
     res_bind (from_json_error (to_json c)) (\<lambda>json. Inr (KIND_CONTROL # json))"

definition encode_chunk :: "bytes \<Rightarrow> u32 \<Rightarrow> bytes \<Rightarrow> bytes" where
  "encode_chunk tid seq data = [KIND_CHUNK] @ tid @ be_bytes 4 seq @ data"

definition decode_frame :: "from_json \<Rightarrow> bytes \<Rightarrow> frame res" where
  "decode_frame from_json buf =
     (case buf of
        [] \<Rightarrow> Inl (Protocol (lit ''empty frame''))
      | kind # body \<Rightarrow>
          if kind = KIND_CONTROL
          then res_bind (from_json_error (from_json body)) (\<lambda>c. Inr (Control c))
          else if kind = KIND_CHUNK
          then (if length buf < 21 then Inl (Protocol (lit ''truncated file chunk''))
                else Inr (Chunk (take 16 (drop 1 buf))
                            (of_be_bytes (take 4 (drop 17 buf))) (drop 21 buf)))
          else Inl (Protocol (lit ''unknown frame kind '' @ show_nat (unat kind))))"

section \<open>Identifiers\<close>

definition hex :: "bytes \<Rightarrow> rstr" where
  "hex bs = concat (map byte_hex_lower bs)"

fun unhex_loop :: "rstr \<Rightarrow> nat list \<Rightarrow> bytes res run" where
  "unhex_loop s [] = Ret (Inr [])"
| "unhex_loop s (i # ixs) =
     (case str_slice s (i * 2) (i * 2 + 2) of
        Panic \<Rightarrow> Panic
      | Ret digits \<Rightarrow>
          (case parse_unsigned 16 255 digits of
             None \<Rightarrow> Ret (Inl (Protocol (lit ''bad transfer id'')))
           | Some n \<Rightarrow>
               (case unhex_loop s ixs of
                  Panic \<Rightarrow> Panic
                | Ret (Inl e) \<Rightarrow> Ret (Inl e)
                | Ret (Inr out) \<Rightarrow> Ret (Inr (of_nat n # out)))))"

definition unhex16 :: "rstr \<Rightarrow> bytes res run" where
  "unhex16 s =
     (if byte_len s \<noteq> 32 then Ret (Inl (Protocol (lit ''bad transfer id'')))
      else unhex_loop s [0..<16])"

text \<open>\<open>new_id\<close>: the eight random bytes are an argument.\<close>

definition new_id :: "bytes \<Rightarrow> rstr" where
  "new_id random = hex random"

section \<open>Facts\<close>

lemma length_hex [simp]: "length (hex bs) = 2 * length bs"
  by (induction bs) (auto simp: hex_def)

lemma hex_ascii: "c \<in> set (hex bs) \<Longrightarrow> c < 128"
  using byte_hex_lower_chars by (auto simp: hex_def)

lemma byte_len_hex [simp]: "byte_len (hex bs) = 2 * length bs"
  by (subst byte_len_ascii) (auto dest: hex_ascii)

lemma hex_digits_at: "i < length bs \<Longrightarrow> take 2 (drop (i * 2) (hex bs)) = byte_hex_lower (bs ! i)"
proof (induction bs arbitrary: i)
  case Nil
  then show ?case by simp
next
  case (Cons b bs)
  show ?case
  proof (cases i)
    case 0
    then show ?thesis by (simp add: hex_def)
  next
    case (Suc j)
    with Cons show ?thesis by (simp add: hex_def)
  qed
qed

lemma unhex_loop_hex:
  "\<forall>i \<in> set ixs. i < length bs \<Longrightarrow> unhex_loop (hex bs) ixs = Ret (Inr (map (\<lambda>i. bs ! i) ixs))"
proof (induction ixs)
  case Nil
  then show ?case by simp
next
  case (Cons i ixs)
  then have i: "i < length bs" by simp
  have "str_slice (hex bs) (i * 2) (i * 2 + 2) = Ret (take 2 (drop (i * 2) (hex bs)))"
    by (subst str_slice_ascii) (use i hex_ascii in auto)
  with Cons show ?case by (simp add: hex_digits_at parse_byte_hex_lower)
qed

lemma unhex16_hex: "length tid = 16 \<Longrightarrow> unhex16 (hex tid) = Ret (Inr tid)"
  using unhex_loop_hex [of "[0..<16]" tid] map_nth [of tid] by (simp add: unhex16_def)

lemma hex_inj: "hex a = hex b \<Longrightarrow> a = b"
proof -
  assume eq: "hex a = hex b"
  then have "length a = length b" by (metis length_hex nat_mult_eq_cancel_disj zero_neq_numeral)
  moreover have "unhex_loop (hex a) [0..<length a] = Ret (Inr a)"
    using unhex_loop_hex [of "[0..<length a]" a] by (simp add: map_nth)
  moreover have "unhex_loop (hex b) [0..<length b] = Ret (Inr b)"
    using unhex_loop_hex [of "[0..<length b]" b] by (simp add: map_nth)
  ultimately show "a = b" using eq by (metis run.inject sum.inject(2))
qed

lemma unhex_loop_length: "unhex_loop s ixs = Ret (Inr out) \<Longrightarrow> length out = length ixs"
  by (induction ixs arbitrary: out) (auto split: run.splits option.splits sum.splits)

lemma unhex16_length: "unhex16 s = Ret (Inr tid) \<Longrightarrow> length tid = 16"
  by (auto simp: unhex16_def dest: unhex_loop_length split: if_splits)

lemma unhex_loop_ascii: "\<forall>c \<in> set s. c < 128 \<Longrightarrow> \<forall>i \<in> set ixs. i * 2 + 2 \<le> length s \<Longrightarrow>
  unhex_loop s ixs \<noteq> Panic"
  by (induction ixs) (auto simp: str_slice_ascii split: run.splits option.splits sum.splits)

lemma unhex16_ascii_no_panic: "\<forall>c \<in> set s. c < 128 \<Longrightarrow> unhex16 s \<noteq> Panic"
  using unhex_loop_ascii [of s "[0..<16]"] by (auto simp: unhex16_def byte_len_ascii)

lemma decode_frame_chunk:
  assumes "length tid = 16"
  shows "decode_frame fj (encode_chunk tid seq data) = Inr (Chunk tid seq data)"
proof -
  have "of_be_bytes (be_bytes 4 seq) = seq" by (rule of_be_bytes_be_bytes) simp
  then show ?thesis using assms
    by (simp add: decode_frame_def encode_chunk_def KIND_CONTROL_def KIND_CHUNK_def)
qed

lemma decode_frame_control:
  "to_json c = Inr json \<Longrightarrow> from_json json = Inr c \<Longrightarrow>
   encode_control to_json c = Inr (KIND_CONTROL # json) \<and>
   decode_frame from_json (KIND_CONTROL # json) = Inr (Control c)"
  by (simp add: encode_control_def decode_frame_def)

section \<open>The claims\<close>

text \<open>
  File chunks survive the wire: decoding an encoded chunk gives back the transfer
  identifier, the sequence number and the data, whatever they are; and the frame of a
  chunk of at most \<open>CHUNK_SIZE\<close> bytes is within the 65519 bytes one Noise message
  can carry.
\<close>

theorem chunk_frame_roundtrip:
  assumes "length tid = 16" "length data \<le> CHUNK_SIZE"
  shows "decode_frame from_json (encode_chunk tid seq data) = Inr (Chunk tid seq data) \<and>
    length (encode_chunk tid seq data) \<le> 65519"
  using assms decode_frame_chunk [OF assms(1)] by (auto simp: encode_chunk_def CHUNK_SIZE_def)

theorem chunk_frame_roundtrip_witness:
  "decode_frame (\<lambda>_. Inl []) (encode_chunk (replicate 16 7) 9 [1, 2, 3]) =
     Inr (Chunk (replicate 16 7) 9 [1, 2, 3]) \<and>
   length (encode_chunk (replicate 16 7) 9 [1, 2, 3]) \<le> 65519"
  by (rule chunk_frame_roundtrip) (simp_all add: CHUNK_SIZE_def)

text \<open>
  Transfer identifiers survive their textual form, and parsing one is safe on every
  ASCII string: \<open>unhex16\<close> undoes \<open>hex\<close> on 16 bytes, and on ASCII input it returns
  (an identifier of 16 bytes or an error) and never panics.
\<close>

theorem transfer_id_roundtrip:
  assumes "length tid = 16" "list_all (\<lambda>c. c < 128) s"
  shows "unhex16 (hex tid) = Ret (Inr tid) \<and>
    ((\<exists>e. unhex16 s = Ret (Inl e)) \<or> (\<exists>out. unhex16 s = Ret (Inr out) \<and> length out = 16))"
proof -
  have "unhex16 s \<noteq> Panic" using unhex16_ascii_no_panic assms(2) by (simp add: list_all_iff)
  then obtain r where "unhex16 s = Ret r" by (cases "unhex16 s") auto
  then show ?thesis using assms(1) by (cases r) (auto simp: unhex16_hex dest: unhex16_length)
qed

theorem transfer_id_roundtrip_witness:
  "unhex16 (hex (replicate 16 0xAB)) = Ret (Inr (replicate 16 0xAB)) \<and>
    ((\<exists>e. unhex16 (lit ''not an id'') = Ret (Inl e)) \<or>
     (\<exists>out. unhex16 (lit ''not an id'') = Ret (Inr out) \<and> length out = 16))"
  by (rule transfer_id_roundtrip) (simp, code_simp)



text \<open>
  Control messages survive the wire, whenever the JSON parser undoes the JSON
  printer on them; and a decoded frame is a control message only when its first byte says so, so a
  file chunk is never taken for a control message.
\<close>

theorem control_frame_roundtrip:
  assumes "to_json c = Inr json" "from_json json = Inr c" "length tid = 16"
  shows "(\<exists>buf. encode_control to_json c = Inr buf \<and> decode_frame from_json buf = Inr (Control c)) \<and>
    decode_frame from_json (encode_chunk tid seq data) \<noteq> Inr (Control c')"
  using decode_frame_control [of to_json c json from_json] assms decode_frame_chunk [OF assms(3)]
  by auto

theorem control_frame_roundtrip_witness:
  "(\<exists>buf. encode_control (\<lambda>_. Inr [0x22, 0x22]) Bye = Inr buf \<and>
      decode_frame (\<lambda>_. Inr Bye) buf = Inr (Control Bye)) \<and>
   decode_frame (\<lambda>_. Inr Bye) (encode_chunk (replicate 16 0) 0 []) \<noteq> Inr (Control Bye)"
  by (rule control_frame_roundtrip) simp_all

end
