(* ===== verification/History.thy ===== *)
theory History
  imports Disk Wire_Protocol
begin

text \<open>
  \<open>core/src/history.rs\<close>: the records of the session transcript, its plain-text form and
  its export.  The local-time formatting of a time stamp (\<open>fmt_full\<close>, external crate
  \<open>chrono\<close>) and the JSON form of the export are parameters; the extension of the chosen
  path, as \<open>Path::extension\<close> gives it, is an argument.
\<close>

datatype record_kind = MessageRec | SystemRec | FileRec

record chat_record =
  cr_ts :: i64
  cr_sender :: rstr
  cr_sender_id :: rstr
  cr_body :: rstr
  cr_kind :: record_kind

definition record_message :: "rstr \<Rightarrow> rstr \<Rightarrow> i64 \<Rightarrow> rstr \<Rightarrow> chat_record" where
  "record_message sender sender_id ts body =
     \<lparr>cr_ts = ts, cr_sender = sender, cr_sender_id = sender_id, cr_body = body,
      cr_kind = MessageRec\<rparr>"

definition record_system :: "i64 \<Rightarrow> rstr \<Rightarrow> chat_record" where
  "record_system ts body =
     \<lparr>cr_ts = ts, cr_sender = lit ''system'', cr_sender_id = [], cr_body = body,
      cr_kind = SystemRec\<rparr>"

definition record_file :: "rstr \<Rightarrow> rstr \<Rightarrow> i64 \<Rightarrow> rstr \<Rightarrow> chat_record" where
  "record_file sender sender_id ts body =
     \<lparr>cr_ts = ts, cr_sender = sender, cr_sender_id = sender_id, cr_body = body,
      cr_kind = FileRec\<rparr>"

type_synonym fmt = "i64 \<Rightarrow> rstr"

abbreviation newline :: rstr where
  "newline \<equiv> [10]"

definition render_record :: "fmt \<Rightarrow> chat_record \<Rightarrow> rstr" where
  "render_record fmt_full r =
     (case cr_kind r of
        MessageRec \<Rightarrow>
          lit ''['' @ fmt_full (cr_ts r) @ lit ''] '' @ cr_sender r @ lit '': '' @ cr_body r @ newline
      | SystemRec \<Rightarrow> lit ''['' @ fmt_full (cr_ts r) @ lit ''] * '' @ cr_body r @ newline
      | FileRec \<Rightarrow>
          lit ''['' @ fmt_full (cr_ts r) @ lit ''] * '' @ cr_sender r @ lit '' (file) '' @
          cr_body r @ newline)"

definition render_header :: "fmt \<Rightarrow> i64 \<Rightarrow> rstr \<Rightarrow> rstr \<Rightarrow> rstr" where
  "render_header fmt_full now room transport =
     lit ''Mesh Chat - session transcript'' @ newline @
     lit ''Room code : '' @ room @ newline @
     lit ''Transport : '' @ transport @ newline @
     lit ''Exported  : '' @ fmt_full now @ newline @
     replicate 60 (ch CHR ''-'') @ newline"

fun render_records :: "fmt \<Rightarrow> rstr \<Rightarrow> chat_record list \<Rightarrow> rstr" where
  "render_records fmt_full out [] = out"
| "render_records fmt_full out (r # records) =
     render_records fmt_full (out @ render_record fmt_full r) records"

definition render_text :: "fmt \<Rightarrow> i64 \<Rightarrow> rstr \<Rightarrow> rstr \<Rightarrow> chat_record list \<Rightarrow> rstr" where
  "render_text fmt_full now room transport records =
     render_records fmt_full (render_header fmt_full now room transport) records"

type_synonym json_export = "rstr \<Rightarrow> rstr \<Rightarrow> rstr \<Rightarrow> chat_record list \<Rightarrow> rstr + bytes"

definition is_json_ext :: "rstr option \<Rightarrow> bool" where
  "is_json_ext ext = (case ext of None \<Rightarrow> False | Some e \<Rightarrow> lower e = lit ''json'')"

definition export_bytes ::
  "fmt \<Rightarrow> json_export \<Rightarrow> i64 \<Rightarrow> rstr option \<Rightarrow> rstr \<Rightarrow> rstr \<Rightarrow> chat_record list \<Rightarrow> bytes res" where
  "export_bytes fmt_full json now ext room transport records =
     (if is_json_ext ext
      then from_json_error (json room transport (fmt_full now) records)
      else Inr (into_bytes (render_text fmt_full now room transport records)))"

definition export ::
  "fmt \<Rightarrow> json_export \<Rightarrow> i64 \<Rightarrow> path \<Rightarrow> rstr option \<Rightarrow> rstr \<Rightarrow> rstr \<Rightarrow> chat_record list \<Rightarrow>
   disk \<Rightarrow> unit res \<times> disk" where
  "export fmt_full json now path ext room transport records d =
     (case export_bytes fmt_full json now ext room transport records of
        Inl e \<Rightarrow> (Inl e, d)
      | Inr bytes \<Rightarrow>
          (case file_create path d of
             (Inl e, d1) \<Rightarrow> (Inl (Io e), d1)
           | (Inr f, d1) \<Rightarrow>
               (case file_write_all f bytes d1 of
                  (Some e, _, d2) \<Rightarrow> (Inl (Io e), d2)
                | (None, _, d2) \<Rightarrow> (Inr (), d2))))"

section \<open>Facts\<close>

lemma render_records_concat:
  "render_records fmt out rs = out @ concat (map (render_record fmt) rs)"
  by (induction rs arbitrary: out) auto

lemma render_text_eq:
  "render_text fmt now room tr rs = render_header fmt now room tr @ concat (map (render_record fmt) rs)"
  by (simp add: render_text_def render_records_concat)

definition one_line :: "fmt \<Rightarrow> chat_record \<Rightarrow> bool" where
  "one_line fmt r \<longleftrightarrow> 10 \<notin> set (fmt (cr_ts r)) \<and> 10 \<notin> set (cr_sender r) \<and> 10 \<notin> set (cr_body r)"

text \<open>The lines of a text: what \<open>str::lines\<close> gives for text that ends in a newline.\<close>

fun split_lines :: "rstr \<Rightarrow> rstr \<Rightarrow> rstr list" where
  "split_lines cur [] = (if cur = [] then [] else [cur])"
| "split_lines cur (c # cs) = (if c = 10 then cur # split_lines [] cs else split_lines (cur @ [c]) cs)"

lemma split_lines_line:
  "10 \<notin> set line \<Longrightarrow> split_lines cur (line @ newline @ rest) = (cur @ line) # split_lines [] rest"
  by (induction line arbitrary: cur) auto

lemma export_touches_only_path:
  "export fmt json now path ext room tr rs d = (r, d') \<Longrightarrow> q \<noteq> path \<Longrightarrow>
     file_content d' q = file_content d q"
  by (auto simp: export_def split: sum.splits prod.splits option.splits
      dest!: file_create_ok file_create_err dest: file_write_other)

lemma export_ok:
  "export fmt json now path ext room tr rs d = (Inr (), d') \<Longrightarrow>
     export_bytes fmt json now ext room tr rs = Inr (file_content d' path)"
  by (auto simp: export_def split: sum.splits prod.splits option.splits
      dest!: file_create_ok file_write_append)

definition record_line :: "fmt \<Rightarrow> chat_record \<Rightarrow> rstr" where
  "record_line fmt_full r =
     lit ''['' @ fmt_full (cr_ts r) @
     (case cr_kind r of
        MessageRec \<Rightarrow> lit ''] '' @ cr_sender r @ lit '': ''
      | SystemRec \<Rightarrow> lit ''] * ''
      | FileRec \<Rightarrow> lit ''] * '' @ cr_sender r @ lit '' (file) '') @ cr_body r"

lemma render_record_eq: "render_record fmt r = record_line fmt r @ newline"
  by (cases "cr_kind r") (simp_all add: render_record_def record_line_def)

definition header_lines :: "fmt \<Rightarrow> i64 \<Rightarrow> rstr \<Rightarrow> rstr \<Rightarrow> rstr list" where
  "header_lines fmt_full now room transport =
     [lit ''Mesh Chat - session transcript'', lit ''Room code : '' @ room,
      lit ''Transport : '' @ transport, lit ''Exported  : '' @ fmt_full now,
      replicate 60 (ch CHR ''-'')]"

lemma split_lines_concat:
  "list_all (\<lambda>l. 10 \<notin> set l) ls \<Longrightarrow>
     split_lines [] (concat (map (\<lambda>l. l @ newline) ls)) = ls"
proof (induction ls)
  case Nil
  then show ?case by simp
next
  case (Cons l ls)
  then show ?case using split_lines_line [of l "[]" "concat (map (\<lambda>l. l @ newline) ls)"] by simp
qed

lemma render_text_lines:
  "render_text fmt now room tr rs =
     concat (map (\<lambda>l. l @ newline) (header_lines fmt now room tr @ map (record_line fmt) rs))"
  by (simp add: render_text_eq render_header_def header_lines_def render_record_eq [abs_def] comp_def)

section \<open>The claims\<close>

text \<open>
  The plain-text transcript can be read back line by line: as long as no field holds a
  line feed, its lines are the five header lines followed by exactly one line per record,
  in order, each carrying the record's time, its author where it has one, and its body.
\<close>

theorem transcript_has_one_line_per_record:
  assumes "list_all (one_line fmt) rs"
    and "10 \<notin> set (fmt now)" "10 \<notin> set room" "10 \<notin> set transport"
  shows "split_lines [] (render_text fmt now room transport rs) =
    header_lines fmt now room transport @ map (record_line fmt) rs"
proof -
  have "10 \<notin> set (record_line fmt r)" if "one_line fmt r" for r
    using that by (cases "cr_kind r") (auto simp: record_line_def one_line_def lit_def)
  moreover have "list_all (\<lambda>l. 10 \<notin> set l) (header_lines fmt now room transport)"
    using assms by (auto simp: header_lines_def lit_def ch_def)
  ultimately show ?thesis
    unfolding render_text_lines using assms(1)
    by (intro split_lines_concat) (auto simp: list_all_iff)
qed

theorem transcript_has_one_line_per_record_witness:
  "split_lines [] (render_text (\<lambda>t. show_nat (unat t)) 7 (lit ''L-AB'') (lit ''LAN'')
      [record_message (lit ''Al'') (lit ''a'') 5 (lit ''hi''), record_system 6 (lit ''x'')]) =
   header_lines (\<lambda>t. show_nat (unat t)) 7 (lit ''L-AB'') (lit ''LAN'') @
   map (record_line (\<lambda>t. show_nat (unat t)))
     [record_message (lit ''Al'') (lit ''a'') 5 (lit ''hi''), record_system 6 (lit ''x'')]"
  by (rule transcript_has_one_line_per_record) code_simp+

text \<open>
  The transcript of a body that holds a line feed can be forged: for every author,
  time and text there is a single message body that renders exactly as two messages, the
  second one under any name the sender likes.  Nothing between the network and
  \<open>render_text\<close> removes line feeds from a body.
\<close>

theorem transcript_line_can_be_forged:
  "render_text fmt now room transport
     (rs @ [record_message sender sid ts
              (body @ newline @ lit ''['' @ fmt ts' @ lit ''] '' @ victim @ lit '': '' @ words)]) =
   render_text fmt now room transport
     (rs @ [record_message sender sid ts body, record_message victim sid' ts' words])"
  by (simp add: render_text_eq render_record_def record_message_def)

text \<open>
  An export touches no file but the one the user chose, and when it reports success
  that file holds exactly the bytes of the export; when it reports an error, either the
  JSON form could not be made and the disk is unchanged, or the disk refused.
\<close>

theorem export_writes_only_the_chosen_file:
  "case export fmt json now path ext room transport rs d of
     (Inr _, d') \<Rightarrow>
       export_bytes fmt json now ext room transport rs = Inr (file_content d' path) \<and>
       list_all (\<lambda>q. q = path \<or> file_content d' q = file_content d q) qs
   | (Inl (Io e), d') \<Rightarrow> list_all (\<lambda>q. q = path \<or> file_content d' q = file_content d q) qs
   | (Inl e, d') \<Rightarrow> is_json_ext ext \<and> d' = d"
proof (cases "export fmt json now path ext room transport rs d")
  case (Pair r d')
  have others: "list_all (\<lambda>q. q = path \<or> file_content d' q = file_content d q) qs"
    using export_touches_only_path [OF Pair] by (auto simp: list_all_iff)
  show ?thesis
  proof (cases r)
    case (Inr u)
    with Pair others show ?thesis using export_ok by fastforce
  next
    case (Inl e)
    have "is_json_ext ext \<and> d' = d" if "\<nexists>io. e = Io io"
      using Pair Inl that
      by (auto simp: export_def export_bytes_def from_json_error_def
          split: sum.splits prod.splits option.splits if_splits)
    with Pair Inl others show ?thesis by (auto split: error.splits)
  qed
qed

end
