(* ===== verification/Rate_Limiter.thy ===== *)
theory Rate_Limiter
  imports Rust_Text
begin

text \<open>
  \<open>core/src/ratelimit.rs\<close>: the sliding-window limiter for connection attempts.  The
  clock reading \<open>Instant::now()\<close> is the argument \<open>now\<close>.
\<close>

record rate_limiter =
  rl_window :: duration
  rl_per_source :: nat
  rl_global :: nat
  rl_hits :: "(rstr, instant list) hmap"
  rl_all :: "instant list"

definition rate_limiter_new :: "nat \<Rightarrow> nat \<Rightarrow> duration \<Rightarrow> rate_limiter" where
  "rate_limiter_new per_source global window =
     \<lparr>rl_window = window, rl_per_source = per_source, rl_global = global,
      rl_hits = [], rl_all = []\<rparr>"

definition default_policy :: rate_limiter where
  "default_policy = rate_limiter_new 5 30 (secs 60)"

text \<open>The predicate of both \<open>retain\<close> calls.\<close>

definition in_window :: "duration \<Rightarrow> instant \<Rightarrow> instant \<Rightarrow> bool" where
  "in_window window now t \<longleftrightarrow> duration_since now t < window"

definition allow :: "instant \<Rightarrow> rstr \<Rightarrow> rate_limiter \<Rightarrow> bool \<times> rate_limiter" where
  "allow now source rl =
     (let all = filter (in_window (rl_window rl) now) (rl_all rl);
          entry0 = (case hm_get (rl_hits rl) source of None \<Rightarrow> [] | Some v \<Rightarrow> v);
          entry = filter (in_window (rl_window rl) now) entry0
      in if rl_per_source rl \<le> length entry \<or> rl_global rl \<le> length all
         then (False, rl\<lparr>rl_all := all, rl_hits := hm_insert source entry (rl_hits rl)\<rparr>)
         else (True, rl\<lparr>rl_all := all @ [now],
                        rl_hits := hm_insert source (entry @ [now]) (rl_hits rl)\<rparr>))"

definition sweep :: "instant \<Rightarrow> rate_limiter \<Rightarrow> rate_limiter" where
  "sweep now rl =
     rl\<lparr>rl_hits := filter (\<lambda>(k, v). list_ex (in_window (rl_window rl) now) v) (rl_hits rl)\<rparr>"

section \<open>The specification: the full log of admitted attempts\<close>

text \<open>
  What the limiter promises is stated over the log of every admitted attempt, which is
  never pruned: an attempt is admitted when the log holds fewer than the budget of
  attempts of its source, and of all sources, within the window before it.
\<close>

type_synonym attempt_log = "(instant \<times> rstr) list"

definition recent :: "duration \<Rightarrow> instant \<Rightarrow> attempt_log \<Rightarrow> attempt_log" where
  "recent window now log = filter (\<lambda>(t, _). in_window window now t) log"

definition recent_of :: "duration \<Rightarrow> instant \<Rightarrow> rstr \<Rightarrow> attempt_log \<Rightarrow> attempt_log" where
  "recent_of window now source log = filter (\<lambda>(_, s). s = source) (recent window now log)"

definition spec_allow ::
  "nat \<Rightarrow> nat \<Rightarrow> duration \<Rightarrow> instant \<Rightarrow> rstr \<Rightarrow> attempt_log \<Rightarrow> bool \<times> attempt_log" where
  "spec_allow per_source global window now source log =
     (if length (recent_of window now source log) < per_source \<and>
         length (recent window now log) < global
      then (True, log @ [(now, source)]) else (False, log))"

datatype limiter_call = Allow instant rstr | Sweep instant

fun call_time :: "limiter_call \<Rightarrow> instant" where
  "call_time (Allow now _) = now"
| "call_time (Sweep now) = now"

fun run_limiter :: "limiter_call list \<Rightarrow> rate_limiter \<Rightarrow> bool list \<times> rate_limiter" where
  "run_limiter [] rl = ([], rl)"
| "run_limiter (Allow now s # cs) rl =
     (case allow now s rl of (b, rl') \<Rightarrow> (case run_limiter cs rl' of (bs, rl'') \<Rightarrow> (b # bs, rl'')))"
| "run_limiter (Sweep now # cs) rl = run_limiter cs (sweep now rl)"

fun run_spec ::
  "nat \<Rightarrow> nat \<Rightarrow> duration \<Rightarrow> limiter_call list \<Rightarrow> attempt_log \<Rightarrow> bool list \<times> attempt_log" where
  "run_spec p g w [] log = ([], log)"
| "run_spec p g w (Allow now s # cs) log =
     (case spec_allow p g w now s log of
        (b, log') \<Rightarrow> (case run_spec p g w cs log' of (bs, log'') \<Rightarrow> (b # bs, log'')))"
| "run_spec p g w (Sweep now # cs) log = run_spec p g w cs log"

text \<open>Calls made by a clock that never goes back.\<close>

definition monotone_calls :: "instant \<Rightarrow> limiter_call list \<Rightarrow> bool" where
  "monotone_calls start cs \<longleftrightarrow> sorted (start # map call_time cs)"

section \<open>Simulation\<close>

text \<open>
  The lists of the limiter and the log agree on every instant that is still in the window
  at time \<open>now\<close>; once out of the window, an instant never comes back.
\<close>

definition stored :: "rate_limiter \<Rightarrow> rstr \<Rightarrow> instant list" where
  "stored rl s = (case hm_get (rl_hits rl) s of None \<Rightarrow> [] | Some v \<Rightarrow> v)"

definition log_of :: "rstr \<Rightarrow> attempt_log \<Rightarrow> instant list" where
  "log_of s log = map fst (filter (\<lambda>(_, s'). s' = s) log)"

definition agrees :: "instant \<Rightarrow> rate_limiter \<Rightarrow> attempt_log \<Rightarrow> bool" where
  "agrees now rl log \<longleftrightarrow>
     filter (in_window (rl_window rl) now) (rl_all rl) =
       filter (in_window (rl_window rl) now) (map fst log) \<and>
     (\<forall>s. filter (in_window (rl_window rl) now) (stored rl s) =
       filter (in_window (rl_window rl) now) (log_of s log))"

lemma in_window_mono: "now \<le> now' \<Longrightarrow> in_window w now' t \<Longrightarrow> in_window w now t"
  by (simp add: in_window_def time_defs)

lemma filter_window_twice:
  "now \<le> now' \<Longrightarrow>
   filter (in_window w now') (filter (in_window w now) ts) = filter (in_window w now') ts"
  by (auto intro: filter_cong dest: in_window_mono)

lemma filter_window_later:
  "now \<le> now' \<Longrightarrow> filter (in_window w now) ts = filter (in_window w now) us \<Longrightarrow>
   filter (in_window w now') ts = filter (in_window w now') us"
  by (metis filter_window_twice)

lemma agrees_later: "now \<le> now' \<Longrightarrow> agrees now rl log \<Longrightarrow> agrees now' rl log"
  unfolding agrees_def by (meson filter_window_later)

lemma agrees_new: "agrees now (rate_limiter_new p g w) []"
  by (simp add: agrees_def rate_limiter_new_def stored_def log_of_def)

lemma recent_fst: "map fst (recent w now log) = filter (in_window w now) (map fst log)"
  by (induction log) (auto simp: recent_def)

lemma recent_of_fst: "map fst (recent_of w now s log) = filter (in_window w now) (log_of s log)"
  by (induction log) (auto simp: recent_of_def recent_def log_of_def)

lemma log_of_snoc: "log_of s (log @ [(now, s')]) = log_of s log @ (if s = s' then [now] else [])"
  by (simp add: log_of_def)

lemma stored_insert:
  "stored (rl\<lparr>rl_all := a, rl_hits := hm_insert s v (rl_hits rl)\<rparr>) s' =
     (if s' = s then v else stored rl s')"
  by (simp add: stored_def hm_simps)

lemma allow_simulates:
  assumes "agrees now rl log"
  shows "fst (allow now s rl) =
      fst (spec_allow (rl_per_source rl) (rl_global rl) (rl_window rl) now s log) \<and>
    agrees now (snd (allow now s rl))
      (snd (spec_allow (rl_per_source rl) (rl_global rl) (rl_window rl) now s log))"
proof -
  let ?w = "rl_window rl"
  let ?all = "filter (in_window ?w now) (rl_all rl)"
  let ?entry = "filter (in_window ?w now) (stored rl s)"
  have len: "length ?all = length (recent ?w now log)"
    "length ?entry = length (recent_of ?w now s log)"
    using assms recent_fst [of ?w now log] recent_of_fst [of ?w now s log]
    by (auto simp: agrees_def dest: arg_cong [where f = length])
  show ?thesis
  proof (cases "length ?entry < rl_per_source rl \<and> length ?all < rl_global rl")
    case True
    then have a: "allow now s rl = (True, rl\<lparr>rl_all := ?all @ [now],
        rl_hits := hm_insert s (?entry @ [now]) (rl_hits rl)\<rparr>)"
      by (auto simp: allow_def stored_def Let_def)
    have sp: "spec_allow (rl_per_source rl) (rl_global rl) ?w now s log = (True, log @ [(now, s)])"
      using True by (simp add: spec_allow_def flip: len)
    show ?thesis using assms
      by (simp add: a sp agrees_def stored_insert log_of_snoc)
  next
    case False
    then have a: "allow now s rl =
        (False, rl\<lparr>rl_all := ?all, rl_hits := hm_insert s ?entry (rl_hits rl)\<rparr>)"
      by (auto simp: allow_def stored_def Let_def)
    have sp: "spec_allow (rl_per_source rl) (rl_global rl) ?w now s log = (False, log)"
      using False by (auto simp: spec_allow_def simp flip: len)
    show ?thesis using assms by (simp add: a sp agrees_def stored_insert)
  qed
qed

lemma allow_fields [simp]:
  "rl_per_source (snd (allow now s rl)) = rl_per_source rl"
  "rl_global (snd (allow now s rl)) = rl_global rl"
  "rl_window (snd (allow now s rl)) = rl_window rl"
  by (simp_all add: allow_def Let_def)

lemma sweep_fields [simp]:
  "rl_per_source (sweep now rl) = rl_per_source rl" "rl_global (sweep now rl) = rl_global rl"
  "rl_window (sweep now rl) = rl_window rl" "rl_all (sweep now rl) = rl_all rl"
  by (simp_all add: sweep_def)

lemma allow_ok: "hm_ok (rl_hits rl) \<Longrightarrow> hm_ok (rl_hits (snd (allow now s rl)))"
  by (auto simp: allow_def Let_def)

lemma sweep_ok: "hm_ok (rl_hits rl) \<Longrightarrow> hm_ok (rl_hits (sweep now rl))"
  by (simp add: sweep_def hm_ok_def distinct_map_filter)

lemma stored_sweep:
  assumes "hm_ok (rl_hits rl)"
  shows "stored (sweep now rl) s =
    (if list_ex (in_window (rl_window rl) now) (stored rl s) then stored rl s else [])"
proof -
  have "hm_get (filter (\<lambda>(k, v). P v) m) k =
      (case hm_get m k of None \<Rightarrow> None | Some v \<Rightarrow> if P v then Some v else None)"
    if "hm_ok m" for m :: "(rstr, instant list) hmap" and P k
    using that
    by (induction m) (auto simp: hm_ok_def hm_get_def map_of_eq_None_iff image_iff split: option.splits)
  with assms show ?thesis by (simp add: stored_def sweep_def split: option.splits)
qed

lemma sweep_simulates:
  assumes "hm_ok (rl_hits rl)" "agrees now rl log"
  shows "agrees now (sweep now rl) log"
proof -
  have "filter (in_window (rl_window rl) now) (stored (sweep now rl) s) =
      filter (in_window (rl_window rl) now) (stored rl s)" for s
    by (auto simp: stored_sweep [OF assms(1)] list_ex_iff filter_empty_conv)
  with assms(2) show ?thesis by (simp add: agrees_def)
qed

lemma run_limiter_simulates:
  "monotone_calls start cs \<Longrightarrow> hm_ok (rl_hits rl) \<Longrightarrow> agrees start rl log \<Longrightarrow>
   fst (run_limiter cs rl) =
     fst (run_spec (rl_per_source rl) (rl_global rl) (rl_window rl) cs log)"
proof (induction cs arbitrary: start rl log)
  case Nil
  then show ?case by simp
next
  case (Cons c cs)
  have mono: "start \<le> call_time c" "monotone_calls (call_time c) cs"
    using Cons.prems(1) by (auto simp: monotone_calls_def)
  have ag: "agrees (call_time c) rl log" using mono(1) Cons.prems(3) by (rule agrees_later)
  show ?case
  proof (cases c)
    case (Allow now s)
    let ?rl = "snd (allow now s rl)"
    let ?sp = "spec_allow (rl_per_source rl) (rl_global rl) (rl_window rl) now s log"
    have sim: "fst (allow now s rl) = fst ?sp" "agrees now ?rl (snd ?sp)"
      using allow_simulates ag Allow by auto
    have "fst (run_limiter cs ?rl) =
        fst (run_spec (rl_per_source ?rl) (rl_global ?rl) (rl_window ?rl) cs (snd ?sp))"
      by (rule Cons.IH [of now]) (use mono Allow allow_ok Cons.prems(2) sim in auto)
    then show ?thesis using sim(1) Allow by (simp add: split_beta)
  next
    case (Sweep now)
    have "fst (run_limiter cs (sweep now rl)) =
        fst (run_spec (rl_per_source (sweep now rl)) (rl_global (sweep now rl))
          (rl_window (sweep now rl)) cs log)"
      by (rule Cons.IH [of now]) (use mono Sweep sweep_ok sweep_simulates ag Cons.prems(2) in auto)
    then show ?thesis using Sweep by simp
  qed
qed

section \<open>The budget\<close>

text \<open>The attempts that were let in, read off the answers.\<close>

fun admitted :: "limiter_call list \<Rightarrow> bool list \<Rightarrow> attempt_log" where
  "admitted [] bs = []"
| "admitted (Sweep _ # cs) bs = admitted cs bs"
| "admitted (Allow now s # cs) [] = []"
| "admitted (Allow now s # cs) (b # bs) = (if b then [(now, s)] else []) @ admitted cs bs"

lemma run_spec_log: "snd (run_spec p g w cs log) = log @ admitted cs (fst (run_spec p g w cs log))"
  by (induction p g w cs log rule: run_spec.induct) (auto simp: spec_allow_def split_beta)

definition within :: "duration \<Rightarrow> instant \<Rightarrow> instant \<Rightarrow> bool" where
  "within w until t \<longleftrightarrow> until - int w < t \<and> t \<le> until"

definition budget_kept :: "nat \<Rightarrow> nat \<Rightarrow> duration \<Rightarrow> attempt_log \<Rightarrow> bool" where
  "budget_kept p g w log \<longleftrightarrow>
     (\<forall>until. length (filter (\<lambda>(t, _). within w until t) log) \<le> g \<and>
       (\<forall>src. length (filter (\<lambda>(t, s). s = src \<and> within w until t) log) \<le> p))"

lemma within_recent:
  "within w until now \<Longrightarrow> within w until t \<Longrightarrow> in_window w now t"
  by (auto simp: within_def in_window_def time_defs)

lemma length_filter_mono: "(\<And>x. P x \<Longrightarrow> Q x) \<Longrightarrow> length (filter P xs) \<le> length (filter Q xs)"
  by (induction xs) auto

lemma spec_allow_budget:
  assumes "budget_kept p g w log"
  shows "budget_kept p g w (snd (spec_allow p g w now s log))"
proof (cases "length (recent_of w now s log) < p \<and> length (recent w now log) < g")
  case False
  with assms show ?thesis by (auto simp: spec_allow_def)
next
  case True
  have a: "length (filter (\<lambda>(t, _). within w until t) log) < g"
    if "within w until now" for until
  proof -
    have "length (filter (\<lambda>(t, _). within w until t) log) \<le> length (recent w now log)"
      unfolding recent_def by (rule length_filter_mono) (use within_recent that in auto)
    with True show ?thesis by simp
  qed
  have b: "length (filter (\<lambda>(t, s'). s' = s \<and> within w until t) log) < p"
    if "within w until now" for until
  proof -
    have "length (filter (\<lambda>(t, s'). s' = s \<and> within w until t) log) \<le> length (recent_of w now s log)"
      unfolding recent_of_def recent_def filter_filter
      by (rule length_filter_mono) (use within_recent that in auto)
    with True show ?thesis by simp
  qed
  from True have "snd (spec_allow p g w now s log) = log @ [(now, s)]" by (simp add: spec_allow_def)
  then show ?thesis using assms a b
    by (auto simp: budget_kept_def Suc_le_eq)
qed

lemma run_spec_budget: "budget_kept p g w log \<Longrightarrow> budget_kept p g w (snd (run_spec p g w cs log))"
proof (induction p g w cs log rule: run_spec.induct)
  case (2 p g w now s cs log)
  obtain b l where bl: "spec_allow p g w now s log = (b, l)" by fastforce
  then have "budget_kept p g w l" using spec_allow_budget [OF "2.prems", of now s] by simp
  with "2.IH" bl have "budget_kept p g w (snd (run_spec p g w cs l))" by metis
  with bl show ?case by (simp add: split_beta)
qed auto

section \<open>The claims\<close>

text \<open>
  C22. Forgetting old attempts is invisible: under a clock that never goes back, the limiter,
  which prunes its lists and may be swept at any time, answers every sequence of calls
  exactly as the specification that keeps the full log of admitted attempts.
\<close>

theorem limiter_refines_full_log:
  assumes "monotone_calls start cs"
  shows "fst (run_limiter cs (rate_limiter_new p g w)) = fst (run_spec p g w cs [])"
proof -
  have "hm_ok (rl_hits (rate_limiter_new p g w))" by (simp add: rate_limiter_new_def)
  from run_limiter_simulates [OF assms this agrees_new] show ?thesis
    by (simp add: rate_limiter_new_def)
qed

theorem limiter_refines_full_log_witness:
  "fst (run_limiter [Allow 0 [1], Allow 5 [1], Sweep 9, Allow 12 [1], Allow 13 [2]] (rate_limiter_new 1 2 10)) =
   fst (run_spec 1 2 10 [Allow 0 [1], Allow 5 [1], Sweep 9, Allow 12 [1], Allow 13 [2]] [])"
  by (rule limiter_refines_full_log [where start = 0]) (simp add: monotone_calls_def)

text \<open>
  C9. The budget holds in every window, not only in aligned ones: whatever the calls were,
  in any stretch of time as long as the window at most \<open>global\<close> attempts were let in, and
  at most \<open>per_source\<close> of any one source.
\<close>

theorem limiter_budget_holds:
  assumes "monotone_calls start cs"
  shows "budget_kept p g w (admitted cs (fst (run_limiter cs (rate_limiter_new p g w))))"
proof -
  have "budget_kept p g w (snd (run_spec p g w cs []))"
    by (rule run_spec_budget) (simp add: budget_kept_def)
  then show ?thesis
    using run_limiter_simulates [OF assms _ agrees_new, of p g w]
    by (simp add: run_spec_log rate_limiter_new_def)
qed

theorem limiter_budget_holds_witness:
  "budget_kept 5 30 (secs 60)
     (admitted (replicate 7 (Allow 3 [1])) (fst (run_limiter (replicate 7 (Allow 3 [1])) default_policy)))"
  unfolding default_policy_def
  by (rule limiter_budget_holds [where start = 0]) (simp add: monotone_calls_def numeral_eq_Suc)

end
