(* ===== verification/Codec.thy ===== *)
theory Codec
  imports Errors Bit_Streams
begin

text \<open>
  \<open>core/src/codec.rs\<close>: length-prefixed framing over a byte stream.  The socket is a
  script of what its calls will return: for reads, pieces of data of any size, interrupted
  calls and errors, in any order; for writes, how many bytes each call takes.  A script
  that has run out is a peer that closed the connection (reads return 0) or a socket that
  takes everything it is given.  So a statement about every script is a statement about
  every way the operating system may cut the stream.
\<close>

definition MAX_FRAME :: nat where
  "MAX_FRAME = 65535"

section \<open>Reading\<close>

datatype read_event = Data bytes | ReadErr io_error

type_synonym source = "read_event list"

text \<open>One \<open>Stream::read\<close> into a buffer of \<open>n\<close> bytes; \<open>Inr []\<close> is \<open>Ok(0)\<close>.\<close>

fun stream_read :: "nat \<Rightarrow> source \<Rightarrow> (io_error + bytes) \<times> source" where
  "stream_read n [] = (Inr [], [])"
| "stream_read n (ReadErr e # src) = (Inl e, src)"
| "stream_read n (Data d # src) =
     (if length d \<le> n then (Inr d, src) else (Inr (take n d), Data (drop n d) # src))"

definition eof_error :: io_error where
  "eof_error = io_new UnexpectedEof (lit ''the peer closed the connection'')"

lemma stream_read_shrinks:
  "stream_read n src = (Inr d, src') \<Longrightarrow> d \<noteq> [] \<Longrightarrow> 0 < n \<Longrightarrow>
     length d \<le> n \<and> length src' \<le> length src"
  "stream_read n src = (Inl e, src') \<Longrightarrow> Suc (length src') = length src"
  by (induction n src rule: stream_read.induct) (auto split: if_splits)

lemma read_step_less:
  assumes "(Inr d, src') = stream_read n src" "d \<noteq> []" "0 < n"
  shows "n - length d + length src' < n + length src" "n + length src' - length d < n + length src"
proof -
  have "length d \<le> n" "length src' \<le> length src" "Suc 0 \<le> length d"
    using stream_read_shrinks(1) [of n src d src'] assms by (auto simp: Suc_le_eq)
  then show "n - length d + length src' < n + length src"
    "n + length src' - length d < n + length src" using assms(3) by linarith+
qed

lemma read_interrupted_less: "(Inl e, src') = stream_read n src \<Longrightarrow> length src' < length src"
  using stream_read_shrinks(2) by (metis lessI)

function read_exact :: "nat \<Rightarrow> source \<Rightarrow> (io_error + bytes) \<times> source" where
  "read_exact n src =
     (if n = 0 then (Inr [], src)
      else case stream_read n src of
             (Inr d, src') \<Rightarrow>
               (if d = [] then (Inl eof_error, src')
                else case read_exact (n - length d) src' of
                       (Inl e, rest) \<Rightarrow> (Inl e, rest)
                     | (Inr ds, rest) \<Rightarrow> (Inr (d @ ds), rest))
           | (Inl e, src') \<Rightarrow>
               (if err_kind e = Interrupted then read_exact n src' else (Inl e, src')))"
  by pat_completeness auto
termination
  by (relation "measure (\<lambda>(n, src). n + length src)")
    (auto dest: read_interrupted_less intro: read_step_less)

declare read_exact.simps [simp del]

definition oversized_error :: io_error where
  "oversized_error =
     io_new InvalidData (lit ''oversized frame - not a peer speaking this protocol'')"

definition read_frame :: "source \<Rightarrow> (io_error + bytes) \<times> source" where
  "read_frame src =
     (case read_exact 4 src of
        (Inl e, src1) \<Rightarrow> (Inl e, src1)
      | (Inr hdr, src1) \<Rightarrow>
          (let len = unat (of_be_bytes hdr :: u32) in
           if MAX_FRAME < len then (Inl oversized_error, src1) else read_exact len src1))"

section \<open>Writing\<close>

datatype write_event = Take nat | WriteErr io_error

type_synonym sink = "write_event list"

text \<open>One \<open>Stream::write\<close>: how many bytes were taken, or the error.\<close>

fun stream_write :: "bytes \<Rightarrow> sink \<Rightarrow> (io_error + nat) \<times> sink" where
  "stream_write buf [] = (Inr (length buf), [])"
| "stream_write buf (WriteErr e # snk) = (Inl e, snk)"
| "stream_write buf (Take n # snk) = (Inr (min n (length buf)), snk)"

definition write_zero_error :: io_error where
  "write_zero_error = io_new WriteZero (lit ''the peer stopped accepting data'')"

text \<open>The result, the bytes that went out, and the sink that is left.\<close>

function write_all :: "bytes \<Rightarrow> sink \<Rightarrow> io_error option \<times> bytes \<times> sink" where
  "write_all buf snk =
     (if buf = [] then (None, [], snk)
      else case stream_write buf snk of
             (Inr n, snk') \<Rightarrow>
               (if n = 0 then (Some write_zero_error, [], snk')
                else case write_all (drop n buf) snk' of
                       (r, out, rest) \<Rightarrow> (r, take n buf @ out, rest))
           | (Inl e, snk') \<Rightarrow>
               (if err_kind e = Interrupted then write_all buf snk' else (Some e, [], snk')))"
  by pat_completeness auto

lemma stream_write_bounds:
  "stream_write buf snk = (Inr n, snk') \<Longrightarrow> n \<le> length buf \<and> length snk' \<le> length snk"
  "stream_write buf snk = (Inl e, snk') \<Longrightarrow> Suc (length snk') = length snk"
  by (induction buf snk rule: stream_write.induct) auto

lemma write_step_less:
  assumes "(Inr n, snk') = stream_write buf snk" "0 < n" "buf \<noteq> []"
  shows "length buf - n + length snk' < length buf + length snk"
proof -
  have "n \<le> length buf" "length snk' \<le> length snk"
    using stream_write_bounds(1) [of buf snk n snk'] assms by auto
  then show ?thesis using assms(2) by linarith
qed

lemma write_interrupted_less: "(Inl e, snk') = stream_write buf snk \<Longrightarrow> length snk' < length snk"
  using stream_write_bounds(2) by (metis lessI)

termination write_all
  by (relation "measure (\<lambda>(buf, snk). length buf + length snk)")
    (auto dest: write_interrupted_less intro: write_step_less)

declare write_all.simps [simp del]

definition too_large_error :: io_error where
  "too_large_error = io_new InvalidInput (lit ''frame too large'')"

definition frame_bytes :: "bytes \<Rightarrow> bytes" where
  "frame_bytes payload = be_bytes 4 (of_nat (length payload) :: u32) @ payload"

definition write_frame :: "bytes \<Rightarrow> sink \<Rightarrow> io_error option \<times> bytes \<times> sink" where
  "write_frame payload snk =
     (if MAX_FRAME < length payload then (Some too_large_error, [], snk)
      else write_all (frame_bytes payload) snk)"

section \<open>What a script delivers\<close>

text \<open>
  The abstraction of a script of reads: the bytes that arrive before the first end of
  stream or hard error, and what that end is.  Interrupted calls leave no trace.
\<close>

fun avail :: "source \<Rightarrow> bytes" where
  "avail [] = []"
| "avail (Data d # src) = (if d = [] then [] else d @ avail src)"
| "avail (ReadErr e # src) = (if err_kind e = Interrupted then avail src else [])"

fun fault :: "source \<Rightarrow> io_error" where
  "fault [] = eof_error"
| "fault (Data d # src) = (if d = [] then eof_error else fault src)"
| "fault (ReadErr e # src) = (if err_kind e = Interrupted then fault src else e)"

lemma stream_read_avail:
  "stream_read n src = (Inr d, src') \<Longrightarrow> 0 < n \<Longrightarrow> d \<noteq> [] \<Longrightarrow>
     avail src = d @ avail src' \<and> fault src = fault src' \<and> length d \<le> n"
  "stream_read n src = (Inr [], src') \<Longrightarrow> 0 < n \<Longrightarrow> avail src = [] \<and> fault src = eof_error"
  "stream_read n src = (Inl e, src') \<Longrightarrow> err_kind e = Interrupted \<Longrightarrow>
     avail src = avail src' \<and> fault src = fault src'"
  "stream_read n src = (Inl e, src') \<Longrightarrow> err_kind e \<noteq> Interrupted \<Longrightarrow>
     avail src = [] \<and> fault src = e"
  by (induction n src rule: stream_read.induct) (auto split: if_splits)

lemma read_exact_spec:
  "(n \<le> length (avail src) \<longrightarrow>
      (\<exists>src'. read_exact n src = (Inr (take n (avail src)), src') \<and>
         avail src' = drop n (avail src) \<and> fault src' = fault src)) \<and>
   (length (avail src) < n \<longrightarrow> (\<exists>src'. read_exact n src = (Inl (fault src), src')))"
proof (induction n src rule: read_exact.induct)
  case (1 n src)
  show ?case
  proof (cases "n = 0")
    case True
    then show ?thesis by (simp add: read_exact.simps [of 0 src])
  next
    case False
    obtain r src' where sr: "stream_read n src = (r, src')" by fastforce
    show ?thesis
    proof (cases r)
      case (Inl e)
      with sr False "1.IH"(1) [OF False sr [symmetric] Inl] show ?thesis
        using stream_read_avail(3,4) [of n src e src']
        by (cases "err_kind e = Interrupted") (auto simp: read_exact.simps [of n src])
    next
      case (Inr d)
      show ?thesis
      proof (cases "d = []")
        case True
        with sr Inr False stream_read_avail(2) [of n src src'] show ?thesis
          by (auto simp: read_exact.simps [of n src])
      next
        case d: False
        have a: "avail src = d @ avail src'" "fault src = fault src'" "length d \<le> n"
          using stream_read_avail(1) [of n src d src'] sr Inr False d by auto
        note ih = "1.IH"(2) [OF False sr [symmetric] Inr d]
        show ?thesis
        proof (cases "n \<le> length (avail src)")
          case True
          with a have "n - length d \<le> length (avail src')" by simp
          with ih obtain s where "read_exact (n - length d) src' =
              (Inr (take (n - length d) (avail src')), s)"
            "avail s = drop (n - length d) (avail src')" "fault s = fault src'" by blast
          with True sr Inr d False a show ?thesis by (simp add: read_exact.simps [of n src])
        next
          case short: False
          with a have "length (avail src') < n - length d" by simp
          with ih obtain s where "read_exact (n - length d) src' = (Inl (fault src'), s)" by blast
          with short sr Inr d False a show ?thesis by (simp add: read_exact.simps [of n src])
        qed
      qed
    qed
  qed
qed

lemma read_exact_ok:
  assumes "avail src = a @ b" "length a = n"
  obtains src' where "read_exact n src = (Inr a, src')" "avail src' = b" "fault src' = fault src"
  using read_exact_spec [of n src] assms by auto

lemma read_exact_short:
  assumes "length (avail src) < n"
  obtains src' where "read_exact n src = (Inl (fault src), src')"
  using read_exact_spec [of n src] assms by auto

lemma frame_length_field:
  "length p \<le> MAX_FRAME \<Longrightarrow> unat (of_nat (length p) :: u32) = length p"
  by (simp add: MAX_FRAME_def unat_of_nat take_bit_nat_eq_self_iff)

lemma read_frame_frame:
  assumes "avail src = frame_bytes p @ rest" "length p \<le> MAX_FRAME"
  obtains src' where "read_frame src = (Inr p, src')" "avail src' = rest" "fault src' = fault src"
proof -
  let ?hdr = "be_bytes 4 (of_nat (length p) :: u32)"
  obtain s1 where s1: "read_exact 4 src = (Inr ?hdr, s1)" "avail s1 = p @ rest" "fault s1 = fault src"
    by (rule read_exact_ok [of src ?hdr "p @ rest" 4]) (use assms(1) in \<open>simp_all add: frame_bytes_def\<close>)
  obtain s2 where s2: "read_exact (length p) s1 = (Inr p, s2)" "avail s2 = rest" "fault s2 = fault s1"
    by (rule read_exact_ok [of s1 p rest "length p"]) (use s1(2) in simp_all)
  have "of_be_bytes ?hdr = (of_nat (length p) :: u32)" by (rule of_be_bytes_be_bytes) simp
  with s1 s2 assms(2) have "read_frame src = (Inr p, s2)"
    by (simp add: read_frame_def frame_length_field)
  with s1 s2 that show ?thesis by simp
qed

lemma read_frame_oversized:
  assumes "avail src = be_bytes 4 len @ rest" "MAX_FRAME < unat (len :: u32)"
  obtains src' where "read_frame src = (Inl oversized_error, src')" "avail src' = rest"
proof -
  obtain s1 where "read_exact 4 src = (Inr (be_bytes 4 len), s1)" "avail s1 = rest"
    by (rule read_exact_ok [of src "be_bytes 4 len" rest 4]) (use assms(1) in simp_all)
  moreover have "of_be_bytes (be_bytes 4 len) = len" by (rule of_be_bytes_be_bytes) simp
  ultimately have "read_frame src = (Inl oversized_error, s1)"
    using assms(2) by (simp add: read_frame_def)
  with \<open>avail s1 = rest\<close> that show ?thesis by blast
qed

text \<open>What \<open>read_frame\<close> returns depends on the bytes and the end of the stream only.\<close>

definition frame_of :: "bytes \<Rightarrow> io_error \<Rightarrow> io_error + bytes" where
  "frame_of bs end_error =
     (if length bs < 4 then Inl end_error
      else let len = unat (of_be_bytes (take 4 bs) :: u32) in
        if MAX_FRAME < len then Inl oversized_error
        else if length bs < 4 + len then Inl end_error
        else Inr (take len (drop 4 bs)))"

lemma read_frame_of: "fst (read_frame src) = frame_of (avail src) (fault src)"
proof (cases "length (avail src) < 4")
  case True
  then obtain s1 where "read_exact 4 src = (Inl (fault src), s1)" by (rule read_exact_short)
  with True show ?thesis by (simp add: read_frame_def frame_of_def)
next
  case False
  let ?h = "take 4 (avail src)" and ?b = "drop 4 (avail src)"
  obtain s1 where s1: "read_exact 4 src = (Inr ?h, s1)" "avail s1 = ?b" "fault s1 = fault src"
    by (rule read_exact_ok [of src ?h ?b 4]) (use False in simp_all)
  let ?len = "unat (of_be_bytes ?h :: u32)"
  have "fst (read_exact ?len s1) =
      (if length ?b < ?len then Inl (fault src) else Inr (take ?len ?b))"
    using read_exact_spec [of ?len s1] s1 by auto
  with False s1 show ?thesis
    by (auto simp: read_frame_def frame_of_def Let_def)
qed

section \<open>Sequences of frames\<close>

text \<open>
  The contract every reader of messages offers its client, here and one layer up: from a
  state that carries the messages \<open>p # ps\<close>, a read returns \<open>p\<close> and leaves a state that
  carries \<open>ps\<close>.
\<close>

primrec read_many :: "('s \<Rightarrow> ('e + 'p) \<times> 's) \<Rightarrow> nat \<Rightarrow> 's \<Rightarrow> ('e + 'p list) \<times> 's" where
  "read_many rd 0 s = (Inr [], s)"
| "read_many rd (Suc n) s =
     (case rd s of
        (Inl e, s') \<Rightarrow> (Inl e, s')
      | (Inr p, s') \<Rightarrow>
          (case read_many rd n s' of
             (Inl e, s'') \<Rightarrow> (Inl e, s'')
           | (Inr ps, s'') \<Rightarrow> (Inr (p # ps), s'')))"

locale message_reader =
  fixes rd :: "'s \<Rightarrow> ('e + 'p) \<times> 's" and carries :: "'s \<Rightarrow> 'p list \<Rightarrow> bool"
  assumes rd_next: "carries s (p # ps) \<Longrightarrow> \<exists>s'. rd s = (Inr p, s') \<and> carries s' ps"
begin

lemma read_many_all:
  "carries s (ps @ qs) \<Longrightarrow> \<exists>s'. read_many rd (length ps) s = (Inr ps, s') \<and> carries s' qs"
proof (induction ps arbitrary: s)
  case Nil
  then show ?case by simp
next
  case (Cons p ps)
  then obtain s1 where "rd s = (Inr p, s1)" "carries s1 (ps @ qs)" using rd_next by fastforce
  with Cons.IH [of s1] show ?case by auto
qed

lemma carries_head_unique: "carries s (p # ps) \<Longrightarrow> carries s (q # qs) \<Longrightarrow> p = q"
  using rd_next by (metis prod.inject sum.inject(2))

end

definition carries_frames :: "bytes \<Rightarrow> source \<Rightarrow> bytes list \<Rightarrow> bool" where
  "carries_frames rest src ps \<longleftrightarrow>
     list_all (\<lambda>p. length p \<le> MAX_FRAME) ps \<and> avail src = concat (map frame_bytes ps) @ rest"

interpretation codec: message_reader read_frame "carries_frames rest" for rest
proof
  fix src p ps
  assume "carries_frames rest src (p # ps)"
  then show "\<exists>src'. read_frame src = (Inr p, src') \<and> carries_frames rest src' ps"
    using read_frame_frame [of src p "concat (map frame_bytes ps) @ rest"]
    by (auto simp: carries_frames_def)
qed

lemma write_all_spec:
  "write_all buf snk = (r, out, snk') \<Longrightarrow>
     (case r of None \<Rightarrow> out = buf | Some e \<Rightarrow> \<exists>t. t \<noteq> [] \<and> buf = out @ t)"
proof (induction buf snk arbitrary: r out snk' rule: write_all.induct)
  case (1 buf snk)
  show ?case
  proof (cases "buf = []")
    case True
    with "1.prems" show ?thesis by (simp add: write_all.simps [of "[]" snk])
  next
    case False
    obtain w s where w: "stream_write buf snk = (w, s)" by fastforce
    show ?thesis
    proof (cases w)
      case (Inl e)
      with w False "1.prems" "1.IH"(1) [OF False w [symmetric] Inl] show ?thesis
        by (auto simp: write_all.simps [of buf snk] split: if_splits)
    next
      case (Inr n)
      show ?thesis
      proof (cases "n = 0")
        case True
        with w False Inr "1.prems" show ?thesis by (auto simp: write_all.simps [of buf snk])
      next
        case n: False
        obtain r1 o1 s1 where rec: "write_all (drop n buf) s = (r1, o1, s1)" by (metis prod_cases3)
        with w False Inr n "1.prems" have res: "r = r1" "out = take n buf @ o1"
          by (auto simp: write_all.simps [of buf snk])
        note ih = "1.IH"(2) [OF False w [symmetric] Inr n rec]
        show ?thesis
        proof (cases r1)
          case None
          with ih res show ?thesis by simp
        next
          case (Some e)
          with ih obtain t where "t \<noteq> []" "drop n buf = o1 @ t" by auto
          then have "buf = (take n buf @ o1) @ t" by (metis append.assoc append_take_drop_id)
          with Some res \<open>t \<noteq> []\<close> show ?thesis by auto
        qed
      qed
    qed
  qed
qed

text \<open>Several frames written one after the other, stopping at the first error.\<close>

fun write_many :: "bytes list \<Rightarrow> sink \<Rightarrow> io_error option \<times> bytes \<times> sink" where
  "write_many [] snk = (None, [], snk)"
| "write_many (p # ps) snk =
     (case write_frame p snk of
        (Some e, out, s) \<Rightarrow> (Some e, out, s)
      | (None, out, s) \<Rightarrow> (case write_many ps s of (r, out', s') \<Rightarrow> (r, out @ out', s')))"

lemma write_frame_ok:
  "write_frame p snk = (None, out, snk') \<Longrightarrow> length p \<le> MAX_FRAME \<and> out = frame_bytes p"
  by (auto simp: write_frame_def dest: write_all_spec split: if_splits)

lemma write_many_ok:
  "write_many ps snk = (None, out, snk') \<Longrightarrow>
     list_all (\<lambda>p. length p \<le> MAX_FRAME) ps \<and> out = concat (map frame_bytes ps)"
  by (induction ps snk arbitrary: out snk' rule: write_many.induct)
    (auto split: prod.splits option.splits dest: write_frame_ok)

section \<open>The claims\<close>

text \<open>
  C15. Framing is transparent however the socket cuts the stream: if a list of payloads was
  written without an error, then a reader that gets those bytes, in pieces of any sizes
  and with any interruptions, reads exactly those payloads in that order and is left with
  exactly the bytes that follow them.
\<close>

theorem frames_arrive_in_order:
  assumes "write_many ps snk = (None, out, snk')" "avail src = out @ rest"
  shows "\<exists>src'. read_many read_frame (length ps) src = (Inr ps, src') \<and> avail src' = rest"
proof -
  have "carries_frames rest src (ps @ [])"
    using write_many_ok [OF assms(1)] assms(2) by (simp add: carries_frames_def)
  from codec.read_many_all [OF this] show ?thesis by (auto simp: carries_frames_def)
qed

theorem frames_arrive_in_order_witness:
  "\<exists>src'. read_many read_frame (length [[1 :: byte, 2], [], [3]])
      [Data [0, 0], ReadErr (io_new Interrupted []), Data [0, 2, 1], Data [2, 0, 0, 0, 0, 0, 0, 0, 1, 3, 9]] =
        (Inr [[1, 2], [], [3]], src') \<and> avail src' = [9]"
  by (rule frames_arrive_in_order [where snk = "[Take 1, WriteErr (io_new Interrupted []), Take 3]"
        and out = "[0, 0, 0, 2, 1, 2, 0, 0, 0, 0, 0, 0, 0, 1, 3]" and snk' = "[]"]) code_simp+

text \<open>
  What \<open>read_frame\<close> returns is a function of the bytes that arrive and of how the
  stream ends, never of how the bytes are cut: fewer than four bytes, or fewer than the
  announced length, give the error the stream ended with; an announced length above
  65535 is refused as soon as the header is read; anything else gives the payload.
\<close>

theorem read_frame_total:
  "fst (read_frame src) = frame_of (avail src) (fault src)"
  by (rule read_frame_of)

text \<open>
  A frame that is too long to be from a peer is refused before a byte of its body is
  read: after the error, the stream stands right behind the header.
\<close>

theorem oversized_frame_refused:
  assumes "avail src = be_bytes 4 len @ rest" "MAX_FRAME < unat (len :: u32)"
  shows "\<exists>src'. read_frame src = (Inl oversized_error, src') \<and> avail src' = rest"
  using read_frame_oversized [OF assms] by blast

theorem oversized_frame_refused_witness:
  "\<exists>src'. read_frame [Data [0, 1, 0, 0], Data [5, 6]] = (Inl oversized_error, src') \<and> avail src' = [5, 6]"
  by (rule oversized_frame_refused [where len = 65536]) code_simp+

text \<open>
  Writing is all or nothing for the caller: \<open>write_frame\<close> reports success exactly when
  the header and the whole payload went out; after an error, what went out is a proper
  beginning of the frame, and nothing at all went out for a payload above 65535 bytes.
\<close>

theorem write_frame_outcome:
  "case write_frame payload snk of
     (None, out, _) \<Rightarrow> length payload \<le> MAX_FRAME \<and> out = frame_bytes payload
   | (Some e, out, _) \<Rightarrow>
       (if MAX_FRAME < length payload then e = too_large_error \<and> out = []
        else \<exists>t. t \<noteq> [] \<and> frame_bytes payload = out @ t)"
proof (cases "write_frame payload snk")
  case (fields r out snk')
  show ?thesis
  proof (cases "MAX_FRAME < length payload")
    case True
    then show ?thesis by (simp add: write_frame_def)
  next
    case False
    with fields have "write_all (frame_bytes payload) snk = (r, out, snk')"
      by (simp add: write_frame_def)
    from write_all_spec [OF this] False fields show ?thesis by (cases r) auto
  qed
qed

end
