(* ===== verification/Secure_Link.thy ===== *)
theory Secure_Link
  imports Codec
begin

text \<open>
  \<open>core/src/crypto.rs\<close>: the encrypted link.  The Noise implementation (external crate
  \<open>snow\<close>) is the parameter \<open>noise\<close>, a record of its functions; SHA-256 is the parameter
  \<open>sha256\<close>.  The stream below is the pair of scripts of the codec, together with the bytes
  written so far.  A poisoned mutex cannot be observed, since a panic ends the process,
  so the \<open>link poisoned\<close> branches have no counterpart.
\<close>

definition MAX_PLAINTEXT :: nat where
  "MAX_PLAINTEXT = 65519"

definition HANDSHAKE_TIMEOUT :: duration where
  "HANDSHAKE_TIMEOUT = secs 20"

record ('h, 'c) noise =
  n_initiator :: "bytes \<Rightarrow> rstr + 'h"
  n_responder :: "bytes \<Rightarrow> rstr + 'h"
  n_hs_write :: "'h \<Rightarrow> (rstr + bytes) \<times> 'h"
  n_hs_read :: "'h \<Rightarrow> bytes \<Rightarrow> (rstr + unit) \<times> 'h"
  n_remote_static :: "'h \<Rightarrow> bytes option"
  n_transport :: "'h \<Rightarrow> rstr + 'c"
  n_write :: "'c \<Rightarrow> bytes \<Rightarrow> (rstr + bytes) \<times> 'c"
  n_read :: "'c \<Rightarrow> bytes \<Rightarrow> (rstr + bytes) \<times> 'c"

record identity =
  id_private :: bytes
  id_public :: bytes

definition fingerprint :: "(bytes \<Rightarrow> bytes) \<Rightarrow> bytes \<Rightarrow> rstr" where
  "fingerprint sha256 public =
     join (lit '':'') (map byte_hex_upper (take 6 (sha256 public)))"

text \<open>
  The key pair of \<open>Identity::generate\<close> is drawn by the Noise library, or is its error; the pattern
  is a constant that parses.
\<close>

definition identity_generate :: "rstr + bytes \<times> bytes \<Rightarrow> identity res" where
  "identity_generate drawn =
     (case drawn of
        Inl e \<Rightarrow> Inl (Crypto e)
      | Inr (key, pub) \<Rightarrow> Inr \<lparr>id_private = key, id_public = pub\<rparr>)"

definition identity_fingerprint :: "(bytes \<Rightarrow> bytes) \<Rightarrow> identity \<Rightarrow> rstr" where
  "identity_fingerprint sha256 i = fingerprint sha256 (id_public i)"

section \<open>The stream below\<close>

record conn =
  cn_src :: source
  cn_snk :: sink
  cn_out :: bytes
  cn_timeout :: "duration option"
  cn_timeout_ok :: bool
  cn_closed :: bool

definition set_read_timeout :: "duration option \<Rightarrow> conn \<Rightarrow> conn" where
  "set_read_timeout d c = (if cn_timeout_ok c then c\<lparr>cn_timeout := d\<rparr> else c)"

definition conn_write_frame :: "bytes \<Rightarrow> conn \<Rightarrow> unit res \<times> conn" where
  "conn_write_frame p c =
     (case write_frame p (cn_snk c) of
        (None, out, snk) \<Rightarrow> (Inr (), c\<lparr>cn_out := cn_out c @ out, cn_snk := snk\<rparr>)
      | (Some e, out, snk) \<Rightarrow> (Inl (Io e), c\<lparr>cn_out := cn_out c @ out, cn_snk := snk\<rparr>))"

definition conn_read_frame :: "conn \<Rightarrow> bytes res \<times> conn" where
  "conn_read_frame c =
     (case read_frame (cn_src c) of (r, src) \<Rightarrow> (from_io r, c\<lparr>cn_src := src\<rparr>))"

section \<open>The link\<close>

record 'c link =
  lk_conn :: conn
  lk_cipher :: 'c
  lk_remote_static :: bytes

definition link_send :: "('h, 'c) noise \<Rightarrow> bytes \<Rightarrow> 'c link \<Rightarrow> unit res \<times> 'c link" where
  "link_send N payload l =
     (if MAX_PLAINTEXT < length payload
      then (Inl (Protocol (lit ''message too large for one frame'')), l)
      else case n_write N (lk_cipher l) payload of
             (Inl m, c) \<Rightarrow> (Inl (Crypto m), l\<lparr>lk_cipher := c\<rparr>)
           | (Inr ct, c) \<Rightarrow>
               (case conn_write_frame ct (lk_conn l) of
                  (r, cn) \<Rightarrow> (r, l\<lparr>lk_cipher := c, lk_conn := cn\<rparr>)))"

definition link_recv :: "('h, 'c) noise \<Rightarrow> 'c link \<Rightarrow> bytes res \<times> 'c link" where
  "link_recv N l =
     (case conn_read_frame (lk_conn l) of
        (Inl e, cn) \<Rightarrow> (Inl e, l\<lparr>lk_conn := cn\<rparr>)
      | (Inr ct, cn) \<Rightarrow>
          (case n_read N (lk_cipher l) ct of
             (Inl m, c) \<Rightarrow> (Inl (Crypto m), l\<lparr>lk_conn := cn, lk_cipher := c\<rparr>)
           | (Inr p, c) \<Rightarrow> (Inr p, l\<lparr>lk_conn := cn, lk_cipher := c\<rparr>)))"

definition link_fingerprint :: "(bytes \<Rightarrow> bytes) \<Rightarrow> 'c link \<Rightarrow> rstr" where
  "link_fingerprint sha256 l = fingerprint sha256 (lk_remote_static l)"

definition link_close :: "'c link \<Rightarrow> 'c link" where
  "link_close l = l\<lparr>lk_conn := (lk_conn l)\<lparr>cn_closed := True\<rparr>\<rparr>"

section \<open>The handshake\<close>

text \<open>A step of the handshake: write the next Noise message, or read one.\<close>

definition hs_send :: "('h, 'c) noise \<Rightarrow> 'h \<Rightarrow> conn \<Rightarrow> 'h res \<times> conn" where
  "hs_send N h c =
     (case n_hs_write N h of
        (Inl m, _) \<Rightarrow> (Inl (Crypto m), c)
      | (Inr msg, h') \<Rightarrow>
          (case conn_write_frame msg c of
             (Inl e, c') \<Rightarrow> (Inl e, c')
           | (Inr _, c') \<Rightarrow> (Inr h', c')))"

definition hs_receive :: "('h, 'c) noise \<Rightarrow> 'h \<Rightarrow> conn \<Rightarrow> 'h res \<times> conn" where
  "hs_receive N h c =
     (case conn_read_frame c of
        (Inl e, c') \<Rightarrow> (Inl e, c')
      | (Inr msg, c') \<Rightarrow>
          (case n_hs_read N h msg of
             (Inl m, _) \<Rightarrow> (Inl (Crypto m), c')
           | (Inr _, h') \<Rightarrow> (Inr h', c')))"

definition hs_then :: "'a res \<times> conn \<Rightarrow> ('a \<Rightarrow> conn \<Rightarrow> 'b res \<times> conn) \<Rightarrow> 'b res \<times> conn" where
  "hs_then r f = (case r of (Inl e, c) \<Rightarrow> (Inl e, c) | (Inr x, c) \<Rightarrow> f x c)"

definition hs_finish :: "('h, 'c) noise \<Rightarrow> 'h \<Rightarrow> conn \<Rightarrow> 'c link res \<times> conn" where
  "hs_finish N h c =
     (let remote_static = (case n_remote_static N h of None \<Rightarrow> [] | Some k \<Rightarrow> k) in
      case n_transport N h of
        Inl m \<Rightarrow> (Inl (Crypto m), c)
      | Inr cipher \<Rightarrow>
          (let c' = set_read_timeout None c in
           (Inr \<lparr>lk_conn = c', lk_cipher = cipher, lk_remote_static = remote_static\<rparr>, c')))"

definition handshake_initiator ::
  "('h, 'c) noise \<Rightarrow> identity \<Rightarrow> conn \<Rightarrow> 'c link res \<times> conn" where
  "handshake_initiator N ident c =
     (let c0 = set_read_timeout (Some HANDSHAKE_TIMEOUT) c in
      case n_initiator N (id_private ident) of
        Inl m \<Rightarrow> (Inl (Crypto m), c0)
      | Inr h0 \<Rightarrow>
          hs_then (hs_send N h0 c0) (\<lambda>h1 c1.
          hs_then (hs_receive N h1 c1) (\<lambda>h2 c2.
          hs_then (hs_send N h2 c2) (hs_finish N))))"

definition handshake_responder ::
  "('h, 'c) noise \<Rightarrow> identity \<Rightarrow> conn \<Rightarrow> 'c link res \<times> conn" where
  "handshake_responder N ident c =
     (let c0 = set_read_timeout (Some HANDSHAKE_TIMEOUT) c in
      case n_responder N (id_private ident) of
        Inl m \<Rightarrow> (Inl (Crypto m), c0)
      | Inr h0 \<Rightarrow>
          hs_then (hs_receive N h0 c0) (\<lambda>h1 c1.
          hs_then (hs_send N h1 c1) (\<lambda>h2 c2.
          hs_then (hs_receive N h2 c2) (hs_finish N))))"

lemma hs_then_simps [simp]:
  "hs_then (Inl e, c) f = (Inl e, c)"
  "hs_then (Inr x, c) f = f x c"
  by (simp_all add: hs_then_def)

section \<open>What a link carries\<close>

text \<open>
  The contract of a pair of Noise transport states, as the Noise specification has it: what
  one side encrypts, the other decrypts, in order; a ciphertext is 16 bytes longer than its
  plaintext; and receiving does not disturb the sending counter.
\<close>

definition noise_pair :: "('h, 'c) noise \<Rightarrow> ('c \<Rightarrow> 'c \<Rightarrow> bool) \<Rightarrow> bool" where
  "noise_pair N R \<longleftrightarrow>
     (\<forall>s r p. R s r \<longrightarrow> length p \<le> MAX_PLAINTEXT \<longrightarrow>
        (\<exists>ct s' r'. n_write N s p = (Inr ct, s') \<and> n_read N r ct = (Inr p, r') \<and> R s' r' \<and>
           length ct = length p + 16)) \<and>
     (\<forall>s r ct. R s r \<longrightarrow> R (snd (n_read N s ct)) r)"

lemma noise_pair_write:
  assumes "noise_pair N R" "R s r" "length p \<le> MAX_PLAINTEXT"
  obtains ct s' r' where "n_write N s p = (Inr ct, s')" "n_read N r ct = (Inr p, r')" "R s' r'"
    "length ct = length p + 16"
  using assms unfolding noise_pair_def by blast

fun decrypts :: "('h, 'c) noise \<Rightarrow> 'c \<Rightarrow> bytes list \<Rightarrow> bytes list \<Rightarrow> 'c \<Rightarrow> bool" where
  "decrypts N c [] ps c' \<longleftrightarrow> ps = [] \<and> c' = c"
| "decrypts N c (ct # cts) ps c' \<longleftrightarrow>
     (case ps of
        [] \<Rightarrow> False
      | p # ps' \<Rightarrow> fst (n_read N c ct) = Inr p \<and> decrypts N (snd (n_read N c ct)) cts ps' c')"

lemma decrypts_append:
  "decrypts N c cts ps c1 \<Longrightarrow> decrypts N c1 cts' ps' c2 \<Longrightarrow>
     decrypts N c (cts @ cts') (ps @ ps') c2"
  by (induction N c cts ps c1 rule: decrypts.induct) (auto split: list.splits)

lemma decrypts_Cons:
  "decrypts N c cts (p # ps) c' \<Longrightarrow>
     \<exists>ct cts'. cts = ct # cts' \<and> fst (n_read N c ct) = Inr p \<and>
       decrypts N (snd (n_read N c ct)) cts' ps c'"
  by (cases cts) auto

lemma decrypts_Nil: "decrypts N c cts [] c' \<Longrightarrow> cts = [] \<and> c' = c"
  by (cases cts) auto

definition carries_payloads ::
  "('h, 'c) noise \<Rightarrow> bytes \<Rightarrow> 'c \<Rightarrow> 'c link \<Rightarrow> bytes list \<Rightarrow> bool" where
  "carries_payloads N rest c' l ps \<longleftrightarrow>
     (\<exists>cts. carries_frames rest (cn_src (lk_conn l)) cts \<and> decrypts N (lk_cipher l) cts ps c')"

text \<open>The link offers its client the same contract as the codec below it.\<close>

interpretation link: message_reader "link_recv N" "carries_payloads N rest c'" for N rest c'
proof
  fix l :: "'b link" and p ps
  assume "carries_payloads N rest c' l (p # ps)"
  then obtain ct cts where carry: "carries_frames rest (cn_src (lk_conn l)) (ct # cts)"
    and d: "fst (n_read N (lk_cipher l) ct) = Inr p"
    "decrypts N (snd (n_read N (lk_cipher l) ct)) cts ps c'"
    by (auto simp: carries_payloads_def dest: decrypts_Cons)
  from codec.rd_next [OF carry] obtain src'
    where "read_frame (cn_src (lk_conn l)) = (Inr ct, src')" "carries_frames rest src' cts" by blast
  with d show "\<exists>l'. link_recv N l = (Inr p, l') \<and> carries_payloads N rest c' l' ps"
    by (auto simp: link_recv_def conn_read_frame_def carries_payloads_def
        split: prod.splits sum.splits)
qed

fun send_many :: "('h, 'c) noise \<Rightarrow> bytes list \<Rightarrow> 'c link \<Rightarrow> unit res \<times> 'c link" where
  "send_many N [] l = (Inr (), l)"
| "send_many N (p # ps) l =
     (case link_send N p l of
        (Inl e, l') \<Rightarrow> (Inl e, l')
      | (Inr _, l') \<Rightarrow> send_many N ps l')"

lemma link_send_ok:
  assumes "noise_pair N R" "R (lk_cipher l) r" "link_send N p l = (Inr u, l')"
  obtains ct r' where "cn_out (lk_conn l') = cn_out (lk_conn l) @ frame_bytes ct"
    "length ct \<le> MAX_FRAME" "fst (n_read N r ct) = Inr p" "snd (n_read N r ct) = r'"
    "R (lk_cipher l') r'"
proof -
  have len: "length p \<le> MAX_PLAINTEXT"
    using assms(3) by (auto simp: link_send_def split: if_splits)
  obtain ct s' r' where w: "n_write N (lk_cipher l) p = (Inr ct, s')" "n_read N r ct = (Inr p, r')"
    "R s' r'" using noise_pair_write [OF assms(1,2) len] by blast
  have "cn_out (lk_conn l') = cn_out (lk_conn l) @ frame_bytes ct \<and> length ct \<le> MAX_FRAME \<and>
      lk_cipher l' = s'"
    using assms(3) w len
    by (auto simp: link_send_def conn_write_frame_def split: if_splits prod.splits option.splits
        dest: write_frame_ok)
  with w that show ?thesis by simp
qed

lemma send_many_ok:
  assumes "noise_pair N R"
  shows "R (lk_cipher l) r \<Longrightarrow> send_many N ps l = (Inr u, l') \<Longrightarrow>
    \<exists>cts r'. cn_out (lk_conn l') = cn_out (lk_conn l) @ concat (map frame_bytes cts) \<and>
      list_all (\<lambda>ct. length ct \<le> MAX_FRAME) cts \<and> decrypts N r cts ps r' \<and>
      R (lk_cipher l') r'"
proof (induction ps arbitrary: l r)
  case Nil
  then show ?case by (intro exI [of _ "[]"]) simp
next
  case (Cons p ps)
  from Cons.prems(2) obtain v l1 where s: "link_send N p l = (Inr v, l1)"
    "send_many N ps l1 = (Inr u, l')" by (auto split: prod.splits sum.splits)
  obtain ct r1 where ct: "cn_out (lk_conn l1) = cn_out (lk_conn l) @ frame_bytes ct"
    "length ct \<le> MAX_FRAME" "fst (n_read N r ct) = Inr p" "snd (n_read N r ct) = r1"
    "R (lk_cipher l1) r1"
    by (rule link_send_ok [OF assms Cons.prems(1) s(1)])
  from Cons.IH [OF ct(5) s(2)] obtain cts r' where
    "cn_out (lk_conn l') = cn_out (lk_conn l1) @ concat (map frame_bytes cts)"
    "list_all (\<lambda>ct. length ct \<le> MAX_FRAME) cts" "decrypts N r1 cts ps r'" "R (lk_cipher l') r'"
    by blast
  with ct show ?case by (intro exI [of _ "ct # cts"] exI [of _ r']) simp
qed

section \<open>Concurrent senders\<close>

text \<open>
  \<open>send\<close> cut at its lock operations: a thread enters with a payload and takes the write gate,
  encrypts under the cipher mutex, and writes the frame and leaves.  The reader uses the
  cipher mutex only, at any time.  Every interleaving of any number of threads is a run.
  \<open>gs_sent\<close> records the payloads in the order in which their frames were written.
\<close>

datatype gate_pc = Outside | Holding bytes | Encrypted bytes bytes

record 'c gate_state =
  gs_holder :: "nat option"
  gs_cipher :: 'c
  gs_wire :: "bytes list"
  gs_pc :: "nat \<Rightarrow> gate_pc"
  gs_sent :: "bytes list"

datatype gate_label = Acquire nat | Encrypt nat | EncryptFailed nat | WriteOut nat | Receive

inductive gate_step :: "('h, 'c) noise \<Rightarrow> 'c gate_state \<Rightarrow> gate_label \<Rightarrow> 'c gate_state \<Rightarrow> bool"
  for N where
  acquire: "gs_holder s = None \<Longrightarrow> gs_pc s t = Outside \<Longrightarrow> length p \<le> MAX_PLAINTEXT \<Longrightarrow>
    gate_step N s (Acquire t)
      (s\<lparr>gs_holder := Some t, gs_pc := (gs_pc s)(t := Holding p)\<rparr>)"
| encrypt: "gs_pc s t = Holding p \<Longrightarrow> n_write N (gs_cipher s) p = (Inr ct, c) \<Longrightarrow>
    gate_step N s (Encrypt t)
      (s\<lparr>gs_cipher := c, gs_pc := (gs_pc s)(t := Encrypted p ct)\<rparr>)"
| encrypt_failed: "gs_pc s t = Holding p \<Longrightarrow> n_write N (gs_cipher s) p = (Inl m, c) \<Longrightarrow>
    gate_step N s (EncryptFailed t)
      (s\<lparr>gs_cipher := c, gs_holder := None, gs_pc := (gs_pc s)(t := Outside)\<rparr>)"
| write_out: "gs_pc s t = Encrypted p ct \<Longrightarrow>
    gate_step N s (WriteOut t)
      (s\<lparr>gs_wire := gs_wire s @ [ct], gs_sent := gs_sent s @ [p], gs_holder := None,
         gs_pc := (gs_pc s)(t := Outside)\<rparr>)"
| receive: "n_read N (gs_cipher s) ct = (x, c) \<Longrightarrow>
    gate_step N s Receive (s\<lparr>gs_cipher := c\<rparr>)"

inductive_cases gate_stepE: "gate_step N s l s'"

text \<open>Only the holder of the gate is inside, and the wire can be decrypted so far.\<close>

definition gate_inv ::
  "('h, 'c) noise \<Rightarrow> ('c \<Rightarrow> 'c \<Rightarrow> bool) \<Rightarrow> 'c \<Rightarrow> gate_label list \<Rightarrow> 'c gate_state \<Rightarrow> bool" where
  "gate_inv N R c0 ls s \<longleftrightarrow>
     noise_pair N R \<and>
     (\<forall>t. gs_pc s t \<noteq> Outside \<longrightarrow> gs_holder s = Some t) \<and>
     (\<forall>t p. gs_pc s t = Holding p \<longrightarrow> length p \<le> MAX_PLAINTEXT) \<and>
     (\<exists>r. decrypts N c0 (gs_wire s) (gs_sent s) r \<and>
        (if \<exists>t p ct. gs_pc s t = Encrypted p ct
         then \<forall>t p ct. gs_pc s t = Encrypted p ct \<longrightarrow>
           fst (n_read N r ct) = Inr p \<and> R (gs_cipher s) (snd (n_read N r ct))
         else R (gs_cipher s) r))"

lemma gate_inv_start:
  "noise_pair N R \<Longrightarrow> R c c0 \<Longrightarrow>
   gate_inv N R c0 [] \<lparr>gs_holder = None, gs_cipher = c, gs_wire = [], gs_pc = \<lambda>_. Outside, gs_sent = []\<rparr>"
  by (simp add: gate_inv_def)

lemma gate_inv_idle:
  assumes "gate_inv N R c0 ls s" "\<And>t p ct. gs_pc s t \<noteq> Encrypted p ct"
  obtains r where "decrypts N c0 (gs_wire s) (gs_sent s) r" "R (gs_cipher s) r"
  using assms unfolding gate_inv_def by (auto split: if_splits)

lemma gate_inv_encrypted:
  assumes "gate_inv N R c0 ls s" "gs_pc s t = Encrypted p ct"
  obtains r where "decrypts N c0 (gs_wire s) (gs_sent s) r" "fst (n_read N r ct) = Inr p"
    "R (gs_cipher s) (snd (n_read N r ct))" "gs_holder s = Some t"
proof -
  from assms obtain r where "decrypts N c0 (gs_wire s) (gs_sent s) r"
    "\<forall>t p ct. gs_pc s t = Encrypted p ct \<longrightarrow>
       fst (n_read N r ct) = Inr p \<and> R (gs_cipher s) (snd (n_read N r ct))"
    unfolding gate_inv_def by (metis (no_types, lifting))
  moreover have "gs_holder s = Some t" using assms by (auto simp: gate_inv_def)
  ultimately show ?thesis using assms(2) that by blast
qed

lemma gate_inv_base:
  "gate_inv N R c0 ls s \<Longrightarrow> noise_pair N R"
  "gate_inv N R c0 ls s \<Longrightarrow> gs_pc s t \<noteq> Outside \<Longrightarrow> gs_holder s = Some t"
  "gate_inv N R c0 ls s \<Longrightarrow> gs_pc s t = Holding p \<Longrightarrow> length p \<le> MAX_PLAINTEXT"
  by (auto simp: gate_inv_def)

lemma gate_inv_idleI:
  assumes "noise_pair N R" "\<And>t. gs_pc s t \<noteq> Outside \<Longrightarrow> gs_holder s = Some t"
    and "\<And>t p. gs_pc s t = Holding p \<Longrightarrow> length p \<le> MAX_PLAINTEXT"
    and "decrypts N c0 (gs_wire s) (gs_sent s) r"
    and "\<And>t p ct. gs_pc s t \<noteq> Encrypted p ct" "R (gs_cipher s) r"
  shows "gate_inv N R c0 ls s"
  unfolding gate_inv_def using assms by auto

lemma gate_inv_encryptedI:
  assumes "noise_pair N R" "\<And>t. gs_pc s t \<noteq> Outside \<Longrightarrow> gs_holder s = Some t"
    and "\<And>t p. gs_pc s t = Holding p \<Longrightarrow> length p \<le> MAX_PLAINTEXT"
    and "decrypts N c0 (gs_wire s) (gs_sent s) r"
    and e: "gs_pc s t = Encrypted p ct"
    and "fst (n_read N r ct) = Inr p" "R (gs_cipher s) (snd (n_read N r ct))"
  shows "gate_inv N R c0 ls s"
proof -
  have "t' = t" if "gs_pc s t' \<noteq> Outside" for t'
    using assms(2) [of t'] assms(2) [of t] that e by simp
  then have "fst (n_read N r d) = Inr q \<and> R (gs_cipher s) (snd (n_read N r d))"
    if "gs_pc s t' = Encrypted q d" for t' q d
    using that assms(5-7) by (metis gate_pc.distinct(3) gate_pc.inject(2))
  then show ?thesis unfolding gate_inv_def using assms(1-4) e by (auto intro!: exI [of _ r])
qed

lemma gate_only_holder:
  "gate_inv N R c0 ls s \<Longrightarrow> gs_pc s t \<noteq> Outside \<Longrightarrow> gs_pc s t' \<noteq> Outside \<Longrightarrow> t' = t"
  using gate_inv_base(2) by (metis option.inject)

lemma gate_step_inv:
  assumes "gate_step N s l s'" "gate_inv N R c0 ls s"
  shows "gate_inv N R c0 (ls @ [l]) s'"
  using assms(1)
proof cases
  case (acquire t p)
  have out: "gs_pc s t' = Outside" for t'
    using gate_inv_base(2) [OF assms(2), of t'] acquire by fastforce
  obtain r where "decrypts N c0 (gs_wire s) (gs_sent s) r" "R (gs_cipher s) r"
    using gate_inv_idle [OF assms(2)] out by auto
  with acquire out gate_inv_base(1) [OF assms(2)] show ?thesis
    by (intro gate_inv_idleI [where r = r]) (auto split: if_splits)
next
  case (encrypt t p ct c)
  note only = gate_only_holder [OF assms(2), of t]
  have no: "gs_pc s t' \<noteq> Encrypted q d" for t' q d using only [of t'] encrypt by auto
  obtain r where r: "decrypts N c0 (gs_wire s) (gs_sent s) r" "R (gs_cipher s) r"
    using gate_inv_idle [OF assms(2)] no by metis
  have "length p \<le> MAX_PLAINTEXT" using gate_inv_base(3) [OF assms(2)] encrypt by simp
  from noise_pair_write [OF gate_inv_base(1) [OF assms(2)] r(2) this] encrypt
  have "fst (n_read N r ct) = Inr p" "R c (snd (n_read N r ct))"
    by (metis prod.inject fst_conv snd_conv sum.inject(2))+
  then show ?thesis
    using encrypt r gate_inv_base [OF assms(2)]
    by (intro gate_inv_encryptedI [where r = r and t = t and p = p and ct = ct])
      (auto split: if_splits)
next
  case (encrypt_failed t p m c)
  note only = gate_only_holder [OF assms(2), of t]
  have no: "gs_pc s t' \<noteq> Encrypted q d" for t' q d using only [of t'] encrypt_failed by auto
  obtain r where r: "R (gs_cipher s) r" using gate_inv_idle [OF assms(2)] no by metis
  have "length p \<le> MAX_PLAINTEXT" using gate_inv_base(3) [OF assms(2)] encrypt_failed by simp
  from noise_pair_write [OF gate_inv_base(1) [OF assms(2)] r this] encrypt_failed
  have False by (metis prod.inject sum.distinct(1))
  then show ?thesis ..
next
  case (write_out t p ct)
  note only = gate_only_holder [OF assms(2), of t]
  have others: "gs_pc s t' = Outside" if "t' \<noteq> t" for t' using only [of t'] write_out that by auto
  obtain r where r: "decrypts N c0 (gs_wire s) (gs_sent s) r" "fst (n_read N r ct) = Inr p"
    "R (gs_cipher s) (snd (n_read N r ct))"
    using gate_inv_encrypted [OF assms(2)] write_out by metis
  have "decrypts N c0 (gs_wire s @ [ct]) (gs_sent s @ [p]) (snd (n_read N r ct))"
    by (rule decrypts_append [OF r(1)]) (use r in simp)
  then show ?thesis
    using write_out r others gate_inv_base(1) [OF assms(2)]
    by (intro gate_inv_idleI [where r = "snd (n_read N r ct)"]) (auto split: if_splits)
next
  case (receive ct x c)
  have keep: "R (gs_cipher s) r \<Longrightarrow> R c r" for r
    using gate_inv_base(1) [OF assms(2)] receive unfolding noise_pair_def by (metis snd_conv)
  show ?thesis
  proof (cases "\<exists>t p ct. gs_pc s t = Encrypted p ct")
    case True
    then obtain t p d where e: "gs_pc s t = Encrypted p d" by blast
    obtain r where "decrypts N c0 (gs_wire s) (gs_sent s) r" "fst (n_read N r d) = Inr p"
      "R (gs_cipher s) (snd (n_read N r d))" using gate_inv_encrypted [OF assms(2) e] by metis
    with e receive keep gate_inv_base [OF assms(2)]
    show ?thesis by (intro gate_inv_encryptedI [where r = r and t = t and p = p and ct = d]) auto
  next
    case False
    then obtain r where "decrypts N c0 (gs_wire s) (gs_sent s) r" "R (gs_cipher s) r"
      using gate_inv_idle [OF assms(2)] by metis
    with False receive keep gate_inv_base [OF assms(2)] show ?thesis
      by (intro gate_inv_idleI [where r = r]) auto
  qed
qed

interpretation gate: run_invariant "gate_step N" "gate_inv N R c0" for N R c0
  by unfold_locales (rule gate_step_inv)

definition gate_start :: "'c \<Rightarrow> 'c gate_state" where
  "gate_start c =
     \<lparr>gs_holder = None, gs_cipher = c, gs_wire = [], gs_pc = \<lambda>_. Outside, gs_sent = []\<rparr>"

section \<open>Both ends of the handshake\<close>

text \<open>
  The three messages of the XX pattern, as two Noise handshake states exchange them when
  nothing on the way changes them.
\<close>

record ('h, 'c) xx_run =
  xx_m1 :: bytes
  xx_m2 :: bytes
  xx_m3 :: bytes
  xx_initiator :: 'h
  xx_responder :: 'h
  xx_cipher_i :: 'c
  xx_cipher_r :: 'c

definition xx_exchange ::
  "('h, 'c) noise \<Rightarrow> identity \<Rightarrow> identity \<Rightarrow> ('h, 'c) xx_run \<Rightarrow> bool" where
  "xx_exchange N i r x \<longleftrightarrow>
     (case (n_initiator N (id_private i), n_responder N (id_private r)) of
        (Inr hi, Inr hr) \<Rightarrow>
          (let (w1, hi1) = n_hs_write N hi; (r1, hr1) = n_hs_read N hr (xx_m1 x);
               (w2, hr2) = n_hs_write N hr1; (r2, hi2) = n_hs_read N hi1 (xx_m2 x);
               (w3, hi3) = n_hs_write N hi2; (r3, hr3) = n_hs_read N hr2 (xx_m3 x) in
           w1 = Inr (xx_m1 x) \<and> w2 = Inr (xx_m2 x) \<and> w3 = Inr (xx_m3 x) \<and>
           r1 = Inr () \<and> r2 = Inr () \<and> r3 = Inr () \<and>
           xx_initiator x = hi3 \<and> xx_responder x = hr3 \<and>
           n_transport N hi3 = Inr (xx_cipher_i x) \<and> n_transport N hr3 = Inr (xx_cipher_r x))
      | _ \<Rightarrow> False) \<and>
     length (xx_m1 x) \<le> MAX_FRAME \<and> length (xx_m2 x) \<le> MAX_FRAME \<and> length (xx_m3 x) \<le> MAX_FRAME"

text \<open>A connection whose socket takes everything that is written to it.\<close>

definition open_conn :: "source \<Rightarrow> conn" where
  "open_conn src =
     \<lparr>cn_src = src, cn_snk = [], cn_out = [], cn_timeout = None, cn_timeout_ok = True,
      cn_closed = False\<rparr>"

lemma write_all_open: "write_all buf [] = (None, buf, [])"
  by (cases "buf = []")
    (simp_all add: write_all.simps [of buf "[]"] write_all.simps [of "[]" "[]"])

lemma conn_write_frame_open:
  "cn_snk c = [] \<Longrightarrow> length p \<le> MAX_FRAME \<Longrightarrow>
     conn_write_frame p c = (Inr (), c\<lparr>cn_out := cn_out c @ frame_bytes p\<rparr>)"
  by (cases c) (simp add: conn_write_frame_def write_frame_def write_all_open)

lemma conn_read_frame_next:
  assumes "avail (cn_src c) = frame_bytes p @ rest" "length p \<le> MAX_FRAME"
  obtains src' where "conn_read_frame c = (Inr p, c\<lparr>cn_src := src'\<rparr>)" "avail src' = rest"
  by (rule read_frame_frame [OF assms]) (simp add: conn_read_frame_def that)

lemma hs_send_open:
  "n_hs_write N h = (Inr m, h') \<Longrightarrow> cn_snk c = [] \<Longrightarrow> length m \<le> MAX_FRAME \<Longrightarrow>
     hs_send N h c = (Inr h', c\<lparr>cn_out := cn_out c @ frame_bytes m\<rparr>)"
  by (simp add: hs_send_def conn_write_frame_open)

lemma hs_receive_next:
  assumes "n_hs_read N h m = (Inr u, h')" "avail (cn_src c) = frame_bytes m @ rest"
    "length m \<le> MAX_FRAME"
  obtains src' where "hs_receive N h c = (Inr h', c\<lparr>cn_src := src'\<rparr>)" "avail src' = rest"
  by (rule conn_read_frame_next [OF assms(2,3)]) (simp add: hs_receive_def assms(1) that)

lemma initiator_completes:
  assumes x: "xx_exchange N i r x" and src: "avail src = frame_bytes (xx_m2 x) @ rest"
  obtains c' where "handshake_initiator N i (open_conn src) =
      (Inr \<lparr>lk_conn = c', lk_cipher = xx_cipher_i x,
        lk_remote_static = (case n_remote_static N (xx_initiator x) of None \<Rightarrow> [] | Some k \<Rightarrow> k)\<rparr>, c')"
    "cn_out c' = frame_bytes (xx_m1 x) @ frame_bytes (xx_m3 x)" "avail (cn_src c') = rest"
    "cn_timeout c' = None"
proof -
  from x obtain hi hi1 hi2 hi3 where h: "n_initiator N (id_private i) = Inr hi"
    "n_hs_write N hi = (Inr (xx_m1 x), hi1)" "n_hs_read N hi1 (xx_m2 x) = (Inr (), hi2)"
    "n_hs_write N hi2 = (Inr (xx_m3 x), hi3)" "xx_initiator x = hi3"
    "n_transport N hi3 = Inr (xx_cipher_i x)"
    and l: "length (xx_m1 x) \<le> MAX_FRAME" "length (xx_m2 x) \<le> MAX_FRAME" "length (xx_m3 x) \<le> MAX_FRAME"
    by (auto simp: xx_exchange_def split: sum.splits prod.splits)
  let ?c0 = "set_read_timeout (Some HANDSHAKE_TIMEOUT) (open_conn src)"
  let ?c1 = "?c0\<lparr>cn_out := frame_bytes (xx_m1 x)\<rparr>"
  have s1: "hs_send N hi ?c0 = (Inr hi1, ?c1)"
    by (subst hs_send_open [OF h(2) _ l(1)]) (simp_all add: open_conn_def set_read_timeout_def)
  obtain src' where s2: "hs_receive N hi1 ?c1 = (Inr hi2, ?c1\<lparr>cn_src := src'\<rparr>)" "avail src' = rest"
    by (rule hs_receive_next [OF h(3) _ l(2), of ?c1 rest])
      (simp_all add: open_conn_def set_read_timeout_def src)
  let ?c2 = "?c1\<lparr>cn_src := src'\<rparr>"
  have s3: "hs_send N hi2 ?c2 =
      (Inr hi3, ?c2\<lparr>cn_out := frame_bytes (xx_m1 x) @ frame_bytes (xx_m3 x)\<rparr>)"
    by (subst hs_send_open [OF h(4) _ l(3)]) (simp_all add: open_conn_def set_read_timeout_def)
  let ?c3 = "?c2\<lparr>cn_out := frame_bytes (xx_m1 x) @ frame_bytes (xx_m3 x)\<rparr>"
  have fin: "handshake_initiator N i (open_conn src) = hs_finish N hi3 ?c3"
    by (simp add: handshake_initiator_def h s1 s2 s3)
  show ?thesis
  proof (rule that [of "set_read_timeout None ?c3"])
    show "handshake_initiator N i (open_conn src) =
        (Inr \<lparr>lk_conn = set_read_timeout None ?c3, lk_cipher = xx_cipher_i x,
          lk_remote_static = (case n_remote_static N (xx_initiator x) of None \<Rightarrow> [] | Some k \<Rightarrow> k)\<rparr>,
         set_read_timeout None ?c3)"
      unfolding fin by (simp only: hs_finish_def h Let_def sum.case)
  qed (simp_all add: s2 set_read_timeout_def open_conn_def)
qed

lemma responder_completes:
  assumes x: "xx_exchange N i r x"
    and src: "avail src = frame_bytes (xx_m1 x) @ frame_bytes (xx_m3 x) @ rest"
  obtains c' where "handshake_responder N r (open_conn src) =
      (Inr \<lparr>lk_conn = c', lk_cipher = xx_cipher_r x,
        lk_remote_static = (case n_remote_static N (xx_responder x) of None \<Rightarrow> [] | Some k \<Rightarrow> k)\<rparr>, c')"
    "cn_out c' = frame_bytes (xx_m2 x)" "avail (cn_src c') = rest" "cn_timeout c' = None"
proof -
  from x obtain hr hr1 hr2 hr3 where h: "n_responder N (id_private r) = Inr hr"
    "n_hs_read N hr (xx_m1 x) = (Inr (), hr1)" "n_hs_write N hr1 = (Inr (xx_m2 x), hr2)"
    "n_hs_read N hr2 (xx_m3 x) = (Inr (), hr3)" "xx_responder x = hr3"
    "n_transport N hr3 = Inr (xx_cipher_r x)"
    and l: "length (xx_m1 x) \<le> MAX_FRAME" "length (xx_m2 x) \<le> MAX_FRAME" "length (xx_m3 x) \<le> MAX_FRAME"
    by (auto simp: xx_exchange_def split: sum.splits prod.splits)
  let ?c0 = "set_read_timeout (Some HANDSHAKE_TIMEOUT) (open_conn src)"
  obtain src1 where s1: "hs_receive N hr ?c0 = (Inr hr1, ?c0\<lparr>cn_src := src1\<rparr>)"
    "avail src1 = frame_bytes (xx_m3 x) @ rest"
    by (rule hs_receive_next [OF h(2) _ l(1), of ?c0 "frame_bytes (xx_m3 x) @ rest"])
      (simp_all add: open_conn_def set_read_timeout_def src)
  let ?c1 = "?c0\<lparr>cn_src := src1\<rparr>"
  let ?c2 = "?c1\<lparr>cn_out := frame_bytes (xx_m2 x)\<rparr>"
  have s2: "hs_send N hr1 ?c1 = (Inr hr2, ?c2)"
    by (subst hs_send_open [OF h(3) _ l(2)]) (simp_all add: open_conn_def set_read_timeout_def)
  obtain src2 where s3: "hs_receive N hr2 ?c2 = (Inr hr3, ?c2\<lparr>cn_src := src2\<rparr>)" "avail src2 = rest"
    by (rule hs_receive_next [OF h(4) _ l(3), of ?c2 rest])
      (simp_all add: open_conn_def set_read_timeout_def s1)
  let ?c3 = "?c2\<lparr>cn_src := src2\<rparr>"
  have fin: "handshake_responder N r (open_conn src) = hs_finish N hr3 ?c3"
    by (simp add: handshake_responder_def h s1 s2 s3)
  show ?thesis
  proof (rule that [of "set_read_timeout None ?c3"])
    show "handshake_responder N r (open_conn src) =
        (Inr \<lparr>lk_conn = set_read_timeout None ?c3, lk_cipher = xx_cipher_r x,
          lk_remote_static = (case n_remote_static N (xx_responder x) of None \<Rightarrow> [] | Some k \<Rightarrow> k)\<rparr>,
         set_read_timeout None ?c3)"
      unfolding fin by (simp only: hs_finish_def h Let_def sum.case)
  qed (simp_all add: s3 set_read_timeout_def open_conn_def)
qed

section \<open>An instance of the parameter\<close>

text \<open>
  A stand-in for the Noise library with which the hypotheses of the claims hold: the
  ciphertext is the plaintext followed by 16 bytes of the message counter.
\<close>

definition counter_noise :: "(nat, nat \<times> nat) noise" where
  "counter_noise =
     \<lparr>n_initiator = \<lambda>k. Inr 0, n_responder = \<lambda>k. Inr 0,
      n_hs_write = \<lambda>h. (Inr [of_nat h], Suc h),
      n_hs_read = \<lambda>h m. (if m = [of_nat h] then Inr () else Inl [], Suc h),
      n_remote_static = \<lambda>h. Some [of_nat h],
      n_transport = \<lambda>h. Inr (0, 0),
      n_write = \<lambda>(s, r) p. (Inr (p @ replicate 16 (of_nat s)), (Suc s, r)),
      n_read = \<lambda>(s, r) ct.
        if 16 \<le> length ct \<and> drop (length ct - 16) ct = replicate 16 (of_nat r)
        then (Inr (take (length ct - 16) ct), (s, Suc r)) else (Inl [], (s, r))\<rparr>"

definition counter_rel :: "nat \<times> nat \<Rightarrow> nat \<times> nat \<Rightarrow> bool" where
  "counter_rel a b \<longleftrightarrow> fst a = snd b"

lemma counter_noise_pair: "noise_pair counter_noise counter_rel"
  by (auto simp: noise_pair_def counter_noise_def counter_rel_def split: prod.splits)

lemma frame_bytes_one: "frame_bytes [b] = [0, 0, 0, 1, b]"
proof -
  have "be_bytes 4 (1 :: u32) = [0, 0, 0, 1]" by code_simp
  then show ?thesis by (simp add: frame_bytes_def)
qed

definition start_link :: "source \<Rightarrow> 'c \<Rightarrow> 'c link" where
  "start_link src c = \<lparr>lk_conn = open_conn src, lk_cipher = c, lk_remote_static = []\<rparr>"

section \<open>The claims\<close>

text \<open>
  C16. A link delivers what was sent, in order and unchanged: if the cipher states of the two
  ends match and one end sent a list of payloads without an error, then the other end,
  given those bytes in pieces of any sizes, receives exactly those payloads in that order,
  nothing of what follows them is lost, and the cipher states still match.
\<close>

theorem secure_link_delivers_in_order:
  assumes "noise_pair N R" "R (lk_cipher a) (lk_cipher b)"
    and "send_many N ps a = (Inr u, a')"
    and "cn_out (lk_conn a') = cn_out (lk_conn a) @ out"
    and "avail (cn_src (lk_conn b)) = out @ rest"
  shows "\<exists>b'. read_many (link_recv N) (length ps) b = (Inr ps, b') \<and>
    avail (cn_src (lk_conn b')) = rest \<and> R (lk_cipher a') (lk_cipher b')"
proof -
  from send_many_ok [OF assms(1-3)] obtain cts r' where
    "cn_out (lk_conn a') = cn_out (lk_conn a) @ concat (map frame_bytes cts)"
    "list_all (\<lambda>ct. length ct \<le> MAX_FRAME) cts" "decrypts N (lk_cipher b) cts ps r'"
    "R (lk_cipher a') r'" by blast
  then have "carries_payloads N rest r' b (ps @ [])"
    using assms(4,5) by (auto simp: carries_payloads_def carries_frames_def)
  from link.read_many_all [OF this] \<open>R (lk_cipher a') r'\<close> show ?thesis
    by (auto simp: carries_payloads_def carries_frames_def dest: decrypts_Nil)
qed

theorem secure_link_delivers_in_order_witness:
  "\<exists>b'. read_many (link_recv counter_noise) (length [[7 :: byte], [8, 9]])
      (start_link [Data [0, 0, 0], Data (17 # 7 # replicate 16 0 @ [0, 0, 0, 18, 8, 9] @ replicate 16 1)] (0, 0)) =
        (Inr [[7], [8, 9]], b') \<and>
    avail (cn_src (lk_conn b')) = [] \<and> counter_rel (2, 0) (lk_cipher b')"
proof -
  let ?a = "start_link [] (0 :: nat, 0 :: nat)"
  let ?r = "send_many counter_noise [[7], [8, 9]] ?a"
  have s: "?r = (Inr (), snd ?r)" "lk_cipher (snd ?r) = (2, 0)"
    "cn_out (lk_conn (snd ?r)) = cn_out (lk_conn ?a) @
       [0, 0, 0, 17, 7] @ replicate 16 0 @ [0, 0, 0, 18, 8, 9] @ replicate 16 1"
    by code_simp+
  show ?thesis
    by (rule secure_link_delivers_in_order
          [OF counter_noise_pair _ s(1) s(3), where rest = "[]", unfolded s(2)])
      (code_simp+)
qed



text \<open>
  C26. The two handshake functions speak the same pattern: when each side is given what the
  other writes, in pieces of any sizes, both return a link; the dialling side has written
  the first and third message and the listening side the second; neither has read a byte
  past the handshake, so encrypted frames that follow closely are not lost; and reads
  block again.
\<close>

theorem handshake_completes:
  assumes "xx_exchange N i r x"
    and "avail src_i = frame_bytes (xx_m2 x) @ rest_i"
    and "avail src_r = frame_bytes (xx_m1 x) @ frame_bytes (xx_m3 x) @ rest_r"
  shows "\<exists>li ci lr cr.
    handshake_initiator N i (open_conn src_i) = (Inr li, ci) \<and>
    handshake_responder N r (open_conn src_r) = (Inr lr, cr) \<and>
    lk_cipher li = xx_cipher_i x \<and> lk_cipher lr = xx_cipher_r x \<and>
    cn_out ci = frame_bytes (xx_m1 x) @ frame_bytes (xx_m3 x) \<and>
    cn_out cr = frame_bytes (xx_m2 x) \<and>
    avail (cn_src (lk_conn li)) = rest_i \<and> avail (cn_src (lk_conn lr)) = rest_r \<and>
    cn_timeout (lk_conn li) = None \<and> cn_timeout (lk_conn lr) = None"
proof -
  obtain ci where "handshake_initiator N i (open_conn src_i) =
      (Inr \<lparr>lk_conn = ci, lk_cipher = xx_cipher_i x,
        lk_remote_static = (case n_remote_static N (xx_initiator x) of None \<Rightarrow> [] | Some k \<Rightarrow> k)\<rparr>, ci)"
    "cn_out ci = frame_bytes (xx_m1 x) @ frame_bytes (xx_m3 x)" "avail (cn_src ci) = rest_i"
    "cn_timeout ci = None" by (rule initiator_completes [OF assms(1,2)])
  moreover obtain cr where "handshake_responder N r (open_conn src_r) =
      (Inr \<lparr>lk_conn = cr, lk_cipher = xx_cipher_r x,
        lk_remote_static = (case n_remote_static N (xx_responder x) of None \<Rightarrow> [] | Some k \<Rightarrow> k)\<rparr>, cr)"
    "cn_out cr = frame_bytes (xx_m2 x)" "avail (cn_src cr) = rest_r" "cn_timeout cr = None"
    by (rule responder_completes [OF assms(1,3)])
  ultimately show ?thesis by (intro exI conjI) (assumption | simp)+
qed

theorem handshake_completes_witness:
  "\<exists>li ci lr cr.
    handshake_initiator counter_noise \<lparr>id_private = [1], id_public = [2]\<rparr>
      (open_conn [Data [0, 0, 0, 1, 1, 99]]) = (Inr li, ci) \<and>
    handshake_responder counter_noise \<lparr>id_private = [3], id_public = [4]\<rparr>
      (open_conn [Data [0, 0, 0, 1, 0, 0], Data [0, 0, 1, 2]]) = (Inr lr, cr) \<and>
    lk_cipher li = (0, 0) \<and> lk_cipher lr = (0, 0) \<and>
    cn_out ci = frame_bytes [0] @ frame_bytes [2] \<and> cn_out cr = frame_bytes [1] \<and>
    avail (cn_src (lk_conn li)) = [99] \<and> avail (cn_src (lk_conn lr)) = [] \<and>
    cn_timeout (lk_conn li) = None \<and> cn_timeout (lk_conn lr) = None"
  using handshake_completes
    [where x = "\<lparr>xx_m1 = [0], xx_m2 = [1], xx_m3 = [2], xx_initiator = 3, xx_responder = 3,
        xx_cipher_i = (0, 0), xx_cipher_r = (0, 0)\<rparr>"
      and N = counter_noise and i = "\<lparr>id_private = [1], id_public = [2]\<rparr>"
      and r = "\<lparr>id_private = [3], id_public = [4]\<rparr>"
      and src_i = "[Data [0, 0, 0, 1, 1, 99]]" and rest_i = "[99]"
      and src_r = "[Data [0, 0, 0, 1, 0, 0], Data [0, 0, 1, 2]]" and rest_r = "[]"]
  by (simp add: xx_exchange_def counter_noise_def MAX_FRAME_def frame_bytes_one)

end
