(* ===== verification/Node_State.thy ===== *)
theory Node_State
  imports Names History Rate_Limiter Secure_Link
begin

text \<open>
  The state of a node (\<open>State\<close>, \<open>Node\<close> and \<open>Transfers\<close> of \<open>core/src/mesh.rs\<close> and
  \<open>core/src/files.rs\<close>), what a handler can see of the world around it, and the primitive
  operations every handler is made of: emitting an event, recording a line, sending on a
  link, closing a link, spawning a thread.

  A handler is a function on \<open>node\<close>.  What it does to the world is kept in the last fields
  of the record: the events sent to the user interface, the payloads that went out on each
  link, the links and listeners closed, the threads started, the disk.  A link is a number,
  the identity of its \<open>Arc\<close>.
\<close>

section \<open>Types\<close>

datatype role = Host | Joiner

datatype peer_state = Connecting | Connected | Disconnected | Failed

definition peer_state_as_str :: "peer_state \<Rightarrow> rstr" where
  "peer_state_as_str s =
     (case s of
        Connecting \<Rightarrow> lit ''Connecting''
      | Connected \<Rightarrow> lit ''Connected''
      | Disconnected \<Rightarrow> lit ''Disconnected''
      | Failed \<Rightarrow> lit ''Failed'')"

datatype event =
    EvStatus rstr
  | EvSystem rstr
  | EvRoomOpened rstr rstr rstr u64
  | EvJoined rstr rstr
  | EvJoinRequest rstr rstr rstr rstr
  | EvJoinResolved rstr bool
  | EvPeer rstr rstr peer_state rstr
  | EvChat rstr rstr i64 rstr bool
  | EvFileOffer rstr rstr rstr u64
  | EvFileProgress rstr rstr rstr u64 u64 bool
  | EvFileFinished rstr rstr bool bool rstr
  | EvError rstr
  | EvRoomClosed rstr

type_synonym link_id = nat

record peer =
  p_info :: peer_info
  p_link :: link_id

record pending =
  pd_info :: peer_info
  pd_link :: link_id

datatype decision = Accept | Decline rstr

record pending_offer =
  po_peer_id :: rstr
  po_peer_name :: rstr
  po_name :: rstr
  po_size :: u64
  po_sha256 :: rstr

text \<open>
  \<open>ai_hashed\<close> is what \<open>hasher\<close> was fed so far; \<open>ai_file\<close> is the open file and holds the
  path as well.
\<close>

record active_in =
  ai_file :: file_handle
  ai_name :: rstr
  ai_size :: u64
  ai_got :: u64
  ai_next_seq :: u32
  ai_hashed :: bytes
  ai_expect_sha :: rstr
  ai_peer_id :: rstr
  ai_peer_name :: rstr
  ai_last_emit :: instant

text \<open>
  A \<open>Sender<Decision>\<close> among the waiters is the number of its channel; the queues of the
  channels are in \<open>nd_channels\<close>, where the thread that holds the receiver finds them.
\<close>

record transfers =
  tr_waiters :: "(bytes, nat) hmap"
  tr_out_peer :: "(bytes, rstr) hmap"
  tr_offers :: "(bytes, pending_offer) hmap"
  tr_active :: "(bytes, active_in) hmap"

definition transfers_default :: transfers where
  "transfers_default = \<lparr>tr_waiters = [], tr_out_peer = [], tr_offers = [], tr_active = []\<rparr>"

text \<open>
  The threads, and where a thread that waits has got to: \<open>SendFileTo\<close> becomes \<open>OutWaiting\<close>
  (for the answer, on a channel) and \<open>OutSending\<close> (the chunks); a dialling thread counts its
  attempts, and is \<open>Called\<close> while it waits for the reply on its link; a held mesh call is
  \<open>MeshCall\<close> with its deadline.  \<open>Joining\<close> is the caller of \<open>join\<close> while it connects, with the
  \<open>me\<close> and \<open>room\<close> it has read.
\<close>

record out_progress =
  op_src :: source
  op_sent :: u64
  op_seq :: u32
  op_last :: instant

datatype task =
    AcceptLoop nat
  | HandleIncoming link_id rstr
  | Greeting link_id rstr
  | MeshCall link_id peer_info instant
  | Reader peer
  | DialPeer peer_info
  | Dialling peer_info transport_kind nat rstr
  | Called peer_info transport_kind nat link_id
  | Joining peer_info rstr
  | AwaitWelcome link_id
  | SendFileTo peer path rstr u64 rstr
  | OutWaiting peer bytes nat path rstr u64
  | OutSending peer bytes rstr u64 out_progress

record state =
  st_role :: "role option"
  st_kind :: "transport_kind option"
  st_room :: rstr
  st_me :: peer_info
  st_listener :: "nat option"
  st_peers :: "(peer_id, peer) hmap"
  st_roster :: "(peer_id, peer_info) hmap"
  st_pending :: "(rstr, pending) hmap"
  st_history :: "chat_record list"
  st_open_until :: "instant option"
  st_limiter :: rate_limiter

record node = state +
  nd_transfers :: transfers
  nd_running :: bool
  nd_req_seq :: u64
  nd_peer_state :: "(link_id, peer_state) hmap"
  nd_events :: "event list"
  nd_wire :: "(link_id \<times> bytes) list"
  nd_closed :: "link_id list"
  nd_unlistened :: "nat list"
  nd_spawned :: "task list"
  nd_channels :: "decision list list"
  nd_disk :: disk

text \<open>
  What a handler sees of its surroundings: the two clocks, the JSON library, SHA-256, the
  fingerprint of the key at the other end of a link, the random bytes it would draw, and
  the errors the links would give.
\<close>

record env =
  e_now :: instant
  e_ts :: i64
  e_to_json :: to_json
  e_from_json :: from_json
  e_sha256 :: "bytes \<Rightarrow> bytes"
  e_fingerprint :: "link_id \<Rightarrow> rstr"
  e_random8 :: bytes
  e_random16 :: bytes
  e_fault :: "link_id \<Rightarrow> bytes \<Rightarrow> error option"

definition node_new :: "rstr \<Rightarrow> rstr \<Rightarrow> rstr \<Rightarrow> disk \<Rightarrow> node" where
  "node_new new_peer_id own_fingerprint display_name d =
     \<lparr>st_role = None, st_kind = None, st_room = [],
      st_me = \<lparr>pi_id = new_peer_id, pi_name = sanitize_name display_name, pi_addr = [],
               pi_fingerprint = own_fingerprint\<rparr>,
      st_listener = None, st_peers = [], st_roster = [], st_pending = [], st_history = [],
      st_open_until = None, st_limiter = default_policy,
      nd_transfers = transfers_default, nd_running = False, nd_req_seq = 1,
      nd_peer_state = [], nd_events = [], nd_wire = [], nd_closed = [], nd_unlistened = [],
      nd_spawned = [], nd_channels = [], nd_disk = d\<rparr>"

section \<open>Primitive operations\<close>

definition emit :: "event \<Rightarrow> node \<Rightarrow> node" where
  "emit e nd = nd\<lparr>nd_events := nd_events nd @ [e]\<rparr>"

definition record_line_to :: "chat_record \<Rightarrow> node \<Rightarrow> node" where
  "record_line_to r nd = nd\<lparr>st_history := st_history nd @ [r]\<rparr>"

definition spawn :: "task \<Rightarrow> node \<Rightarrow> node" where
  "spawn t nd = nd\<lparr>nd_spawned := nd_spawned nd @ [t]\<rparr>"

definition close_link :: "link_id \<Rightarrow> node \<Rightarrow> node" where
  "close_link l nd = nd\<lparr>nd_closed := nd_closed nd @ [l]\<rparr>"

definition close_listener :: "nat \<Rightarrow> node \<Rightarrow> node" where
  "close_listener l nd = nd\<lparr>nd_unlistened := nd_unlistened nd @ [l]\<rparr>"

text \<open>
  \<open>SecureLink::send\<close> as a handler sees it: a payload that is too long is refused before
  anything else; otherwise it goes out, or the link gives an error.
\<close>

definition wire_send :: "env \<Rightarrow> link_id \<Rightarrow> bytes \<Rightarrow> node \<Rightarrow> unit res \<times> node" where
  "wire_send env l payload nd =
     (if MAX_PLAINTEXT < length payload
      then (Inl (Protocol (lit ''message too large for one frame'')), nd)
      else case e_fault env l payload of
             Some e \<Rightarrow> (Inl e, nd)
           | None \<Rightarrow> (Inr (), nd\<lparr>nd_wire := nd_wire nd @ [(l, payload)]\<rparr>))"

definition control_send :: "env \<Rightarrow> link_id \<Rightarrow> control \<Rightarrow> node \<Rightarrow> unit res \<times> node" where
  "control_send env l c nd =
     (case encode_control (e_to_json env) c of
        Inl e \<Rightarrow> (Inl e, nd)
      | Inr bs \<Rightarrow> wire_send env l bs nd)"

definition peer_send :: "env \<Rightarrow> peer \<Rightarrow> control \<Rightarrow> node \<Rightarrow> unit res \<times> node" where
  "peer_send env p c nd = control_send env (p_link p) c nd"

text \<open>A new \<open>channel()\<close>, and \<open>Sender::send\<close>.\<close>

definition new_channel :: "node \<Rightarrow> nat \<times> node" where
  "new_channel nd = (length (nd_channels nd), nd\<lparr>nd_channels := nd_channels nd @ [[]]\<rparr>)"

definition channel_send :: "nat \<Rightarrow> decision \<Rightarrow> node \<Rightarrow> node" where
  "channel_send n d nd = nd\<lparr>nd_channels := (nd_channels nd)[n := (nd_channels nd ! n) @ [d]]\<rparr>"

definition with_transfers :: "(transfers \<Rightarrow> transfers) \<Rightarrow> node \<Rightarrow> node" where
  "with_transfers f nd = nd\<lparr>nd_transfers := f (nd_transfers nd)\<rparr>"

section \<open>Accessors\<close>

definition connected_peers :: "node \<Rightarrow> peer list" where
  "connected_peers nd = hm_values (st_peers nd)"

definition peer_by_id :: "rstr \<Rightarrow> node \<Rightarrow> peer option" where
  "peer_by_id k nd = hm_get (st_peers nd) k"

definition peer_names :: "node \<Rightarrow> rstr list" where
  "peer_names nd = map (\<lambda>p. pi_name (p_info p)) (hm_values (st_peers nd))"

definition is_host :: "node \<Rightarrow> bool" where
  "is_host nd \<longleftrightarrow> st_role nd = Some Host"

definition set_display_name :: "rstr \<Rightarrow> node \<Rightarrow> node" where
  "set_display_name name nd = nd\<lparr>st_me := (st_me nd)\<lparr>pi_name := sanitize_name name\<rparr>\<rparr>"

definition kind_text :: "node \<Rightarrow> rstr" where
  "kind_text nd = (case st_kind nd of None \<Rightarrow> lit ''-'' | Some k \<Rightarrow> kind_as_str k)"

definition pending_requests :: "node \<Rightarrow> (rstr \<times> rstr) list" where
  "pending_requests nd = map (\<lambda>(k, v). (k, pi_name (pd_info v))) (st_pending nd)"

definition export_history ::
  "fmt \<Rightarrow> json_export \<Rightarrow> env \<Rightarrow> path \<Rightarrow> rstr option \<Rightarrow> node \<Rightarrow> unit res \<times> node" where
  "export_history fmt_full json env path ext nd =
     (case export fmt_full json (e_ts env) path ext (st_room nd) (kind_text nd) (st_history nd)
             (nd_disk nd) of
        (r, d) \<Rightarrow> (r, nd\<lparr>nd_disk := d\<rparr>))"

definition ensure_idle :: "node \<Rightarrow> unit res" where
  "ensure_idle nd =
     (if nd_running nd
      then Inl (Config (lit ''you are already in a room - leave it first'')) else Inr ())"

section \<open>Facts about the primitives\<close>

named_theorems node_ops
declare emit_def [node_ops] record_line_to_def [node_ops] spawn_def [node_ops]
  close_link_def [node_ops] close_listener_def [node_ops]
  new_channel_def [node_ops] channel_send_def [node_ops] with_transfers_def [node_ops]

text \<open>
  The bytes a control message puts on a link, if it goes out at all.
\<close>

definition delivered :: "env \<Rightarrow> link_id \<Rightarrow> control \<Rightarrow> (link_id \<times> bytes) list" where
  "delivered env l c =
     (case encode_control (e_to_json env) c of
        Inl _ \<Rightarrow> []
      | Inr bs \<Rightarrow> if MAX_PLAINTEXT < length bs \<or> e_fault env l bs \<noteq> None then [] else [(l, bs)])"

text \<open>Sending only adds to the wire.\<close>

lemma wire_send_result:
  "snd (wire_send env l bs nd) =
     nd\<lparr>nd_wire := nd_wire nd @
       (if MAX_PLAINTEXT < length bs \<or> e_fault env l bs \<noteq> None then [] else [(l, bs)])\<rparr>"
  by (auto simp: wire_send_def split: option.splits)

lemma control_send_result:
  "snd (control_send env l c nd) = nd\<lparr>nd_wire := nd_wire nd @ delivered env l c\<rparr>"
  by (auto simp: control_send_def wire_send_result delivered_def split: sum.splits)

lemma control_send_split:
  obtains r where "control_send env l c nd = (r, nd\<lparr>nd_wire := nd_wire nd @ delivered env l c\<rparr>)"
    "r = Inr () \<longleftrightarrow> delivered env l c \<noteq> []"
proof -
  have "fst (control_send env l c nd) = Inr () \<longleftrightarrow> delivered env l c \<noteq> []"
    by (auto simp: control_send_def wire_send_def delivered_def split: sum.splits option.splits)
  then show ?thesis using that control_send_result by (metis prod.collapse)
qed

lemma control_send_eq:
  "control_send env l c nd = (r, nd') \<Longrightarrow>
     nd' = nd\<lparr>nd_wire := nd_wire nd @ delivered env l c\<rparr> \<and> (r = Inr () \<longleftrightarrow> delivered env l c \<noteq> [])"
  by (rule control_send_split [of env l c nd]) simp

lemma wire_send_eq:
  "wire_send env l bs nd = (r, nd') \<Longrightarrow>
     nd' = nd\<lparr>nd_wire := nd_wire nd @
       (if MAX_PLAINTEXT < length bs \<or> e_fault env l bs \<noteq> None then [] else [(l, bs)])\<rparr>"
  using wire_send_result [of env l bs nd] by simp

lemmas send_results [node_ops] = control_send_result wire_send_result peer_send_def

text \<open>
  What a node is apart from its outputs.  A loop whose body leaves this alone leaves it
  alone; the locale turns that into rewrite rules for every field.
\<close>

definition quiet :: "node \<Rightarrow> node" where
  "quiet nd = nd\<lparr>st_history := [], nd_peer_state := [], nd_events := [], nd_wire := [],
                nd_closed := [], nd_unlistened := []\<rparr>"

lemma quiet_fields:
  assumes "quiet a = quiet b"
  shows "st_role a = st_role b" "st_kind a = st_kind b" "st_room a = st_room b"
    "st_me a = st_me b" "st_listener a = st_listener b" "st_peers a = st_peers b"
    "st_roster a = st_roster b" "st_pending a = st_pending b"
    "st_open_until a = st_open_until b" "st_limiter a = st_limiter b"
    "nd_transfers a = nd_transfers b" "nd_running a = nd_running b"
    "nd_req_seq a = nd_req_seq b" "nd_spawned a = nd_spawned b"
    "nd_channels a = nd_channels b" "nd_disk a = nd_disk b"
  using assms by (cases a; cases b; simp add: quiet_def)+

locale quiet_loop =
  fixes body :: "'x \<Rightarrow> node \<Rightarrow> node"
  assumes quiet_body: "quiet (body x nd) = quiet nd"
begin

lemma quiet_fold: "quiet (fold body xs nd) = quiet nd"
  by (induction xs arbitrary: nd) (simp_all add: quiet_body)

lemmas fold_fields [simp] = quiet_fields [OF quiet_fold]

end

text \<open>
  A loop that sends to one peer after the other: the body may react to an error with an
  event, but all it puts on the wire is what it sends to its peer, the only link it may
  close is that peer's, and it touches nothing else.
\<close>

locale send_loop =
  fixes body :: "peer \<Rightarrow> node \<Rightarrow> node" and out :: "peer \<Rightarrow> (link_id \<times> bytes) list"
    and shut :: "peer \<Rightarrow> link_id list"
  assumes body_only: "\<exists>evs. body p nd =
    nd\<lparr>nd_wire := nd_wire nd @ out p, nd_events := nd_events nd @ evs,
       nd_closed := nd_closed nd @ shut p\<rparr>"
begin

lemma loop_only:
  "\<exists>evs. fold body ps nd =
     nd\<lparr>nd_wire := nd_wire nd @ concat (map out ps), nd_events := nd_events nd @ evs,
        nd_closed := nd_closed nd @ concat (map shut ps)\<rparr>"
proof (induction ps arbitrary: nd)
  case Nil
  show ?case by (rule exI [of _ "[]"]) simp
next
  case (Cons p ps)
  obtain e1 where 1: "body p nd = nd\<lparr>nd_wire := nd_wire nd @ out p,
      nd_events := nd_events nd @ e1, nd_closed := nd_closed nd @ shut p\<rparr>"
    using body_only by blast
  obtain e2 where "fold body ps (body p nd) = (body p nd)\<lparr>nd_wire := nd_wire (body p nd) @
      concat (map out ps), nd_events := nd_events (body p nd) @ e2,
      nd_closed := nd_closed (body p nd) @ concat (map shut ps)\<rparr>" using Cons by blast
  with 1 show ?case by (intro exI [of _ "e1 @ e2"]) simp
qed

lemma loop_outputs [simp]:
  "nd_wire (fold body ps nd) = nd_wire nd @ concat (map out ps)"
  "nd_closed (fold body ps nd) = nd_closed nd @ concat (map shut ps)"
  "st_history (fold body ps nd) = st_history nd"
  "nd_peer_state (fold body ps nd) = nd_peer_state nd"
proof -
  obtain evs where "fold body ps nd =
      nd\<lparr>nd_wire := nd_wire nd @ concat (map out ps), nd_events := nd_events nd @ evs,
        nd_closed := nd_closed nd @ concat (map shut ps)\<rparr>"
    using loop_only by blast
  then show "nd_wire (fold body ps nd) = nd_wire nd @ concat (map out ps)"
    "nd_closed (fold body ps nd) = nd_closed nd @ concat (map shut ps)"
    "st_history (fold body ps nd) = st_history nd"
    "nd_peer_state (fold body ps nd) = nd_peer_state nd" by simp_all
qed

end

sublocale send_loop \<subseteq> quiet: quiet_loop body
proof
  fix p nd
  obtain evs where "body p nd = nd\<lparr>nd_wire := nd_wire nd @ out p,
      nd_events := nd_events nd @ evs, nd_closed := nd_closed nd @ shut p\<rparr>"
    using body_only by blast
  then show "quiet (body p nd) = quiet nd" by (simp add: quiet_def)
qed

interpretation closing: quiet_loop close_link
  by unfold_locales (simp add: node_ops quiet_def)

lemma closed_fold [simp]: "nd_closed (fold close_link ls nd) = nd_closed nd @ ls"
  by (induction ls arbitrary: nd) (simp_all add: node_ops)

text \<open>An operation that only adds to the events.\<close>

lemma emit_fields [simp]:
  "quiet (emit e nd) = quiet nd" "nd_events (emit e nd) = nd_events nd @ [e]"
  by (simp_all add: node_ops quiet_def)

section \<open>An instance of the surroundings\<close>

text \<open>
  Concrete surroundings with which the hypotheses of the claims hold: a toy form of the
  messages the claims use that parses back, a toy hash, links without faults.
\<close>

fun sample_to_json :: to_json where
  "sample_to_json (FileDone t) = Inr (1 # map of_nat t)"
| "sample_to_json (FileAccept t) = Inr (2 # map of_nat t)"
| "sample_to_json (Chat mid sender name ts body) = Inr (3 # map of_nat body)"
| "sample_to_json (PeerJoined info) = Inr (4 # map of_nat (pi_id info))"
| "sample_to_json (Welcome room h peers) = Inr (5 # map of_nat room)"
| "sample_to_json Bye = Inr [6]"
| "sample_to_json (FileAbort t r) = Inr (7 # map of_nat t)"
| "sample_to_json (PeerLeft k name) = Inr (8 # map of_nat k)"
| "sample_to_json _ = Inr [9]"

definition sample_from_json :: from_json where
  "sample_from_json bs =
     (case bs of
        [] \<Rightarrow> Inl (lit ''empty'')
      | b # rest \<Rightarrow>
          if b = 1 then Inr (FileDone (map unat rest))
          else if b = 2 then Inr (FileAccept (map unat rest))
          else if b = 6 then Inr Bye else Inl (lit ''unknown''))"

definition sample_env :: env where
  "sample_env =
     \<lparr>e_now = 1000, e_ts = 7, e_to_json = sample_to_json, e_from_json = sample_from_json,
      e_sha256 = \<lambda>bs. [of_nat (length bs), foldr (+) bs 0], e_fingerprint = \<lambda>_. lit ''AB'',
      e_random8 = replicate 8 1, e_random16 = replicate 16 2, e_fault = \<lambda>_ _. None\<rparr>"

definition sample_disk :: disk where
  "sample_disk = \<lparr>dk_files = [], dk_create = \<lambda>_. None, dk_room = \<lambda>_. None\<rparr>"

definition sample_info :: "string \<Rightarrow> peer_info" where
  "sample_info k = \<lparr>pi_id = lit k, pi_name = lit k, pi_addr = lit ''a'', pi_fingerprint = lit ''f''\<rparr>"

definition sample_node :: node where
  "sample_node = node_new (lit ''me'') (lit ''AB'') (lit ''Ann'') sample_disk"

end
