(* ===== verification/Files.thy ===== *)
theory Files
  imports Node_State
begin

text \<open>
  \<open>core/src/files.rs\<close>: file transfers over the links of a node.  The receiving side is
  \<open>handle_file_control\<close>, \<open>respond_offer\<close>, \<open>handle_chunk\<close> and \<open>complete_incoming\<close>; the sending
  side is \<open>send_file\<close> and the thread \<open>send_file_to\<close>, cut where it waits for the answer and
  after every chunk, since other threads run there.

  A file that is read is a script of reads, as a socket is.
\<close>

definition PROGRESS_INTERVAL :: duration where
  "PROGRESS_INTERVAL = millis 150"

definition OFFER_TIMEOUT :: duration where
  "OFFER_TIMEOUT = secs 300"

section \<open>Hashing a file\<close>

text \<open>How much a script of reads can still deliver; every successful read shrinks it.\<close>

definition src_size :: "source \<Rightarrow> nat" where
  "src_size src = sum_list (map (\<lambda>ev. case ev of Data d \<Rightarrow> Suc (length d) | ReadErr _ \<Rightarrow> 1) src)"

lemma stream_read_src_size:
  "stream_read n src = (Inr d, src') \<Longrightarrow> 0 < n \<Longrightarrow> d \<noteq> [] \<Longrightarrow> src_size src' < src_size src"
  by (induction n src rule: stream_read.induct) (auto simp: src_size_def split: if_splits)

lemma stream_read_src_size_rev:
  "(Inr d, src') = stream_read n src \<Longrightarrow> 0 < n \<Longrightarrow> d \<noteq> [] \<Longrightarrow> src_size src' < src_size src"
  by (metis stream_read_src_size)

function hash_loop :: "source \<Rightarrow> bytes \<Rightarrow> io_error + bytes" where
  "hash_loop src fed =
     (case stream_read 65536 src of
        (Inl e, _) \<Rightarrow> Inl e
      | (Inr d, src') \<Rightarrow> if d = [] then Inr fed else hash_loop src' (fed @ d))"
  by pat_completeness auto
termination
  by (relation "measure (\<lambda>(src, _). src_size src)") (auto intro: stream_read_src_size_rev)

declare hash_loop.simps [simp del]

definition hash_file :: "(bytes \<Rightarrow> bytes) \<Rightarrow> io_error + source \<Rightarrow> rstr res" where
  "hash_file sha256 opened =
     res_bind (from_io opened) (\<lambda>src.
     res_bind (from_io (hash_loop src [])) (\<lambda>fed. Inr (hex (sha256 fed))))"

section \<open>The sending side\<close>

definition finish_out :: "bytes \<Rightarrow> rstr \<Rightarrow> rstr \<Rightarrow> bool \<Rightarrow> rstr \<Rightarrow> node \<Rightarrow> node" where
  "finish_out tid id_hex name ok detail nd =
     emit (EvFileFinished id_hex name False ok detail)
       (with_transfers (\<lambda>t. t\<lparr>tr_waiters := hm_remove tid (tr_waiters t),
                              tr_out_peer := hm_remove tid (tr_out_peer t)\<rparr>) nd)"

text \<open>
  \<open>send_file\<close>: \<open>meta\<close> is what \<open>std::fs::metadata\<close> gives, whether it is a regular file and
  its size; \<open>opened\<close> the script of reads of the hashing pass; \<open>file_name\<close> the last
  component of the path, where it has one.
\<close>

definition send_file ::
  "env \<Rightarrow> path \<Rightarrow> rstr option \<Rightarrow> io_error + bool \<times> u64 \<Rightarrow> io_error + source \<Rightarrow> node \<Rightarrow>
   unit res \<times> node" where
  "send_file env path file_name meta opened nd =
     (let peers = connected_peers nd in
      if peers = []
      then (Inl (Config (lit ''there is nobody connected to send a file to'')), nd)
      else case meta of
        Inl e \<Rightarrow> (Inl (Io e), nd)
      | Inr (is_file, fsize) \<Rightarrow>
          if \<not> is_file then (Inl (Config (lit ''that is not a regular file'')), nd)
          else
            (let name = safe_file_name (case file_name of None \<Rightarrow> lit ''file.bin'' | Some n \<Rightarrow> n);
                 nd1 = emit (EvStatus (lit ''Hashing '' @ name @ lit '' ('' @ human_size fsize @
                         lit '')...'')) nd in
             case hash_file (e_sha256 env) opened of
               Inl e \<Rightarrow> (Inl e, nd1)
             | Inr sha \<Rightarrow>
                 (Inr (), fold (\<lambda>p. spawn (SendFileTo p path name fsize sha)) peers nd1)))"

text \<open>\<open>send_file_to\<close> up to the wait for the answer.\<close>

definition send_offer ::
  "env \<Rightarrow> peer \<Rightarrow> path \<Rightarrow> rstr \<Rightarrow> u64 \<Rightarrow> rstr \<Rightarrow> node \<Rightarrow> task option \<times> node" where
  "send_offer env p path name fsize sha nd =
     (let tid = e_random16 env; id_hex = hex tid; (chan, nd0) = new_channel nd;
          nd1 = with_transfers (\<lambda>t. t\<lparr>tr_waiters := hm_insert tid chan (tr_waiters t),
                  tr_out_peer := hm_insert tid (pi_id (p_info p)) (tr_out_peer t)\<rparr>) nd0 in
      case peer_send env p (FileOffer id_hex name fsize sha) nd1 of
        (Inl e, nd2) \<Rightarrow>
          (None, finish_out tid id_hex name False
                   (lit ''could not send the offer: '' @ show_error e) nd2)
      | (Inr _, nd2) \<Rightarrow>
          (Some (OutWaiting p tid chan path name fsize),
           emit (EvStatus (lit ''Offered '' @ name @ lit '' to '' @ pi_name (p_info p) @
             lit '' - waiting for a reply'')) nd2))"

text \<open>What \<open>recv_timeout\<close> gives: the first decision, or nothing in time.\<close>

definition recv_decision :: "nat \<Rightarrow> node \<Rightarrow> decision option" where
  "recv_decision chan nd = (case nd_channels nd ! chan of [] \<Rightarrow> None | d # _ \<Rightarrow> Some d)"

definition send_answered ::
  "env \<Rightarrow> peer \<Rightarrow> bytes \<Rightarrow> nat \<Rightarrow> rstr \<Rightarrow> u64 \<Rightarrow> io_error + source \<Rightarrow> node \<Rightarrow>
   task option \<times> node" where
  "send_answered env p tid chan name fsize opened nd =
     (let id_hex = hex tid in
      case recv_decision chan nd of
        Some (Decline reason) \<Rightarrow>
          (None, finish_out tid id_hex name False
                   (pi_name (p_info p) @ lit '' declined ('' @ reason @ lit '')'') nd)
      | None \<Rightarrow>
          (let (_, nd1) = peer_send env p (FileAbort id_hex (lit ''no answer in time'')) nd in
           (None, finish_out tid id_hex name False
                    (pi_name (p_info p) @ lit '' did not answer in time'') nd1))
      | Some Accept \<Rightarrow>
          (case opened of
             Inl e \<Rightarrow>
               (let (_, nd1) = peer_send env p (FileAbort id_hex (err_msg e)) nd in
                (None, finish_out tid id_hex name False
                         (lit ''could not read the file: '' @ err_msg e) nd1))
           | Inr src \<Rightarrow>
               (Some (OutSending p tid name fsize
                  \<lparr>op_src = src, op_sent = 0, op_seq = 0,
                   op_last = instant_sub (e_now env) PROGRESS_INTERVAL\<rparr>), nd)))"

text \<open>After the last chunk.\<close>

definition send_done :: "env \<Rightarrow> peer \<Rightarrow> bytes \<Rightarrow> rstr \<Rightarrow> u64 \<Rightarrow> node \<Rightarrow> node" where
  "send_done env p tid name fsize nd =
     (let id_hex = hex tid; (_, nd1) = peer_send env p (FileDone id_hex) nd;
          nd2 = record_line_to
            (record_file (pi_name (st_me nd1)) (pi_id (st_me nd1)) (e_ts env)
              (lit ''sent '' @ name @ lit '' ('' @ human_size fsize @ lit '') to '' @
               pi_name (p_info p))) nd1 in
      finish_out tid id_hex name True (lit ''sent to '' @ pi_name (p_info p)) nd2)"

text \<open>One turn of the loop.\<close>

definition send_chunk ::
  "env \<Rightarrow> peer \<Rightarrow> bytes \<Rightarrow> rstr \<Rightarrow> u64 \<Rightarrow> out_progress \<Rightarrow> node \<Rightarrow> task option \<times> node" where
  "send_chunk env p tid name fsize prog nd =
     (let id_hex = hex tid in
      if \<not> nd_running nd then (None, nd)
      else case stream_read CHUNK_SIZE (op_src prog) of
        (Inl e, _) \<Rightarrow>
          (let (_, nd1) = peer_send env p (FileAbort id_hex (err_msg e)) nd in
           (None, finish_out tid id_hex name False (lit ''read error: '' @ err_msg e) nd1))
      | (Inr data, src') \<Rightarrow>
          if data = [] then (None, send_done env p tid name fsize nd)
          else case wire_send env (p_link p) (encode_chunk tid (op_seq prog) data) nd of
            (Inl e, nd1) \<Rightarrow>
              (None, finish_out tid id_hex name False
                (lit ''link to '' @ pi_name (p_info p) @ lit '' failed: '' @ show_error e) nd1)
          | (Inr _, nd1) \<Rightarrow>
              (let sent = op_sent prog + of_nat (length data);
                   due = PROGRESS_INTERVAL \<le> duration_since (e_now env) (op_last prog) \<or> sent = fsize;
                   nd2 = (if due then emit (EvFileProgress id_hex name (pi_name (p_info p)) sent
                                              fsize False) nd1 else nd1) in
               (Some (OutSending p tid name fsize
                  \<lparr>op_src = src', op_sent = sent, op_seq = op_seq prog + 1,
                   op_last = (if due then e_now env else op_last prog)\<rparr>), nd2)))"

section \<open>The receiving side\<close>

text \<open>
  Every message that names a transfer parses the identifier first and is ignored when that
  fails; a panic there is the end of the process.
\<close>

definition with_transfer_id :: "rstr \<Rightarrow> (bytes \<Rightarrow> node \<Rightarrow> node) \<Rightarrow> node \<Rightarrow> node run" where
  "with_transfer_id transfer f nd =
     (case unhex16 transfer of
        Panic \<Rightarrow> Panic
      | Ret (Inl _) \<Rightarrow> Ret nd
      | Ret (Inr tid) \<Rightarrow> Ret (f tid nd))"

definition respond_offer ::
  "env \<Rightarrow> rstr \<Rightarrow> path option \<Rightarrow> node \<Rightarrow> (unit res \<times> node) run" where
  "respond_offer env transfer save_to nd =
     (case unhex16 transfer of
        Panic \<Rightarrow> Panic
      | Ret (Inl e) \<Rightarrow> Ret (Inl e, nd)
      | Ret (Inr tid) \<Rightarrow>
          (case hm_get (tr_offers (nd_transfers nd)) tid of
             None \<Rightarrow> Ret (Inl (Protocol (lit ''that file offer is no longer pending'')), nd)
           | Some offer \<Rightarrow>
               (let nd1 = with_transfers (\<lambda>t. t\<lparr>tr_offers := hm_remove tid (tr_offers t)\<rparr>) nd;
                    peer = peer_by_id (po_peer_id offer) nd1 in
                case save_to of
                  None \<Rightarrow>
                    (let nd2 = (case peer of
                           None \<Rightarrow> nd1
                         | Some p \<Rightarrow> snd (peer_send env p
                             (FileDecline transfer (lit ''declined by the recipient'')) nd1)) in
                     Ret (Inr (), emit (EvFileFinished transfer (po_name offer) True False
                       (lit ''you declined the file'')) nd2))
                | Some path \<Rightarrow>
                    (case peer of
                       None \<Rightarrow> Ret (Inl (Closed (lit ''that peer is no longer connected'')), nd1)
                     | Some p \<Rightarrow>
                         (case file_create path (nd_disk nd1) of
                            (Inl e, d) \<Rightarrow> Ret (Inl (Io e), nd1\<lparr>nd_disk := d\<rparr>)
                          | (Inr file, d) \<Rightarrow>
                              (let a = \<lparr>ai_file = file, ai_name = po_name offer,
                                        ai_size = po_size offer, ai_got = 0, ai_next_seq = 0,
                                        ai_hashed = [], ai_expect_sha = po_sha256 offer,
                                        ai_peer_id = po_peer_id offer,
                                        ai_peer_name = po_peer_name offer,
                                        ai_last_emit = instant_sub (e_now env) PROGRESS_INTERVAL\<rparr>;
                                   nd2 = with_transfers
                                     (\<lambda>t. t\<lparr>tr_active := hm_insert tid a (tr_active t)\<rparr>)
                                     (nd1\<lparr>nd_disk := d\<rparr>) in
                               case peer_send env p (FileAccept transfer) nd2 of
                                 (Inl e, nd3) \<Rightarrow> Ret (Inl e, nd3)
                               | (Inr _, nd3) \<Rightarrow>
                                   Ret (Inr (), emit (EvStatus (lit ''Receiving '' @ po_name offer @
                                     lit '' into '' @ path)) nd3)))))))"

text \<open>\<open>handle_chunk\<close>, its two halves: what the active transfer makes of the chunk, and what
  follows from that.\<close>

datatype chunk_outcome = Problem rstr | Progress "(rstr \<times> rstr \<times> u64 \<times> u64) option"

definition take_chunk ::
  "env \<Rightarrow> u32 \<Rightarrow> bytes \<Rightarrow> active_in \<Rightarrow> disk \<Rightarrow> chunk_outcome \<times> active_in \<times> disk" where
  "take_chunk env seq data a d =
     (if seq \<noteq> ai_next_seq a
      then (Problem (lit ''chunks arrived out of order (expected '' @
              show_nat (unat (ai_next_seq a)) @ lit '', got '' @ show_nat (unat seq) @ lit '')''), a, d)
      else if ai_size a < ai_got a + of_nat (length data)
      then (Problem (lit ''the sender sent more data than it offered''), a, d)
      else case file_write_all (ai_file a) data d of
        (Some e, file, d') \<Rightarrow>
          (Problem (lit ''could not write to disk: '' @ err_msg e), a\<lparr>ai_file := file\<rparr>, d')
      | (None, file, d') \<Rightarrow>
          (let got = ai_got a + of_nat (length data);
               due = PROGRESS_INTERVAL \<le> duration_since (e_now env) (ai_last_emit a) \<or>
                     got = ai_size a;
               a' = a\<lparr>ai_file := file, ai_hashed := ai_hashed a @ data, ai_got := got,
                      ai_next_seq := ai_next_seq a + 1,
                      ai_last_emit := (if due then e_now env else ai_last_emit a)\<rparr> in
           (Progress (if due then Some (ai_name a, ai_peer_name a, got, ai_size a) else None),
            a', d')))"

definition handle_chunk :: "env \<Rightarrow> peer \<Rightarrow> bytes \<Rightarrow> u32 \<Rightarrow> bytes \<Rightarrow> node \<Rightarrow> node" where
  "handle_chunk env p tid seq data nd =
     (case hm_get (tr_active (nd_transfers nd)) tid of
        None \<Rightarrow> nd
      | Some a \<Rightarrow>
          if ai_peer_id a \<noteq> pi_id (p_info p) then nd
          else case take_chunk env seq data a (nd_disk nd) of
            (outcome, a', d) \<Rightarrow>
              (let nd1 = with_transfers (\<lambda>t. t\<lparr>tr_active := hm_insert tid a' (tr_active t)\<rparr>)
                           (nd\<lparr>nd_disk := d\<rparr>) in
               case outcome of
                 Problem reason \<Rightarrow>
                   (let nd2 = with_transfers
                          (\<lambda>t. t\<lparr>tr_active := hm_remove tid (tr_active t)\<rparr>) nd1;
                        nd3 = snd (peer_send env p (FileAbort (hex tid) reason) nd2) in
                    emit (EvFileFinished (hex tid) (ai_name a') True False reason) nd3)
               | Progress None \<Rightarrow> nd1
               | Progress (Some (name, peer_name, got, whole)) \<Rightarrow>
                   emit (EvFileProgress (hex tid) name peer_name got whole True) nd1))"

definition complete_incoming :: "env \<Rightarrow> rstr \<Rightarrow> bytes \<Rightarrow> node \<Rightarrow> node" where
  "complete_incoming env transfer tid nd =
     (case hm_get (tr_active (nd_transfers nd)) tid of
        None \<Rightarrow> nd
      | Some a \<Rightarrow>
          (let nd1 = with_transfers (\<lambda>t. t\<lparr>tr_active := hm_remove tid (tr_active t)\<rparr>) nd;
               digest = hex (e_sha256 env (ai_hashed a));
               ok = (ai_got a = ai_size a \<and> digest = ai_expect_sha a);
               path = fh_path (ai_file a);
               detail =
                 (if ok then lit ''saved to '' @ path
                  else if ai_got a \<noteq> ai_size a
                  then lit ''incomplete: got '' @ human_size (ai_got a) @ lit '' of '' @
                       human_size (ai_size a)
                  else lit ''the checksum did not match - the file may be corrupt'');
               nd2 = (if ok then record_line_to
                        (record_file (ai_peer_name a) (ai_peer_id a) (e_ts env)
                          (lit ''received '' @ ai_name a @ lit '' ('' @ human_size (ai_size a) @
                           lit '') -> '' @ path)) nd1 else nd1) in
           emit (EvFileFinished transfer (ai_name a) True ok detail) nd2))"

definition push_decision :: "decision \<Rightarrow> bytes \<Rightarrow> node \<Rightarrow> node" where
  "push_decision d tid nd =
     (case hm_get (tr_waiters (nd_transfers nd)) tid of
        None \<Rightarrow> nd
      | Some chan \<Rightarrow> channel_send chan d nd)"

definition store_offer :: "peer \<Rightarrow> rstr \<Rightarrow> rstr \<Rightarrow> u64 \<Rightarrow> rstr \<Rightarrow> bytes \<Rightarrow> node \<Rightarrow> node" where
  "store_offer p transfer name0 fsize sha tid nd =
     (let name = safe_file_name name0;
          offer = \<lparr>po_peer_id = pi_id (p_info p), po_peer_name = pi_name (p_info p),
                   po_name = name, po_size = fsize, po_sha256 = sha\<rparr> in
      emit (EvFileOffer transfer (pi_name (p_info p)) name fsize)
        (with_transfers (\<lambda>t. t\<lparr>tr_offers := hm_insert tid offer (tr_offers t)\<rparr>) nd))"

definition abort_incoming :: "rstr \<Rightarrow> rstr \<Rightarrow> bytes \<Rightarrow> node \<Rightarrow> node" where
  "abort_incoming transfer reason tid nd =
     (let nd1 = with_transfers (\<lambda>t. t\<lparr>tr_offers := hm_remove tid (tr_offers t),
                                      tr_active := hm_remove tid (tr_active t)\<rparr>) nd in
      case hm_get (tr_active (nd_transfers nd)) tid of
        None \<Rightarrow> nd1
      | Some a \<Rightarrow>
          emit (EvFileFinished transfer (ai_name a) True False
            (lit ''the sender aborted: '' @ reason)) nd1)"

definition handle_file_control :: "env \<Rightarrow> peer \<Rightarrow> control \<Rightarrow> node \<Rightarrow> node run" where
  "handle_file_control env p c nd =
     (case c of
        FileOffer transfer name fsize sha \<Rightarrow>
          with_transfer_id transfer (store_offer p transfer name fsize sha) nd
      | FileAccept transfer \<Rightarrow> with_transfer_id transfer (push_decision Accept) nd
      | FileDecline transfer reason \<Rightarrow>
          with_transfer_id transfer (push_decision (Decline reason)) nd
      | FileDone transfer \<Rightarrow> with_transfer_id transfer (complete_incoming env transfer) nd
      | FileAbort transfer reason \<Rightarrow>
          with_transfer_id transfer (abort_incoming transfer reason) nd
      | _ \<Rightarrow> Ret nd)"

section \<open>A peer that went away\<close>

definition dead_keys :: "('v \<Rightarrow> bool) \<Rightarrow> (bytes, 'v) hmap \<Rightarrow> bytes list" where
  "dead_keys dead m = map fst (filter (\<lambda>(k, v). dead v) m)"

text \<open>\<open>for k in dead_out\<close>: tell the thread that waits, and forget the transfer.\<close>

definition cancel_out :: "bytes \<Rightarrow> node \<Rightarrow> node" where
  "cancel_out k nd =
     (let nd1 = (case hm_get (tr_waiters (nd_transfers nd)) k of
            None \<Rightarrow> nd
          | Some chan \<Rightarrow>
              channel_send chan (Decline (lit ''the peer disconnected''))
                (with_transfers (\<lambda>t. t\<lparr>tr_waiters := hm_remove k (tr_waiters t)\<rparr>) nd)) in
      with_transfers (\<lambda>t. t\<lparr>tr_out_peer := hm_remove k (tr_out_peer t)\<rparr>) nd1)"

definition cancel_transfers_with :: "rstr \<Rightarrow> node \<Rightarrow> node" where
  "cancel_transfers_with gone nd =
     (let t = nd_transfers nd;
          dead = dead_keys (\<lambda>a. ai_peer_id a = gone) (tr_active t);
          finished = concat (map (\<lambda>k. case hm_get (tr_active t) k of
                        None \<Rightarrow> [] | Some a \<Rightarrow> [(hex k, ai_name a)]) dead);
          dead_offers = dead_keys (\<lambda>f. po_peer_id f = gone) (tr_offers t);
          nd1 = with_transfers (\<lambda>t. t\<lparr>tr_active := fold hm_remove dead (tr_active t),
                                      tr_offers := fold hm_remove dead_offers (tr_offers t)\<rparr>) nd;
          dead_out = dead_keys (\<lambda>p. p = gone) (tr_out_peer t);
          nd2 = fold cancel_out dead_out nd1 in
      fold (\<lambda>(transfer, name).
              emit (EvFileFinished transfer name True False (lit ''the sender disconnected'')))
        finished nd2)"

end
