(* ===== verification/Links.thy ===== *)
theory Links
  imports Files
begin

text \<open>
  \<open>core/src/mesh.rs\<close>, the part that runs while links are up: attaching a link, reading from
  it, handling what comes in, losing it, and sending chat.
\<close>

section \<open>Attaching and refusing links\<close>

definition reject :: "env \<Rightarrow> link_id \<Rightarrow> rstr \<Rightarrow> node \<Rightarrow> node" where
  "reject env l reason nd = close_link l (snd (control_send env l (Rejected reason) nd))"

definition attach_peer :: "env \<Rightarrow> peer_info \<Rightarrow> link_id \<Rightarrow> node \<Rightarrow> node" where
  "attach_peer env info l nd =
     (let p = \<lparr>p_info = info, p_link = l\<rparr> in
      if \<not> nd_running nd then close_link l nd
      else
        (let nd1 = nd\<lparr>st_roster := hm_insert (pi_id info) info (st_roster nd),
                      st_peers := hm_insert (pi_id info) p (st_peers nd),
                      nd_peer_state := hm_insert l Connected (nd_peer_state nd)\<rparr>;
             nd2 = record_line_to (record_system (e_ts env) (pi_name info @ lit '' connected'')) nd1;
             nd3 = emit (EvPeer (pi_id info) (pi_name info) Connected
                      (pi_addr info @ lit '' '' @ [183] @ lit '' '' @ e_fingerprint env l)) nd2 in
         spawn (Reader p) nd3))"

section \<open>Losing a link\<close>

definition describe_disconnect :: "error \<Rightarrow> rstr" where
  "describe_disconnect e =
     (case e of
        Io io \<Rightarrow>
          (if err_kind io = UnexpectedEof then lit ''the peer closed the connection''
           else show_error e)
      | _ \<Rightarrow> show_error e)"

definition tell_left :: "env \<Rightarrow> peer_info \<Rightarrow> peer \<Rightarrow> node \<Rightarrow> node" where
  "tell_left env gone p nd = snd (peer_send env p (PeerLeft (pi_id gone) (pi_name gone)) nd)"

definition peer_gone :: "env \<Rightarrow> peer \<Rightarrow> rstr \<Rightarrow> node \<Rightarrow> node" where
  "peer_gone env p reason nd =
     (let k = pi_id (p_info p);
          removed = hm_contains (st_peers nd) k;
          host = (st_role nd = Some Host);
          nd1 = nd\<lparr>st_peers := hm_remove k (st_peers nd),
                   st_roster := (if removed \<and> host then hm_remove k (st_roster nd)
                                 else st_roster nd)\<rparr> in
      if \<not> removed then nd1
      else
        (let nd2 = nd1\<lparr>nd_peer_state := hm_insert (p_link p) Disconnected (nd_peer_state nd1)\<rparr>;
             nd3 = cancel_transfers_with k (close_link (p_link p) nd2);
             nd4 = (if host then fold (tell_left env (p_info p)) (connected_peers nd3) nd3 else nd3);
             nd5 = record_line_to (record_system (e_ts env)
                      (pi_name (p_info p) @ lit '' disconnected ('' @ reason @ lit '')'')) nd4 in
         emit (EvPeer k (pi_name (p_info p)) Disconnected reason) nd5))"

section \<open>Incoming messages\<close>

definition handle_control :: "env \<Rightarrow> peer \<Rightarrow> control \<Rightarrow> node \<Rightarrow> node run" where
  "handle_control env p c nd =
     (case c of
        Chat _ sender name0 ts body \<Rightarrow>
          (let name = sanitize_name name0 in
           Ret (emit (EvChat sender name ts body False)
                 (record_line_to (record_message name sender ts body) nd)))
      | PeerJoined info \<Rightarrow>
          Ret (emit (EvSystem (pi_name info @
                 lit '' was approved by the host and will connect directly''))
               (nd\<lparr>st_roster := hm_insert (pi_id info) info (st_roster nd)\<rparr>))
      | PeerLeft k name \<Rightarrow>
          Ret (emit (EvSystem (name @ lit '' left the room''))
               (nd\<lparr>st_roster := hm_remove k (st_roster nd)\<rparr>))
      | Bye \<Rightarrow> Ret (peer_gone env p (lit ''the peer closed the room'') nd)
      | FileOffer _ _ _ _ \<Rightarrow> handle_file_control env p c nd
      | FileAccept _ \<Rightarrow> handle_file_control env p c nd
      | FileDecline _ _ \<Rightarrow> handle_file_control env p c nd
      | FileDone _ \<Rightarrow> handle_file_control env p c nd
      | FileAbort _ _ \<Rightarrow> handle_file_control env p c nd
      | Rejected reason \<Rightarrow> Ret (emit (EvError (pi_name (p_info p) @ lit '': '' @ reason)) nd)
      | Hello _ _ _ \<Rightarrow> Ret nd
      | MeshHello _ _ _ \<Rightarrow> Ret nd
      | Welcome _ _ _ \<Rightarrow> Ret nd
      | MeshAck _ \<Rightarrow> Ret nd)"

text \<open>
  One turn of \<open>reader_loop\<close>: what \<open>recv\<close> gave is the argument.  The thread goes on, with
  itself as its continuation, until \<open>recv\<close> fails.
\<close>

definition reader_turn ::
  "env \<Rightarrow> peer \<Rightarrow> bytes res \<Rightarrow> node \<Rightarrow> (task option \<times> node) run" where
  "reader_turn env p received nd =
     (case received of
        Inl e \<Rightarrow> Ret (None, peer_gone env p (describe_disconnect e) nd)
      | Inr buf \<Rightarrow>
          (case decode_frame (e_from_json env) buf of
             Inl e \<Rightarrow>
               Ret (Some (Reader p),
                    emit (EvError (lit ''malformed message from '' @ pi_name (p_info p) @
                      lit '': '' @ show_error e)) nd)
           | Inr (Control c) \<Rightarrow>
               (case handle_control env p c nd of
                  Panic \<Rightarrow> Panic
                | Ret nd' \<Rightarrow> Ret (Some (Reader p), nd'))
           | Inr (Chunk tid seq data) \<Rightarrow>
               Ret (Some (Reader p), handle_chunk env p tid seq data nd)))"

section \<open>Chat\<close>

definition deliver_chat :: "env \<Rightarrow> control \<Rightarrow> peer \<Rightarrow> node \<Rightarrow> node" where
  "deliver_chat env msg p nd =
     (case peer_send env p msg nd of
        (Inr _, nd') \<Rightarrow> nd'
      | (Inl e, nd') \<Rightarrow>
          emit (EvError (lit ''could not deliver to '' @ pi_name (p_info p) @ lit '': '' @
            show_error e)) nd')"

definition send_chat :: "env \<Rightarrow> rstr \<Rightarrow> node \<Rightarrow> unit res \<times> node" where
  "send_chat env body0 nd =
     (let body = trim body0 in
      if body = [] then (Inr (), nd)
      else if 8000 < byte_len body then (Inl (Config (lit ''that message is too long'')), nd)
      else
        (let me = st_me nd; ts = e_ts env;
             msg = Chat (new_id (e_random8 env)) (pi_id me) (pi_name me) ts body;
             nd1 = record_line_to (record_message (pi_name me) (pi_id me) ts body) nd;
             nd2 = emit (EvChat (pi_id me) (pi_name me) ts body True) nd1;
             peers = connected_peers nd2;
             nd3 = (if peers = []
                    then emit (EvSystem
                      (lit ''nobody is connected yet - that message was not delivered'')) nd2
                    else nd2) in
         (Inr (), fold (deliver_chat env msg) peers nd3)))"

section \<open>Facts\<close>

interpretation telling: send_loop "tell_left env gone"
  "\<lambda>p. delivered env (p_link p) (PeerLeft (pi_id gone) (pi_name gone))" "\<lambda>_. []" for env gone
proof
  fix p nd
  show "\<exists>evs. tell_left env gone p nd = nd\<lparr>nd_wire := nd_wire nd @
      delivered env (p_link p) (PeerLeft (pi_id gone) (pi_name gone)),
      nd_events := nd_events nd @ evs, nd_closed := nd_closed nd @ []\<rparr>"
    by (rule exI [of _ "[]"]) (simp add: tell_left_def send_results)
qed

interpretation delivering: send_loop "deliver_chat env msg"
  "\<lambda>p. delivered env (p_link p) msg" "\<lambda>_. []" for env msg
proof
  fix p nd
  obtain r where "peer_send env p msg nd = (r, nd\<lparr>nd_wire := nd_wire nd @ delivered env (p_link p) msg\<rparr>)"
    unfolding peer_send_def by (rule control_send_split)
  then show "\<exists>evs. deliver_chat env msg p nd = nd\<lparr>nd_wire := nd_wire nd @ delivered env (p_link p) msg,
      nd_events := nd_events nd @ evs, nd_closed := nd_closed nd @ []\<rparr>"
    by (cases r) (auto simp: deliver_chat_def node_ops intro: exI [of _ "[]"])
qed

lemma reject_eq:
  "reject env l reason nd =
     nd\<lparr>nd_wire := nd_wire nd @ delivered env l (Rejected reason), nd_closed := nd_closed nd @ [l]\<rparr>"
  by (simp add: reject_def node_ops)

lemma attach_stopped: "\<not> nd_running nd \<Longrightarrow> attach_peer env info l nd = close_link l nd"
  by (simp add: attach_peer_def)

end
