(* ===== verification/Admission.thy ===== *)
theory Admission
  imports Links
begin

text \<open>
  \<open>core/src/mesh.rs\<close>, how a newcomer gets in: the handling of an incoming connection, the
  request parked until the operator decides (\<open>on_hello\<close>, \<open>approve\<close>), and the direct call of
  an approved peer (\<open>on_mesh_hello\<close>), cut where it waits for the roster.
\<close>

definition ROSTER_GRACE :: duration where
  "ROSTER_GRACE = secs 8"

section \<open>Requests to join\<close>

definition on_hello ::
  "env \<Rightarrow> link_id \<Rightarrow> u32 \<Rightarrow> rstr \<Rightarrow> peer_info \<Rightarrow> rstr \<Rightarrow> node \<Rightarrow> node" where
  "on_hello env l version room peer source nd =
     (if version \<noteq> PROTOCOL_VERSION
      then reject env l (lit ''the host runs protocol v'' @ show_nat (unat PROTOCOL_VERSION) @
             lit '', you run v'' @ show_nat (unat version)) nd
      else
        (let role = st_role nd; my_room = st_room nd;
             expired = (case st_open_until nd of None \<Rightarrow> False | Some t \<Rightarrow> t < e_now env);
             known = (hm_contains (st_roster nd) (pi_id peer) \<or> pi_id (st_me nd) = pi_id peer) in
         if role \<noteq> Some Host
         then reject env l (lit ''this peer is not the host of that room'') nd
         else if normalize_code room \<noteq> normalize_code my_room
         then reject env l (lit ''that room code does not match this room'') nd
         else if expired
         then reject env l (lit ''this room code has expired - ask the host to reopen joining'') nd
         else if known
         then reject env l (lit ''a peer with that id is already in the room'') nd
         else
           (let peer = peer\<lparr>pi_name := sanitize_name (pi_name peer)\<rparr>;
                req = show_nat (unat (nd_req_seq nd));
                nd1 = nd\<lparr>nd_req_seq := nd_req_seq nd + 1\<rparr>;
                addr = (if pi_addr peer = [] then source else pi_addr peer);
                nd2 = nd1\<lparr>st_pending :=
                        hm_insert req \<lparr>pd_info = peer, pd_link = l\<rparr> (st_pending nd1)\<rparr> in
            emit (EvJoinRequest req (pi_name peer) addr (e_fingerprint env l)) nd2)))"

definition announce :: "env \<Rightarrow> peer_info \<Rightarrow> peer \<Rightarrow> node \<Rightarrow> node" where
  "announce env info p nd =
     (case peer_send env p (PeerJoined info) nd of
        (Inr _, nd') \<Rightarrow> nd'
      | (Inl e, nd') \<Rightarrow>
          emit (EvError (lit ''could not tell '' @ pi_name (p_info p) @
            lit '' about the new peer: '' @ show_error e)) nd')"

definition approve :: "env \<Rightarrow> rstr \<Rightarrow> bool \<Rightarrow> node \<Rightarrow> unit res \<times> node" where
  "approve env req accept nd =
     (case hm_get (st_pending nd) req of
        None \<Rightarrow> (Inl (Protocol (lit ''that join request is no longer pending'')), nd)
      | Some pd \<Rightarrow>
          (let nd1 = nd\<lparr>st_pending := hm_remove req (st_pending nd)\<rparr>; info = pd_info pd in
           if \<not> accept
           then
             (let nd2 = reject env (pd_link pd) (lit ''the host declined your request to join'') nd1;
                  nd3 = record_line_to (record_system (e_ts env)
                          (lit ''Declined a join request from '' @ pi_name info)) nd2;
                  nd4 = emit (EvSystem (lit ''Declined '' @ pi_name info @ [39] @ lit ''s request'')) nd3 in
              (Inr (), emit (EvJoinResolved req False) nd4))
           else
             (let existing = connected_peers nd1; roster = map p_info existing;
                  nd2 = fold (announce env info) existing nd1;
                  nd3 = nd2\<lparr>st_roster := hm_insert (pi_id info) info (st_roster nd2)\<rparr> in
              case control_send env (pd_link pd) (Welcome (st_room nd3) (st_me nd3) roster) nd3 of
                (Inl e, nd4) \<Rightarrow> (Inl e, nd4)
              | (Inr _, nd4) \<Rightarrow>
                  (Inr (), attach_peer env info (pd_link pd)
                             (emit (EvJoinResolved req True) nd4)))))"

section \<open>Mesh calls\<close>

text \<open>\<open>on_mesh_hello\<close> up to the loop; then one turn of the loop and what follows it.\<close>

definition on_mesh_hello ::
  "env \<Rightarrow> link_id \<Rightarrow> u32 \<Rightarrow> rstr \<Rightarrow> peer_info \<Rightarrow> node \<Rightarrow> task option \<times> node" where
  "on_mesh_hello env l version room peer nd =
     (if version \<noteq> PROTOCOL_VERSION
      then (None, reject env l (lit ''protocol version mismatch'') nd)
      else if normalize_code room \<noteq> normalize_code (st_room nd)
      then (None, reject env l (lit ''that room code does not match this room'') nd)
      else (Some (MeshCall l (peer\<lparr>pi_name := sanitize_name (pi_name peer)\<rparr>)
                    (instant_add (e_now env) ROSTER_GRACE)), nd))"

definition accept_mesh_call :: "env \<Rightarrow> link_id \<Rightarrow> peer_info \<Rightarrow> node \<Rightarrow> node" where
  "accept_mesh_call env l peer nd =
     (case peer_by_id (pi_id peer) nd of
        Some _ \<Rightarrow> reject env l (lit ''already linked to that peer'') nd
      | None \<Rightarrow>
          (case encode_control (e_to_json env) (MeshAck (st_me nd)) of
             Inl _ \<Rightarrow> attach_peer env peer l nd
           | Inr bs \<Rightarrow>
               (case wire_send env l bs nd of
                  (Inl _, nd1) \<Rightarrow> close_link l nd1
                | (Inr _, nd1) \<Rightarrow> attach_peer env peer l nd1)))"

definition mesh_call_turn ::
  "env \<Rightarrow> link_id \<Rightarrow> peer_info \<Rightarrow> instant \<Rightarrow> node \<Rightarrow> task option \<times> node" where
  "mesh_call_turn env l peer deadline nd =
     (if hm_contains (st_roster nd) (pi_id peer) then (None, accept_mesh_call env l peer nd)
      else if deadline \<le> e_now env
      then (None, reject env l (lit ''you are not on this room'' @ [39] @
              lit ''s approved list (ask the host to approve you first)'') nd)
      else (Some (MeshCall l peer deadline), nd))"

section \<open>Incoming connections\<close>

definition source_of :: "rstr \<Rightarrow> rstr" where
  "source_of label = (case rsplit_once (ch CHR '':'') label of None \<Rightarrow> label | Some (h, _) \<Rightarrow> h)"

text \<open>
  \<open>handle_incoming\<close>, cut behind the limiter, where the thread begins to wait for the other
  side.  The stream has the number of its link; \<open>shaken\<close> is the result of the handshake and
  \<open>received\<close> what the first \<open>recv\<close> on the new link gives.
\<close>

definition handle_incoming :: "env \<Rightarrow> link_id \<Rightarrow> rstr \<Rightarrow> node \<Rightarrow> task option \<times> node" where
  "handle_incoming env l label nd =
     (let source = source_of label; (ok, limiter) = allow (e_now env) source (st_limiter nd);
          nd1 = nd\<lparr>st_limiter := limiter\<rparr> in
      if \<not> ok
      then (None, close_link l (emit (EvStatus (lit ''ignored a connection attempt from '' @ source @
              lit '' (too many attempts)'')) nd1))
      else (Some (Greeting l source), nd1))"

definition greet_incoming ::
  "env \<Rightarrow> link_id \<Rightarrow> rstr \<Rightarrow> unit res \<Rightarrow> bytes res \<Rightarrow> node \<Rightarrow> task option \<times> node" where
  "greet_incoming env l source shaken received nd =
     (case shaken of
        Inl e \<Rightarrow>
          (None, close_link l (emit (EvStatus (lit ''a connection from '' @ source @
             lit '' failed to handshake: '' @ show_error e)) nd))
      | Inr _ \<Rightarrow>
          (case received of
             Inl _ \<Rightarrow> (None, close_link l nd)
           | Inr first \<Rightarrow>
               (case decode_frame (e_from_json env) first of
                  Inr (Control (Hello version room peer)) \<Rightarrow>
                    (None, on_hello env l version room peer source nd)
                | Inr (Control (MeshHello version room peer)) \<Rightarrow>
                    on_mesh_hello env l version room peer nd
                | _ \<Rightarrow>
                    (let payload = (case encode_control (e_to_json env)
                             (Rejected (lit ''unexpected first message'')) of
                           Inl _ \<Rightarrow> [] | Inr bs \<Rightarrow> bs) in
                     (None, close_link l (snd (wire_send env l payload nd)))))))"

end
