(* ===== verification/Lifecycle.thy ===== *)
theory Lifecycle
  imports Admission
begin

text \<open>
  \<open>core/src/mesh.rs\<close>, the life of a room on a node: hosting, joining, dialling the other
  members, and leaving.  What the transport gives (a listener and its dial address, a
  connected stream, the result of a handshake, what \<open>recv\<close> returns) is an argument.
\<close>

definition DIAL_ATTEMPTS :: nat where
  "DIAL_ATTEMPTS = 3"

section \<open>Hosting\<close>

definition host ::
  "env \<Rightarrow> transport_kind \<Rightarrow> duration \<Rightarrow> (nat \<times> rstr) res \<Rightarrow> node \<Rightarrow> rstr res \<times> node" where
  "host env kind ttl listened nd =
     (case ensure_idle nd of
        Inl e \<Rightarrow> (Inl e, nd)
      | Inr _ \<Rightarrow>
          (case listened of
             Inl e \<Rightarrow> (Inl e, nd)
           | Inr (listener, dial) \<Rightarrow>
               (case encode kind dial of
                  Inl e \<Rightarrow> (Inl e, nd)
                | Inr code \<Rightarrow>
                    (let nd1 = nd\<lparr>st_role := Some Host, st_kind := Some kind, st_room := code,
                           st_me := (st_me nd)\<lparr>pi_addr := dial\<rparr>, st_listener := Some listener,
                           st_open_until := Some (instant_add (e_now env) ttl),
                           st_limiter := default_policy, st_history := [], st_roster := [],
                           st_peers := [], st_pending := []\<rparr>;
                         nd2 = spawn (AcceptLoop listener) (nd1\<lparr>nd_running := True\<rparr>);
                         nd3 = record_line_to (record_system (e_ts env)
                                 (lit ''Room opened over '' @ kind_as_str kind @
                                  lit '' with code '' @ code)) nd2 in
                     (Inr code, emit (EvRoomOpened code (kind_as_str kind) dial
                       (of_nat (ttl div 1000000000))) nd3)))))"

definition reopen_joining :: "env \<Rightarrow> duration \<Rightarrow> node \<Rightarrow> unit res \<times> node" where
  "reopen_joining env ttl nd =
     (if st_role nd \<noteq> Some Host
      then (Inl (Config (lit ''only the host can reopen joining'')), nd)
      else (Inr (), emit (EvStatus (lit ''The room is accepting joiners again''))
             (nd\<lparr>st_open_until := Some (instant_add (e_now env) ttl),
                 st_limiter := default_policy\<rparr>)))"

section \<open>Leaving\<close>

definition say_bye :: "env \<Rightarrow> peer \<Rightarrow> node \<Rightarrow> node" where
  "say_bye env p nd = close_link (p_link p) (snd (peer_send env p Bye nd))"

definition close_all :: "link_id list \<Rightarrow> node \<Rightarrow> node" where
  "close_all ls nd = fold close_link ls nd"

definition close_taken :: "nat option \<Rightarrow> node \<Rightarrow> node" where
  "close_taken l nd = (case l of None \<Rightarrow> nd | Some n \<Rightarrow> close_listener n nd)"

definition leave :: "env \<Rightarrow> node \<Rightarrow> node" where
  "leave env nd =
     (if \<not> nd_running nd then nd
      else
        (let nd0 = nd\<lparr>nd_running := False\<rparr>;
             peers = hm_values (st_peers nd0);
             pending = map pd_link (hm_values (st_pending nd0));
             listener = st_listener nd0;
             nd1 = nd0\<lparr>st_peers := [], st_pending := [], st_roster := [], st_listener := None\<rparr>;
             nd2 = fold (say_bye env) peers nd1;
             nd3 = close_all pending nd2;
             nd4 = close_taken listener nd3;
             nd5 = record_line_to (record_system (e_ts env) (lit ''Left the room'')) nd4 in
         emit (EvRoomClosed (lit ''you left the room'')) nd5))"

definition shutdown_internal :: "node \<Rightarrow> node" where
  "shutdown_internal nd =
     (let nd0 = nd\<lparr>nd_running := False\<rparr>;
          peers = hm_values (st_peers nd0);
          listener = st_listener nd0;
          nd1 = nd0\<lparr>st_peers := [], st_roster := [], st_listener := None\<rparr>;
          nd2 = close_all (map p_link peers) nd1 in
      close_taken listener nd2)"

section \<open>Joining\<close>

text \<open>
  \<open>join\<close> is cut where it connects, for which it may wait many seconds: \<open>join_open\<close> opens the
  room as a joiner and reads \<open>me\<close> and \<open>room\<close>, \<open>join_call\<close> goes on when the transport has an
  answer.
\<close>

definition join_open ::
  "transport_kind \<Rightarrow> rstr \<Rightarrow> (nat \<times> rstr) res \<Rightarrow> node \<Rightarrow> (peer_info \<times> rstr) res \<times> node" where
  "join_open kind code listened nd =
     (case ensure_idle nd of
        Inl e \<Rightarrow> (Inl e, nd)
      | Inr _ \<Rightarrow>
     (case decode code of
        Inl e \<Rightarrow> (Inl e, nd)
      | Inr (code_kind, dial) \<Rightarrow>
     if code_kind \<noteq> kind
     then (Inl (Config (lit ''that room code is a '' @ kind_as_str code_kind @
             lit '' code - switch the connection mode to '' @ kind_as_str code_kind @
             lit '' and try again'')), nd)
     else case listened of
        Inl e \<Rightarrow> (Inl e, nd)
      | Inr (listener, my_addr) \<Rightarrow>
     (let nd1 = nd\<lparr>st_role := Some Joiner, st_kind := Some kind, st_room := upper (trim code),
            st_me := (st_me nd)\<lparr>pi_addr := my_addr\<rparr>, st_listener := Some listener,
            st_open_until := None, st_limiter := default_policy, st_history := [],
            st_roster := [], st_peers := [], st_pending := []\<rparr>;
          nd2 = spawn (AcceptLoop listener) (nd1\<lparr>nd_running := True\<rparr>) in
      (Inr (st_me nd2, st_room nd2),
       emit (EvStatus (lit ''Contacting the host over '' @ kind_as_str kind @ lit ''...'')) nd2))))"

definition join_call ::
  "env \<Rightarrow> peer_info \<Rightarrow> rstr \<Rightarrow> link_id res \<Rightarrow> unit res \<Rightarrow> node \<Rightarrow> unit res \<times> node" where
  "join_call env me room connected shaken nd =
     (case connected of
        Inl e \<Rightarrow> (Inl e, shutdown_internal nd)
      | Inr l \<Rightarrow>
     (case shaken of
        Inl e \<Rightarrow> (Inl e, shutdown_internal nd)
      | Inr _ \<Rightarrow>
     (case encode_control (e_to_json env) (Hello PROTOCOL_VERSION room me) of
        Inl e \<Rightarrow> (Inl e, nd)
      | Inr bs \<Rightarrow>
     (case wire_send env l bs nd of
        (Inl e, nd1) \<Rightarrow> (Inl e, shutdown_internal nd1)
      | (Inr _, nd1) \<Rightarrow>
          (Inr (), spawn (AwaitWelcome l)
            (emit (EvStatus (lit ''Request sent - waiting for the host to approve it...'')) nd1))))))"

definition add_to_roster :: "peer_info \<Rightarrow> node \<Rightarrow> node" where
  "add_to_roster info nd = nd\<lparr>st_roster := hm_insert (pi_id info) info (st_roster nd)\<rparr>"

definition await_welcome :: "env \<Rightarrow> link_id \<Rightarrow> bytes res \<Rightarrow> node \<Rightarrow> node" where
  "await_welcome env l received nd =
     (case received of
        Inl e \<Rightarrow>
          shutdown_internal (emit (EvRoomClosed
            (lit ''the connection to the host was lost: '' @ show_error e)) nd)
      | Inr first \<Rightarrow>
          (case decode_frame (e_from_json env) first of
             Inr (Control (Welcome room h peers)) \<Rightarrow>
               (let nd1 = fold add_to_roster peers (add_to_roster h (nd\<lparr>st_room := room\<rparr>));
                    kind = kind_text nd1;
                    nd2 = record_line_to (record_system (e_ts env)
                            (lit ''Joined room '' @ room @ lit '' over '' @ kind)) nd1;
                    nd3 = attach_peer env h l nd2;
                    nd4 = emit (EvJoined room kind) nd3 in
                fold (\<lambda>p. spawn (DialPeer p)) peers nd4)
           | Inr (Control (Rejected reason)) \<Rightarrow>
               shutdown_internal (emit (EvRoomClosed reason) (close_link l nd))
           | Inr _ \<Rightarrow>
               shutdown_internal (emit (EvRoomClosed
                 (lit ''the host sent an unexpected reply - version mismatch?'')) (close_link l nd))
           | Inl e \<Rightarrow>
               shutdown_internal (emit (EvRoomClosed
                 (lit ''bad reply from the host: '' @ show_error e)) (close_link l nd))))"

section \<open>Dialling the other members\<close>

text \<open>\<open>try_dial\<close>, cut where it waits for the reply.\<close>

definition dial_call ::
  "env \<Rightarrow> link_id res \<Rightarrow> unit res \<Rightarrow> node \<Rightarrow> link_id res \<times> node" where
  "dial_call env connected shaken nd =
     (case connected of
        Inl e \<Rightarrow> (Inl e, nd)
      | Inr l \<Rightarrow>
     (case shaken of
        Inl e \<Rightarrow> (Inl e, nd)
      | Inr _ \<Rightarrow>
     (case control_send env l (MeshHello PROTOCOL_VERSION (st_room nd) (st_me nd)) nd of
        (Inl e, nd1) \<Rightarrow> (Inl e, nd1)
      | (Inr _, nd1) \<Rightarrow> (Inr l, nd1))))"

definition dial_reply :: "env \<Rightarrow> link_id \<Rightarrow> bytes res \<Rightarrow> node \<Rightarrow> unit res \<times> node" where
  "dial_reply env l received nd =
     (case received of
        Inl e \<Rightarrow> (Inl e, nd)
      | Inr reply \<Rightarrow>
     (case decode_frame (e_from_json env) reply of
        Inl e \<Rightarrow> (Inl e, nd)
      | Inr (Control (MeshAck peer)) \<Rightarrow> (Inr (), attach_peer env peer l nd)
      | Inr (Control (Rejected reason)) \<Rightarrow> (Inl (Closed reason), close_link l nd)
      | Inr _ \<Rightarrow>
          (Inl (Protocol (lit ''unexpected reply to mesh hello'')), close_link l nd)))"

definition dial_peer :: "peer_info \<Rightarrow> node \<Rightarrow> task option \<times> node" where
  "dial_peer info nd =
     (case st_kind nd of
        None \<Rightarrow> (None, nd)
      | Some kind \<Rightarrow>
          (Some (Dialling info kind 0 (lit ''unknown error'')),
           emit (EvPeer (pi_id info) (pi_name info) Connecting (pi_addr info)) nd))"

text \<open>
  One turn of the loop over the attempts, or what follows the last one: the attempt up to the
  call, and the attempt from the reply on.
\<close>

definition dial_turn ::
  "env \<Rightarrow> peer_info \<Rightarrow> transport_kind \<Rightarrow> nat \<Rightarrow> rstr \<Rightarrow> link_id res \<Rightarrow> unit res \<Rightarrow>
   node \<Rightarrow> task option \<times> node" where
  "dial_turn env info kind attempt last_error connected shaken nd =
     (if DIAL_ATTEMPTS \<le> attempt
      then (None, emit (EvPeer (pi_id info) (pi_name info) Failed last_error) nd)
      else if \<not> nd_running nd then (None, nd)
      else case dial_call env connected shaken nd of
        (Inr l, nd1) \<Rightarrow> (Some (Called info kind attempt l), nd1)
      | (Inl e, nd1) \<Rightarrow> (Some (Dialling info kind (Suc attempt) (show_error e)), nd1))"

definition called_turn ::
  "env \<Rightarrow> peer_info \<Rightarrow> transport_kind \<Rightarrow> nat \<Rightarrow> link_id \<Rightarrow> bytes res \<Rightarrow>
   node \<Rightarrow> task option \<times> node" where
  "called_turn env info kind attempt l received nd =
     (case dial_reply env l received nd of
        (Inr _, nd1) \<Rightarrow> (None, nd1)
      | (Inl e, nd1) \<Rightarrow> (Some (Dialling info kind (Suc attempt) (show_error e)), nd1))"

section \<open>The accept loop\<close>

definition accept_turn :: "nat \<Rightarrow> io_error + link_id \<times> rstr \<Rightarrow> node \<Rightarrow> task option \<times> node" where
  "accept_turn listener accepted nd =
     (case accepted of
        Inr (stream, label) \<Rightarrow>
          (if \<not> nd_running nd then (None, close_link stream nd)
           else (Some (AcceptLoop listener), spawn (HandleIncoming stream label) nd))
      | Inl _ \<Rightarrow>
          (None, if nd_running nd
                 then emit (EvStatus (lit ''stopped listening for new connections'')) nd else nd))"

end
