(* ===== verification/Ui_State.thy ===== *)
theory Ui_State
  imports Lifecycle
begin

text \<open>
  \<open>ui/src/main.rs\<close>, the state behind the window: the properties of \<open>AppWindow\<close>
  (\<open>ui/app.slint\<close>), the \<open>App\<close> that the callbacks and the timer share with its list
  models, and the functions that keep them.

  The desk is the whole process as the front end sees it: window, \<open>App\<close>, every node that
  was ever started (an \<open>Arc<Node>\<close> is a position in that list), the worker threads, the
  file dialogs that are open, and the disk that the nodes share.
\<close>

section \<open>Rows\<close>

text \<open>A progress of \<open>(m, e)\<close> is the \<open>f32\<close> of value \<open>m / 2 ^ e\<close>.\<close>

type_synonym dyadic = "nat \<times> nat"

record message_row =
  mr_who :: rstr
  mr_time :: rstr
  mr_body :: rstr
  mr_mine :: bool
  mr_system :: bool

record peer_row =
  pr_id :: rstr
  pr_name :: rstr
  pr_status :: rstr
  pr_detail :: rstr

record request_row =
  rr_req :: rstr
  rr_name :: rstr
  rr_addr :: rstr
  rr_fingerprint :: rstr

record transfer_row =
  tf_id :: rstr
  tf_label :: rstr
  tf_progress :: dyadic
  tf_state :: rstr

section \<open>The desk\<close>

datatype ui_msg = StartFailed rstr | Note rstr

text \<open>The threads that run the blocking calls, and the dialogs whose answer is awaited.\<close>

datatype job =
    JobHost (job_node: nat) transport_kind
  | JobJoin (job_node: nat) transport_kind rstr
  | JobJoining (job_node: nat) peer_info rstr
  | JobApprove (job_node: nat) rstr bool

datatype dialog =
    PickFile (dialog_node: nat)
  | SaveOffer (dialog_node: nat) rstr
  | SaveTranscript (dialog_node: nat)

record window =
  w_screen :: rstr
  w_display_name :: rstr
  w_mode :: rstr
  w_join_code :: rstr
  w_draft :: rstr
  w_is_host :: bool
  w_room_code :: rstr
  w_room_addr :: rstr
  w_transport_label :: rstr
  w_my_fingerprint :: rstr
  w_status_line :: rstr
  w_error_line :: rstr
  w_expiry_note :: rstr
  w_busy :: bool
  w_offer_id :: rstr
  w_offer_text :: rstr
  w_scroll_tick :: u32

text \<open>
  \<open>ap_rx\<close> is the receiver of the events of a node, with the number it has given so far.
\<close>

record desk = window +
  ap_node :: "nat option"
  ap_rx :: "(nat \<times> nat) option"
  ap_ui_rx :: "ui_msg list"
  ap_messages :: "message_row list"
  ap_peers :: "peer_row list"
  ap_requests :: "request_row list"
  ap_transfers :: "transfer_row list"
  ap_offers :: "(rstr \<times> rstr) list"
  ap_expires_at :: "instant option"
  ap_last_expiry :: rstr
  ds_nodes :: "node list"
  ds_jobs :: "job list"
  ds_dialogs :: "dialog list"
  ds_disk :: disk

definition MAX_EVENTS_PER_TICK :: nat where
  "MAX_EVENTS_PER_TICK = 256"

definition MAX_VISIBLE_MESSAGES :: nat where
  "MAX_VISIBLE_MESSAGES = 2000"

definition DEFAULT_CODE_TTL :: duration where
  "DEFAULT_CODE_TTL = secs (10 * 60)"

text \<open>\<open>App::new\<close> and the window at its start, before the first callback.\<close>

definition desk_start :: "disk \<Rightarrow> desk" where
  "desk_start disk =
     \<lparr>w_screen = lit ''setup'', w_display_name = [], w_mode = lit ''LAN'', w_join_code = [],
      w_draft = [], w_is_host = False, w_room_code = [], w_room_addr = [],
      w_transport_label = [], w_my_fingerprint = [],
      w_status_line = lit ''Pick a connection mode, then host or join a room.'',
      w_error_line = [], w_expiry_note = [], w_busy = False, w_offer_id = [],
      w_offer_text = [], w_scroll_tick = 0,
      ap_node = None, ap_rx = None, ap_ui_rx = [], ap_messages = [], ap_peers = [],
      ap_requests = [], ap_transfers = [], ap_offers = [], ap_expires_at = None,
      ap_last_expiry = [], ds_nodes = [], ds_jobs = [], ds_dialogs = [], ds_disk = disk\<rparr>"

section \<open>Calling a node\<close>

text \<open>A node works on the one disk there is.\<close>

definition on_node :: "nat \<Rightarrow> (node \<Rightarrow> 'r \<times> node) \<Rightarrow> desk \<Rightarrow> 'r \<times> desk" where
  "on_node n f d =
     (case f ((ds_nodes d ! n)\<lparr>nd_disk := ds_disk d\<rparr>) of
        (r, nd) \<Rightarrow> (r, d\<lparr>ds_nodes := (ds_nodes d)[n := nd], ds_disk := nd_disk nd\<rparr>))"

definition node_leave :: "env \<Rightarrow> nat \<Rightarrow> desk \<Rightarrow> desk" where
  "node_leave env n d = snd (on_node n (\<lambda>nd. ((), leave env nd)) d)"

text \<open>\<open>if let Some(node) = a.node.take() { node.leave() }\<close>\<close>

definition leave_current :: "env \<Rightarrow> desk \<Rightarrow> desk" where
  "leave_current env d =
     (case ap_node d of None \<Rightarrow> d | Some n \<Rightarrow> (node_leave env n d)\<lparr>ap_node := None\<rparr>)"

section \<open>The list models\<close>

definition reset_models :: "desk \<Rightarrow> desk" where
  "reset_models d =
     d\<lparr>ap_messages := [], ap_peers := [], ap_requests := [], ap_transfers := [],
       ap_offers := [], ap_expires_at := None, ap_last_expiry := []\<rparr>"

definition push_message :: "message_row \<Rightarrow> desk \<Rightarrow> desk" where
  "push_message row d =
     (let kept = (if MAX_VISIBLE_MESSAGES \<le> length (ap_messages d) then tl (ap_messages d)
                  else ap_messages d) in
      d\<lparr>ap_messages := kept @ [row]\<rparr>)"

definition system_row :: "fmt \<Rightarrow> env \<Rightarrow> rstr \<Rightarrow> message_row" where
  "system_row clock env text =
     \<lparr>mr_who = [], mr_time = clock (e_ts env), mr_body = text, mr_mine = False,
      mr_system = True\<rparr>"

definition push_system :: "fmt \<Rightarrow> env \<Rightarrow> rstr \<Rightarrow> desk \<Rightarrow> desk" where
  "push_system clock env text d = push_message (system_row clock env text) d"

text \<open>The loop of both \<open>upsert_peer\<close> and \<open>upsert_transfer\<close>.\<close>

fun upsert :: "('r \<Rightarrow> rstr) \<Rightarrow> 'r \<Rightarrow> 'r list \<Rightarrow> 'r list" where
  "upsert key row [] = [row]"
| "upsert key row (r # rs) = (if key r = key row then row # rs else r # upsert key row rs)"

definition upsert_peer :: "rstr \<Rightarrow> rstr \<Rightarrow> rstr \<Rightarrow> rstr \<Rightarrow> desk \<Rightarrow> desk" where
  "upsert_peer i name status detail d =
     d\<lparr>ap_peers := upsert pr_id \<lparr>pr_id = i, pr_name = name, pr_status = status,
         pr_detail = detail\<rparr> (ap_peers d)\<rparr>"

fun drop_request :: "rstr \<Rightarrow> request_row list \<Rightarrow> request_row list" where
  "drop_request req [] = []"
| "drop_request req (r # rs) = (if rr_req r = req then rs else r # drop_request req rs)"

definition remove_request :: "rstr \<Rightarrow> desk \<Rightarrow> desk" where
  "remove_request req d = d\<lparr>ap_requests := drop_request req (ap_requests d)\<rparr>"

definition upsert_transfer :: "rstr \<Rightarrow> rstr \<Rightarrow> dyadic \<Rightarrow> rstr \<Rightarrow> desk \<Rightarrow> desk" where
  "upsert_transfer i label prog state d =
     d\<lparr>ap_transfers := upsert tf_id \<lparr>tf_id = i, tf_label = label, tf_progress = prog,
         tf_state = state\<rparr> (ap_transfers d)\<rparr>"

section \<open>Helpers\<close>

definition show_next_offer :: "desk \<Rightarrow> desk" where
  "show_next_offer d =
     (case ap_offers d of
        (i, text) # _ \<Rightarrow> d\<lparr>w_offer_id := i, w_offer_text := text\<rparr>
      | [] \<Rightarrow> d\<lparr>w_offer_id := [], w_offer_text := []\<rparr>)"

definition offer_text :: "rstr \<Rightarrow> u64 \<Rightarrow> rstr" where
  "offer_text name fsize = name @ lit '' ('' @ human_size fsize @ lit '')''"

text \<open>\<open>rfind(" (")\<close>: the text before the last place where a space and a parenthesis follow.\<close>

fun before_last_paren :: "rstr \<Rightarrow> rstr option" where
  "before_last_paren (a # b # s) =
     (case before_last_paren (b # s) of
        Some t \<Rightarrow> Some (a # t)
      | None \<Rightarrow> if a = ch CHR '' '' \<and> b = ch CHR ''('' then Some [] else None)"
| "before_last_paren s = None"

definition suggested_name :: "rstr \<Rightarrow> rstr" where
  "suggested_name text = (case before_last_paren text of Some t \<Rightarrow> t | None \<Rightarrow> text)"

definition expiry_text :: "instant option \<Rightarrow> instant \<Rightarrow> rstr" where
  "expiry_text deadline now =
     (case deadline of
        None \<Rightarrow> []
      | Some t \<Rightarrow>
          (let left = duration_since t now div 1000000000 in
           if left = 0 then lit ''Code expired - new joiners are refused. Press Reopen to accept more.''
           else if 60 \<le> left
           then lit ''Code accepts joiners for another '' @ show_nat ((left + 59) div 60) @ lit '' min''
           else lit ''Code accepts joiners for another '' @ show_nat left @ lit ''s''))"

definition update_expiry :: "env \<Rightarrow> desk \<Rightarrow> desk" where
  "update_expiry env d =
     (let text = expiry_text (ap_expires_at d) (e_now env) in
      if ap_last_expiry d \<noteq> text then d\<lparr>ap_last_expiry := text, w_expiry_note := text\<rparr> else d)"

definition mode_of :: "desk \<Rightarrow> transport_kind option \<times> desk" where
  "mode_of d =
     (case kind_parse (w_mode d) of
        Some k \<Rightarrow> (Some k, d)
      | None \<Rightarrow> (None, d\<lparr>w_error_line := lit ''Choose LAN or Bluetooth first.''\<rparr>))"

text \<open>
  \<open>created\<close> is what \<open>Node::new\<close> gives: the id and the fingerprint it drew, or an error.
\<close>

definition start_node :: "env \<Rightarrow> (rstr \<times> rstr) res \<Rightarrow> desk \<Rightarrow> nat option \<times> desk" where
  "start_node env created d =
     (let name = trim (w_display_name d) in
      if name = [] then (None, d\<lparr>w_error_line := lit ''Enter a display name first.''\<rparr>)
      else case created of
        Inl e \<Rightarrow> (None, d\<lparr>w_error_line := show_error e\<rparr>)
      | Inr (pid, fp) \<Rightarrow>
          (let n = length (ds_nodes d);
               d1 = d\<lparr>ds_nodes := ds_nodes d @ [node_new pid fp name (ds_disk d)]\<rparr>;
               d2 = reset_models (leave_current env d1);
               d3 = d2\<lparr>ap_node := Some n, ap_rx := Some (n, 0)\<rparr> in
           (Some n, d3\<lparr>w_my_fingerprint := fp, w_offer_id := [], w_offer_text := []\<rparr>)))"

section \<open>Progress\<close>

text \<open>
  \<open>(done as f64 / total as f64) as f32\<close>.  The quotient \<open>a / b\<close>, scaled by a power of two
  that gives it at least 53 bits before the point, is rounded to 53 bits, and then to 24;
  ties to even.  No result is subnormal or overflows.
\<close>

definition round_bits :: "nat \<Rightarrow> nat \<Rightarrow> nat" where
  "round_bits p n = (let e = bit_length n - p in round_half_even n (2 ^ e) * 2 ^ e)"

definition quotient_scale :: "nat \<Rightarrow> nat" where
  "quotient_scale b = 53 + bit_length b"

definition f64_quotient :: "nat \<Rightarrow> nat \<Rightarrow> nat" where
  "f64_quotient a b =
     (let n = a * 2 ^ quotient_scale b; e = bit_length (n div b) - 53 in
      round_half_even n (b * 2 ^ e) * 2 ^ e)"

definition progress_of :: "u64 \<Rightarrow> u64 \<Rightarrow> dyadic" where
  "progress_of got full =
     (if full = 0 then (0, 0)
      else let a = f64_of_u64 (unat got); b = f64_of_u64 (unat full) in
        (round_bits 24 (f64_quotient a b), quotient_scale b))"

end
