(* ===== verification/Node_System.thy ===== *)
theory Node_System
  imports Lifecycle
begin

text \<open>
  A node as a whole: the calls the user interface makes and the threads the node has
  started, each taking its next step in any order.  A step is one handler, or one turn of a
  handler's loop; what the world gives it is part of the label.
\<close>

datatype action =
    DoHost transport_kind duration "(nat \<times> rstr) res"
  | DoReopen duration
  | DoJoin transport_kind rstr "(nat \<times> rstr) res"
  | DoApprove rstr bool
  | DoLeave
  | DoSendChat rstr
  | DoSetName rstr
  | DoSendFile path "rstr option" "io_error + bool \<times> u64" "io_error + source"
  | DoRespond rstr "path option"
  | DoExport fmt json_export path "rstr option"

text \<open>What a thread's next step depends on, beyond the node: only the part it uses counts.\<close>

record task_input =
  in_accepted :: "io_error + link_id \<times> rstr"
  in_connected :: "link_id res"
  in_shaken :: "unit res"
  in_received :: "bytes res"
  in_opened :: "io_error + source"

definition resume :: "task option \<Rightarrow> node \<Rightarrow> node" where
  "resume k nd = (case k of None \<Rightarrow> nd | Some t \<Rightarrow> spawn t nd)"

text \<open>The caller of \<open>join\<close>, which goes on to connect.\<close>

definition joining :: "(peer_info \<times> rstr) res \<Rightarrow> task option" where
  "joining r = (case r of Inl _ \<Rightarrow> None | Inr (me, room) \<Rightarrow> Some (Joining me room))"

definition perform :: "env \<Rightarrow> action \<Rightarrow> node \<Rightarrow> node run" where
  "perform env a nd =
     (case a of
        DoHost kind ttl listened \<Rightarrow> Ret (snd (host env kind ttl listened nd))
      | DoReopen ttl \<Rightarrow> Ret (snd (reopen_joining env ttl nd))
      | DoJoin kind code listened \<Rightarrow>
          (case join_open kind code listened nd of (r, nd') \<Rightarrow> Ret (resume (joining r) nd'))
      | DoApprove req accept \<Rightarrow> Ret (snd (approve env req accept nd))
      | DoLeave \<Rightarrow> Ret (leave env nd)
      | DoSendChat body \<Rightarrow> Ret (snd (send_chat env body nd))
      | DoSetName name \<Rightarrow> Ret (set_display_name name nd)
      | DoSendFile path file_name meta opened \<Rightarrow>
          Ret (snd (send_file env path file_name meta opened nd))
      | DoRespond transfer save_to \<Rightarrow>
          (case respond_offer env transfer save_to nd of Panic \<Rightarrow> Panic | Ret (_, nd') \<Rightarrow> Ret nd')
      | DoExport fmt_full json path ext \<Rightarrow>
          Ret (snd (export_history fmt_full json env path ext nd)))"

lemma perform_join:
  "perform env (DoJoin kind code listened) nd =
     Ret (resume (joining (fst (join_open kind code listened nd))) (snd (join_open kind code listened nd)))"
  by (simp add: perform_def split: prod.splits)

definition run_task :: "env \<Rightarrow> task \<Rightarrow> task_input \<Rightarrow> node \<Rightarrow> (task option \<times> node) run" where
  "run_task env t i nd =
     (case t of
        AcceptLoop listener \<Rightarrow> Ret (accept_turn listener (in_accepted i) nd)
      | HandleIncoming l label \<Rightarrow> Ret (handle_incoming env l label nd)
      | Greeting l source \<Rightarrow> Ret (greet_incoming env l source (in_shaken i) (in_received i) nd)
      | MeshCall l peer deadline \<Rightarrow> Ret (mesh_call_turn env l peer deadline nd)
      | Reader p \<Rightarrow> reader_turn env p (in_received i) nd
      | DialPeer info \<Rightarrow> Ret (dial_peer info nd)
      | Dialling info kind attempt last_error \<Rightarrow>
          Ret (dial_turn env info kind attempt last_error (in_connected i) (in_shaken i) nd)
      | Called info kind attempt l \<Rightarrow>
          Ret (called_turn env info kind attempt l (in_received i) nd)
      | Joining me room \<Rightarrow>
          Ret (None, snd (join_call env me room (in_connected i) (in_shaken i) nd))
      | AwaitWelcome l \<Rightarrow> Ret (None, await_welcome env l (in_received i) nd)
      | SendFileTo p path name fsize sha \<Rightarrow> Ret (send_offer env p path name fsize sha nd)
      | OutWaiting p tid chan path name fsize \<Rightarrow>
          Ret (send_answered env p tid chan name fsize (in_opened i) nd)
      | OutSending p tid name fsize prog \<Rightarrow> Ret (send_chunk env p tid name fsize prog nd))"

definition take_task :: "task \<Rightarrow> node \<Rightarrow> node" where
  "take_task t nd = nd\<lparr>nd_spawned := remove1 t (nd_spawned nd)\<rparr>"

datatype label = User env action | Thread env task task_input

inductive node_step :: "node \<Rightarrow> label \<Rightarrow> node \<Rightarrow> bool" where
  user: "perform env a nd = Ret nd' \<Longrightarrow> node_step nd (User env a) nd'"
| thread: "t \<in> set (nd_spawned nd) \<Longrightarrow> run_task env t i (take_task t nd) = Ret (k, nd') \<Longrightarrow>
    node_step nd (Thread env t i) (resume k nd')"

inductive_cases node_step_UserE: "node_step nd (User env a) nd'"
inductive_cases node_step_ThreadE: "node_step nd (Thread env t i) nd'"

inductive_simps node_step_User: "node_step nd (User env a) nd'"
inductive_simps node_step_Thread: "node_step nd (Thread env t i) nd'"

end
