(* ===== verification/Ui_Events.thy ===== *)
theory Ui_Events
  imports Ui_State Node_System
begin

text \<open>
  \<open>ui/src/main.rs\<close>, what drives the window: the event pump of the timer, the callbacks of
  the buttons, the worker threads and the file dialogs, and the desk as a step relation in
  which they interleave with the threads of the nodes.
\<close>

section \<open>Events of the engine\<close>

definition show_fingerprint :: "desk \<Rightarrow> desk" where
  "show_fingerprint d =
     (case ap_node d of
        None \<Rightarrow> d
      | Some n \<Rightarrow> d\<lparr>w_my_fingerprint := pi_fingerprint (st_me (ds_nodes d ! n))\<rparr>)"

definition on_room_opened :: "env \<Rightarrow> rstr \<Rightarrow> rstr \<Rightarrow> rstr \<Rightarrow> u64 \<Rightarrow> desk \<Rightarrow> desk" where
  "on_room_opened env code transport dial expires_secs d =
     show_fingerprint (d\<lparr>ap_expires_at := Some (instant_add (e_now env) (secs (unat expires_secs))),
       w_is_host := True, w_room_code := code, w_room_addr := dial, w_transport_label := transport,
       w_screen := lit ''room'', w_busy := False,
       w_status_line := lit ''Room open. Share the code; every joiner needs your approval.''\<rparr>)"

definition on_joined :: "rstr \<Rightarrow> rstr \<Rightarrow> desk \<Rightarrow> desk" where
  "on_joined room transport d =
     show_fingerprint (d\<lparr>w_is_host := False, w_room_code := room, w_transport_label := transport,
       w_screen := lit ''room'', w_busy := False, w_expiry_note := [],
       w_status_line := lit ''Approved - you are in the room.''\<rparr>)"

definition on_join_request :: "rstr \<Rightarrow> rstr \<Rightarrow> rstr \<Rightarrow> rstr \<Rightarrow> desk \<Rightarrow> desk" where
  "on_join_request req name addr fp d =
     d\<lparr>ap_requests := ap_requests d @
         [\<lparr>rr_req = req, rr_name = name, rr_addr = addr, rr_fingerprint = fp\<rparr>],
       w_status_line := name @ lit '' wants to join - accept or decline below.''\<rparr>"

definition on_join_resolved :: "rstr \<Rightarrow> bool \<Rightarrow> desk \<Rightarrow> desk" where
  "on_join_resolved req accepted d =
     (remove_request req d)\<lparr>w_status_line :=
        (if accepted then lit ''Joiner accepted.'' else lit ''Joiner declined.'')\<rparr>"

definition on_peer :: "rstr \<Rightarrow> rstr \<Rightarrow> peer_state \<Rightarrow> rstr \<Rightarrow> desk \<Rightarrow> desk" where
  "on_peer i name s detail d =
     (let d1 = upsert_peer i name (peer_state_as_str s) detail d in
      if s = Failed \<and> detail \<noteq> [] then d1\<lparr>w_error_line := name @ lit '': '' @ detail\<rparr> else d1)"

definition chat_row :: "fmt \<Rightarrow> rstr \<Rightarrow> i64 \<Rightarrow> rstr \<Rightarrow> bool \<Rightarrow> message_row" where
  "chat_row clock name ts body mine =
     \<lparr>mr_who = name, mr_time = clock ts, mr_body = body, mr_mine = mine, mr_system = False\<rparr>"

definition on_file_offer :: "rstr \<Rightarrow> rstr \<Rightarrow> u64 \<Rightarrow> desk \<Rightarrow> desk" where
  "on_file_offer transfer name fsize d =
     show_next_offer (d\<lparr>ap_offers := ap_offers d @ [(transfer, offer_text name fsize)]\<rparr>)"

definition on_file_progress ::
  "rstr \<Rightarrow> rstr \<Rightarrow> rstr \<Rightarrow> u64 \<Rightarrow> u64 \<Rightarrow> bool \<Rightarrow> desk \<Rightarrow> desk" where
  "on_file_progress transfer name peer got full incoming d =
     upsert_transfer transfer
       (name @ lit '' '' @ (if incoming then lit ''from'' else lit ''to'') @ lit '' '' @ peer)
       (progress_of got full) (human_size got @ lit '' / '' @ human_size full) d"

definition finished_line :: "rstr \<Rightarrow> bool \<Rightarrow> bool \<Rightarrow> rstr \<Rightarrow> rstr" where
  "finished_line name incoming ok detail =
     (if ok then lit ''File '' @ (if incoming then lit ''received'' else lit ''sent'') @ lit '': '' @
        name @ lit ''. '' @ detail
      else lit ''File transfer failed: '' @ name @ lit ''. '' @ detail)"

definition on_file_finished ::
  "fmt \<Rightarrow> env \<Rightarrow> rstr \<Rightarrow> rstr \<Rightarrow> bool \<Rightarrow> bool \<Rightarrow> rstr \<Rightarrow> desk \<Rightarrow> desk" where
  "on_file_finished clock env transfer name incoming ok detail d =
     push_system clock env (finished_line name incoming ok detail)
       (upsert_transfer transfer
         (name @ lit '' ('' @ (if incoming then lit ''received'' else lit ''sent'') @ lit '')'')
         (if ok then (1, 0) else (0, 0))
         (if detail = [] then if ok then lit ''Done'' else lit ''Failed'' else detail) d)"

definition on_room_closed :: "fmt \<Rightarrow> env \<Rightarrow> rstr \<Rightarrow> desk \<Rightarrow> desk" where
  "on_room_closed clock env reason d =
     (push_system clock env (lit ''Room closed: '' @ reason) d)\<lparr>ap_peers := [], ap_requests := [],
        ap_expires_at := None, w_expiry_note := [], w_status_line := reason\<rparr>"

definition handle_event :: "fmt \<Rightarrow> env \<Rightarrow> event \<Rightarrow> desk \<Rightarrow> bool \<times> desk" where
  "handle_event clock env ev d =
     (case ev of
        EvStatus text \<Rightarrow> (False, d\<lparr>w_status_line := text\<rparr>)
      | EvSystem text \<Rightarrow> (True, push_system clock env text d)
      | EvRoomOpened code transport dial expires_secs \<Rightarrow>
          (False, on_room_opened env code transport dial expires_secs d)
      | EvJoined room transport \<Rightarrow> (False, on_joined room transport d)
      | EvJoinRequest req name addr fp \<Rightarrow> (False, on_join_request req name addr fp d)
      | EvJoinResolved req accepted \<Rightarrow> (False, on_join_resolved req accepted d)
      | EvPeer i name s detail \<Rightarrow> (False, on_peer i name s detail d)
      | EvChat _ name ts body mine \<Rightarrow> (True, push_message (chat_row clock name ts body mine) d)
      | EvFileOffer transfer _ name fsize \<Rightarrow> (False, on_file_offer transfer name fsize d)
      | EvFileProgress transfer name peer got full incoming \<Rightarrow>
          (False, on_file_progress transfer name peer got full incoming d)
      | EvFileFinished transfer name incoming ok detail \<Rightarrow>
          (True, on_file_finished clock env transfer name incoming ok detail d)
      | EvError text \<Rightarrow> (False, d\<lparr>w_error_line := text\<rparr>)
      | EvRoomClosed reason \<Rightarrow> (True, on_room_closed clock env reason d))"

section \<open>The pump\<close>

definition handle_note :: "env \<Rightarrow> ui_msg \<Rightarrow> desk \<Rightarrow> desk" where
  "handle_note env msg d =
     (case msg of
        StartFailed reason \<Rightarrow>
          (reset_models ((leave_current env d)\<lparr>ap_rx := None\<rparr>))\<lparr>w_busy := False,
             w_screen := lit ''setup'', w_status_line := lit ''Not connected.'',
             w_error_line := reason\<rparr>
      | Note note \<Rightarrow> d\<lparr>w_status_line := note\<rparr>)"

definition pump_notes :: "env \<Rightarrow> desk \<Rightarrow> desk" where
  "pump_notes env d = fold (handle_note env) (ap_ui_rx d) (d\<lparr>ap_ui_rx := []\<rparr>)"

text \<open>\<open>a.rx.as_ref().map(|rx| rx.try_recv())\<close>\<close>

definition next_event :: "desk \<Rightarrow> (event \<times> desk) option" where
  "next_event d =
     (case ap_rx d of
        None \<Rightarrow> None
      | Some (n, k) \<Rightarrow>
          (if k < length (nd_events (ds_nodes d ! n))
           then Some (nd_events (ds_nodes d ! n) ! k, d\<lparr>ap_rx := Some (n, Suc k)\<rparr>)
           else None))"

fun pump_events :: "fmt \<Rightarrow> env \<Rightarrow> nat \<Rightarrow> desk \<Rightarrow> bool \<times> desk" where
  "pump_events clock env 0 d = (False, d)"
| "pump_events clock env (Suc n) d =
     (case next_event d of
        None \<Rightarrow> (False, d)
      | Some (ev, d1) \<Rightarrow>
          (case handle_event clock env ev d1 of
             (new_message, d2) \<Rightarrow>
               (case pump_events clock env n d2 of
                  (later, d3) \<Rightarrow> (new_message \<or> later, d3))))"

definition pump :: "fmt \<Rightarrow> env \<Rightarrow> desk \<Rightarrow> desk" where
  "pump clock env d =
     (case pump_events clock env MAX_EVENTS_PER_TICK (pump_notes env d) of
        (new_messages, d1) \<Rightarrow>
          update_expiry env
            (if new_messages then d1\<lparr>w_scroll_tick := w_scroll_tick d1 + 1\<rparr> else d1))"

section \<open>The callbacks\<close>

definition open_dialog :: "dialog \<Rightarrow> desk \<Rightarrow> desk" where
  "open_dialog g d = d\<lparr>ds_dialogs := ds_dialogs d @ [g]\<rparr>"

definition start_job :: "job \<Rightarrow> desk \<Rightarrow> desk" where
  "start_job j d = d\<lparr>ds_jobs := ds_jobs d @ [j]\<rparr>"

definition error_or_clear :: "'a res \<Rightarrow> desk \<Rightarrow> desk" where
  "error_or_clear r d =
     d\<lparr>w_error_line := (case r of Inl e \<Rightarrow> show_error e | Inr _ \<Rightarrow> [])\<rparr>"

definition click_host :: "env \<Rightarrow> (rstr \<times> rstr) res \<Rightarrow> desk \<Rightarrow> desk" where
  "click_host env created d =
     (case mode_of d of
        (None, d1) \<Rightarrow> d1
      | (Some kind, d1) \<Rightarrow>
          (case start_node env created d1 of
             (None, d2) \<Rightarrow> d2
           | (Some n, d2) \<Rightarrow>
               start_job (JobHost n kind)
                 (d2\<lparr>w_error_line := [], w_status_line := lit ''Opening the room...'',
                     w_busy := True\<rparr>)))"

definition click_join :: "env \<Rightarrow> (rstr \<times> rstr) res \<Rightarrow> desk \<Rightarrow> desk" where
  "click_join env created d =
     (case mode_of d of
        (None, d1) \<Rightarrow> d1
      | (Some kind, d1) \<Rightarrow>
          (let code = trim (w_join_code d1) in
           if code = []
           then d1\<lparr>w_error_line := lit ''Enter the room code the host gave you.''\<rparr>
           else case start_node env created d1 of
             (None, d2) \<Rightarrow> d2
           | (Some n, d2) \<Rightarrow>
               start_job (JobJoin n kind code)
                 (d2\<lparr>w_error_line := [], w_status_line := lit ''Contacting the host...'',
                     w_busy := True\<rparr>)))"

definition click_approve :: "rstr \<Rightarrow> bool \<Rightarrow> desk \<Rightarrow> desk" where
  "click_approve req accept d =
     (case ap_node d of
        None \<Rightarrow> d
      | Some n \<Rightarrow> start_job (JobApprove n req accept) (remove_request req d))"

definition click_send :: "env \<Rightarrow> desk \<Rightarrow> desk" where
  "click_send env d =
     (let body = trim (w_draft d) in
      if body = [] then d
      else case ap_node d of
        None \<Rightarrow> d
      | Some n \<Rightarrow>
          (case on_node n (send_chat env body) d of
             (Inr _, d1) \<Rightarrow> d1\<lparr>w_draft := [], w_error_line := []\<rparr>
           | (Inl e, d1) \<Rightarrow> d1\<lparr>w_error_line := show_error e\<rparr>))"

definition click_send_file :: "desk \<Rightarrow> desk" where
  "click_send_file d = (case ap_node d of None \<Rightarrow> d | Some n \<Rightarrow> open_dialog (PickFile n) d)"

text \<open>\<open>on_send_file\<close> once the dialog has an answer; \<open>name\<close> is \<open>path.file_name()\<close>.\<close>

definition file_picked ::
  "env \<Rightarrow> nat \<Rightarrow> path option \<Rightarrow> rstr option \<Rightarrow> io_error + bool \<times> u64 \<Rightarrow> io_error + source \<Rightarrow>
   desk \<Rightarrow> desk" where
  "file_picked env n picked name meta opened d =
     (case picked of
        None \<Rightarrow> d
      | Some path \<Rightarrow>
          (case on_node n (send_file env path name meta opened) d of
             (r, d1) \<Rightarrow> error_or_clear r d1))"

text \<open>\<open>on_respond_offer\<close>, with \<open>save_to\<close> decided; a panic of the node ends the process.\<close>

definition finish_offer :: "env \<Rightarrow> nat \<Rightarrow> rstr \<Rightarrow> path option \<Rightarrow> desk \<Rightarrow> desk run" where
  "finish_offer env n transfer save_to d =
     (let d1 = show_next_offer (d\<lparr>ap_offers := filter (\<lambda>(i, _). i \<noteq> transfer) (ap_offers d)\<rparr>) in
      case respond_offer env transfer save_to ((ds_nodes d1 ! n)\<lparr>nd_disk := ds_disk d1\<rparr>) of
        Panic \<Rightarrow> Panic
      | Ret (r, nd) \<Rightarrow>
          (let d2 = d1\<lparr>ds_nodes := (ds_nodes d1)[n := nd], ds_disk := nd_disk nd\<rparr> in
           Ret (case r of Inl e \<Rightarrow> d2\<lparr>w_error_line := show_error e\<rparr> | Inr _ \<Rightarrow> d2)))"

definition click_offer :: "env \<Rightarrow> rstr \<Rightarrow> bool \<Rightarrow> desk \<Rightarrow> desk run" where
  "click_offer env transfer accept d =
     (case ap_node d of
        None \<Rightarrow> Ret d
      | Some n \<Rightarrow>
          if accept then Ret (open_dialog (SaveOffer n transfer) d)
          else finish_offer env n transfer None d)"

text \<open>What the save dialog proposes.\<close>

definition proposed_name :: "desk \<Rightarrow> rstr \<Rightarrow> rstr" where
  "proposed_name d transfer =
     (case find (\<lambda>(i, _). i = transfer) (ap_offers d) of
        Some (_, text) \<Rightarrow> suggested_name text
      | None \<Rightarrow> lit ''received-file'')"

definition offer_saved :: "env \<Rightarrow> nat \<Rightarrow> rstr \<Rightarrow> path option \<Rightarrow> desk \<Rightarrow> desk run" where
  "offer_saved env n transfer picked d =
     (case picked of None \<Rightarrow> Ret d | Some path \<Rightarrow> finish_offer env n transfer (Some path) d)"

definition click_export :: "desk \<Rightarrow> desk" where
  "click_export d = (case ap_node d of None \<Rightarrow> d | Some n \<Rightarrow> open_dialog (SaveTranscript n) d)"

definition transcript_saved ::
  "fmt \<Rightarrow> json_export \<Rightarrow> env \<Rightarrow> (path \<Rightarrow> rstr) \<Rightarrow> nat \<Rightarrow> path option \<Rightarrow> rstr option \<Rightarrow> desk \<Rightarrow> desk" where
  "transcript_saved fmt_full json env display n picked ext d =
     (case picked of
        None \<Rightarrow> d
      | Some path \<Rightarrow>
          (case on_node n (export_history fmt_full json env path ext) d of
             (Inr _, d1) \<Rightarrow> d1\<lparr>w_error_line := [],
               w_status_line := lit ''Transcript saved to '' @ display path\<rparr>
           | (Inl e, d1) \<Rightarrow> d1\<lparr>w_error_line := show_error e\<rparr>))"

text \<open>\<open>copied\<close> is the answer of the clipboard.\<close>

definition click_copy :: "rstr + unit \<Rightarrow> desk \<Rightarrow> desk" where
  "click_copy copied d =
     (if w_room_code d = [] then d
      else case copied of
        Inr _ \<Rightarrow> d\<lparr>w_status_line := lit ''Room code copied to clipboard.''\<rparr>
      | Inl e \<Rightarrow> d\<lparr>w_error_line := lit ''Could not use the clipboard: '' @ e\<rparr>)"

definition click_reopen :: "env \<Rightarrow> desk \<Rightarrow> desk" where
  "click_reopen env d =
     (case ap_node d of
        None \<Rightarrow> d
      | Some n \<Rightarrow>
          (case on_node n (reopen_joining env DEFAULT_CODE_TTL) d of
             (Inr _, d1) \<Rightarrow>
               d1\<lparr>ap_expires_at := Some (instant_add (e_now env) DEFAULT_CODE_TTL),
                  w_error_line := []\<rparr>
           | (Inl e, d1) \<Rightarrow> d1\<lparr>w_error_line := show_error e\<rparr>))"

definition click_leave :: "env \<Rightarrow> desk \<Rightarrow> desk" where
  "click_leave env d =
     (reset_models ((leave_current env d)\<lparr>ap_node := None, ap_rx := None\<rparr>))\<lparr>
        w_screen := lit ''setup'', w_busy := False, w_is_host := False, w_room_code := [],
        w_room_addr := [], w_expiry_note := [], w_offer_id := [], w_offer_text := [],
        w_error_line := [], w_status_line := lit ''You left the room.''\<rparr>"

text \<open>The end of \<open>main\<close>: the window was closed.\<close>

definition close_window :: "env \<Rightarrow> desk \<Rightarrow> desk" where
  "close_window env d = (case ap_node d of None \<Rightarrow> d | Some n \<Rightarrow> node_leave env n d)"

section \<open>Worker threads\<close>

definition report :: "(rstr \<Rightarrow> ui_msg) \<Rightarrow> 'a res \<times> desk \<Rightarrow> desk" where
  "report msg r =
     (case r of
        (Inr _, d) \<Rightarrow> d
      | (Inl e, d) \<Rightarrow> d\<lparr>ap_ui_rx := ap_ui_rx d @ [msg (show_error e)]\<rparr>)"

record job_input =
  ji_listened :: "(nat \<times> rstr) res"
  ji_connected :: "link_id res"
  ji_shaken :: "unit res"

definition run_job :: "env \<Rightarrow> job_input \<Rightarrow> job \<Rightarrow> desk \<Rightarrow> desk" where
  "run_job env i j d =
     (case j of
        JobHost n kind \<Rightarrow>
          report StartFailed (on_node n (host env kind DEFAULT_CODE_TTL (ji_listened i)) d)
      | JobJoin n kind code \<Rightarrow>
          (case on_node n (join_open kind code (ji_listened i)) d of
             (Inr (me, room), d1) \<Rightarrow> start_job (JobJoining n me room) d1
           | (Inl e, d1) \<Rightarrow> report StartFailed (Inl e :: unit res, d1))
      | JobJoining n me room \<Rightarrow>
          report StartFailed (on_node n (join_call env me room (ji_connected i) (ji_shaken i)) d)
      | JobApprove n req accept \<Rightarrow> report Note (on_node n (approve env req accept) d))"

section \<open>The desk as a whole\<close>

text \<open>
  What the user can do.  \<open>active\<close> says when \<open>app.slint\<close> lets a click or a key stroke
  through: the buttons that start a room are off while \<open>busy\<close> is set, and everything of
  the room is shown on its screen only.
\<close>

datatype click =
    ClickHost "(rstr \<times> rstr) res"
  | ClickJoin "(rstr \<times> rstr) res"
  | ClickApprove rstr bool
  | ClickSend
  | ClickSendFile
  | ClickOffer bool
  | ClickExport
  | ClickCopy "rstr + unit"
  | ClickReopen
  | ClickLeave
  | TypeName rstr
  | TypeCode rstr
  | TypeDraft rstr
  | PickMode transport_kind

definition active :: "desk \<Rightarrow> click \<Rightarrow> bool" where
  "active d c =
     (let setup = (w_screen d = lit ''setup''); room = (w_screen d = lit ''room'') in
      case c of
        ClickHost _ \<Rightarrow> setup \<and> \<not> w_busy d
      | ClickJoin _ \<Rightarrow> setup \<and> \<not> w_busy d
      | ClickApprove req _ \<Rightarrow> req \<in> rr_req ` set (ap_requests d)
      | ClickSend \<Rightarrow> room
      | ClickSendFile \<Rightarrow> room
      | ClickOffer _ \<Rightarrow> w_offer_id d \<noteq> []
      | ClickExport \<Rightarrow> True
      | ClickCopy _ \<Rightarrow> room \<and> w_is_host d
      | ClickReopen \<Rightarrow> room \<and> w_is_host d
      | ClickLeave \<Rightarrow> room
      | TypeName _ \<Rightarrow> setup
      | TypeCode _ \<Rightarrow> setup
      | TypeDraft _ \<Rightarrow> room
      | PickMode _ \<Rightarrow> setup)"

definition on_click :: "env \<Rightarrow> click \<Rightarrow> desk \<Rightarrow> desk run" where
  "on_click env c d =
     (case c of
        ClickHost created \<Rightarrow> Ret (click_host env created d)
      | ClickJoin created \<Rightarrow> Ret (click_join env created d)
      | ClickApprove req accept \<Rightarrow> Ret (click_approve req accept d)
      | ClickSend \<Rightarrow> Ret (click_send env d)
      | ClickSendFile \<Rightarrow> Ret (click_send_file d)
      | ClickOffer accept \<Rightarrow> click_offer env (w_offer_id d) accept d
      | ClickExport \<Rightarrow> Ret (click_export d)
      | ClickCopy copied \<Rightarrow> Ret (click_copy copied d)
      | ClickReopen \<Rightarrow> Ret (click_reopen env d)
      | ClickLeave \<Rightarrow> Ret (click_leave env d)
      | TypeName s \<Rightarrow> Ret (d\<lparr>w_display_name := s\<rparr>)
      | TypeCode s \<Rightarrow> Ret (d\<lparr>w_join_code := s\<rparr>)
      | TypeDraft s \<Rightarrow> Ret (d\<lparr>w_draft := s\<rparr>)
      | PickMode k \<Rightarrow> Ret (d\<lparr>w_mode := kind_as_str k\<rparr>))"

text \<open>What the user answers in a dialog, with what the file system says about the choice.\<close>

record answer =
  an_picked :: "path option"
  an_name :: "rstr option"
  an_meta :: "io_error + bool \<times> u64"
  an_opened :: "io_error + source"

record ui_env =
  ue_env :: env
  ue_clock :: fmt
  ue_fmt :: fmt
  ue_json :: json_export
  ue_display :: "path \<Rightarrow> rstr"

definition on_answer :: "ui_env \<Rightarrow> dialog \<Rightarrow> answer \<Rightarrow> desk \<Rightarrow> desk run" where
  "on_answer u g a d =
     (case g of
        PickFile n \<Rightarrow>
          Ret (file_picked (ue_env u) n (an_picked a) (an_name a) (an_meta a) (an_opened a) d)
      | SaveOffer n transfer \<Rightarrow> offer_saved (ue_env u) n transfer (an_picked a) d
      | SaveTranscript n \<Rightarrow>
          Ret (transcript_saved (ue_fmt u) (ue_json u) (ue_env u) (ue_display u) n (an_picked a)
                 (an_name a) d))"

datatype desk_label =
    Click click
  | Tick
  | Worker job job_input
  | Answer dialog answer
  | Engine nat label

inductive desk_step :: "desk \<Rightarrow> ui_env \<times> desk_label \<Rightarrow> desk \<Rightarrow> bool" where
  click: "active d c \<Longrightarrow> on_click (ue_env u) c d = Ret d' \<Longrightarrow> desk_step d (u, Click c) d'"
| tick: "desk_step d (u, Tick) (pump (ue_clock u) (ue_env u) d)"
| worker: "j \<in> set (ds_jobs d) \<Longrightarrow>
    desk_step d (u, Worker j i) (run_job (ue_env u) i j (d\<lparr>ds_jobs := remove1 j (ds_jobs d)\<rparr>))"
| answer: "g \<in> set (ds_dialogs d) \<Longrightarrow>
    on_answer u g a (d\<lparr>ds_dialogs := remove1 g (ds_dialogs d)\<rparr>) = Ret d' \<Longrightarrow>
    desk_step d (u, Answer g a) d'"
| engine: "n < length (ds_nodes d) \<Longrightarrow>
    node_step ((ds_nodes d ! n)\<lparr>nd_disk := ds_disk d\<rparr>) (Thread env t i) nd \<Longrightarrow>
    desk_step d (u, Engine n (Thread env t i))
      (d\<lparr>ds_nodes := (ds_nodes d)[n := nd], ds_disk := nd_disk nd\<rparr>)"

inductive_cases desk_step_ClickE: "desk_step d (u, Click c) d'"
inductive_cases desk_step_TickE: "desk_step d (u, Tick) d'"
inductive_cases desk_step_WorkerE: "desk_step d (u, Worker j i) d'"
inductive_cases desk_step_AnswerE: "desk_step d (u, Answer g a) d'"
inductive_cases desk_step_EngineE: "desk_step d (u, Engine n l) d'"

end
