(* ===== verification/Ui_Claims.thy ===== *)
theory Ui_Claims
  imports Ui_Events
begin

text \<open>
  What the front end promises: no event is lost, the lists stay in order, the oldest offer
  is the one on display, the save dialog proposes the name that was offered.
\<close>

section \<open>What the handlers of the events leave alone\<close>

named_theorems ui_ops
declare reset_models_def [ui_ops] push_message_def [ui_ops] push_system_def [ui_ops]
  upsert_peer_def [ui_ops] remove_request_def [ui_ops] upsert_transfer_def [ui_ops]
  update_expiry_def [ui_ops] open_dialog_def [ui_ops] start_job_def [ui_ops]
  error_or_clear_def [ui_ops] Let_def [ui_ops]

named_theorems ui_events
declare on_room_opened_def [ui_events] on_joined_def [ui_events] on_join_request_def [ui_events]
  on_join_resolved_def [ui_events] on_peer_def [ui_events] on_file_offer_def [ui_events]
  on_file_progress_def [ui_events] on_file_finished_def [ui_events] on_room_closed_def [ui_events]

lemma show_fingerprint_fields [simp]:
  "ap_rx (show_fingerprint d) = ap_rx d" "ap_node (show_fingerprint d) = ap_node d"
  "ds_nodes (show_fingerprint d) = ds_nodes d" "ap_messages (show_fingerprint d) = ap_messages d"
  "ap_ui_rx (show_fingerprint d) = ap_ui_rx d" "ap_peers (show_fingerprint d) = ap_peers d"
  "ap_transfers (show_fingerprint d) = ap_transfers d" "ap_offers (show_fingerprint d) = ap_offers d"
  "w_offer_id (show_fingerprint d) = w_offer_id d" "w_offer_text (show_fingerprint d) = w_offer_text d"
  "w_screen (show_fingerprint d) = w_screen d" "w_busy (show_fingerprint d) = w_busy d"
  "ds_jobs (show_fingerprint d) = ds_jobs d" "ds_dialogs (show_fingerprint d) = ds_dialogs d"
  by (simp_all add: show_fingerprint_def split: option.splits)

lemma show_next_offer_fields [simp]:
  "ap_rx (show_next_offer d) = ap_rx d" "ap_node (show_next_offer d) = ap_node d"
  "ds_nodes (show_next_offer d) = ds_nodes d" "ap_messages (show_next_offer d) = ap_messages d"
  "ap_ui_rx (show_next_offer d) = ap_ui_rx d" "ap_peers (show_next_offer d) = ap_peers d"
  "ap_transfers (show_next_offer d) = ap_transfers d" "ap_offers (show_next_offer d) = ap_offers d"
  "w_screen (show_next_offer d) = w_screen d" "w_busy (show_next_offer d) = w_busy d"
  "ds_jobs (show_next_offer d) = ds_jobs d" "ds_dialogs (show_next_offer d) = ds_dialogs d"
  "ds_disk (show_next_offer d) = ds_disk d"
  by (simp_all add: show_next_offer_def split: list.splits)

lemma handle_event_frame:
  assumes "handle_event clock env ev d = (b, d')"
  shows "ap_rx d' = ap_rx d" "ap_node d' = ap_node d" "ds_nodes d' = ds_nodes d"
    "ap_ui_rx d' = ap_ui_rx d" "ds_jobs d' = ds_jobs d" "ds_dialogs d' = ds_dialogs d"
  using assms
  by (cases ev; auto simp: handle_event_def ui_events ui_ops split: if_splits)+

section \<open>The transcript view\<close>

text \<open>What a row says, apart from the time at which it was put there.\<close>

definition row_text :: "message_row \<Rightarrow> rstr \<times> rstr \<times> bool \<times> bool" where
  "row_text r = (mr_who r, mr_body r, mr_mine r, mr_system r)"

definition event_lines :: "event \<Rightarrow> (rstr \<times> rstr \<times> bool \<times> bool) list" where
  "event_lines ev =
     (case ev of
        EvSystem text \<Rightarrow> [([], text, False, True)]
      | EvChat _ name _ body mine \<Rightarrow> [(name, body, mine, False)]
      | EvFileFinished _ name incoming ok detail \<Rightarrow>
          [([], finished_line name incoming ok detail, False, True)]
      | EvRoomClosed reason \<Rightarrow> [([], lit ''Room closed: '' @ reason, False, True)]
      | _ \<Rightarrow> [])"

definition keep_last :: "nat \<Rightarrow> 'a list \<Rightarrow> 'a list" where
  "keep_last n xs = drop (length xs - n) xs"

lemma keep_last_short: "length xs \<le> n \<Longrightarrow> keep_last n xs = xs"
  by (simp add: keep_last_def)

lemma keep_last_append: "keep_last n (keep_last n xs @ ys) = keep_last n (xs @ ys)"
  by (cases "length xs \<le> n") (simp_all add: keep_last_def drop_append add.commute)

lemma length_keep_last: "length (keep_last n xs) \<le> n"
  by (simp add: keep_last_def)

lemma map_keep_last: "map f (keep_last n xs) = keep_last n (map f xs)"
  by (simp add: keep_last_def drop_map)

lemma push_message_keeps_last:
  assumes "length (ap_messages d) \<le> MAX_VISIBLE_MESSAGES"
  shows "ap_messages (push_message row d) = keep_last MAX_VISIBLE_MESSAGES (ap_messages d @ [row])"
proof (cases "length (ap_messages d) = MAX_VISIBLE_MESSAGES")
  case True
  then have "ap_messages d \<noteq> []" by (auto simp: MAX_VISIBLE_MESSAGES_def)
  with True show ?thesis by (cases "ap_messages d") (simp_all add: push_message_def keep_last_def)
next
  case False
  with assms show ?thesis by (simp add: push_message_def keep_last_def)
qed

lemma handle_event_messages:
  assumes "length (ap_messages d) \<le> MAX_VISIBLE_MESSAGES" "handle_event clock env ev d = (b, d')"
  shows "map row_text (ap_messages d') =
      keep_last MAX_VISIBLE_MESSAGES (map row_text (ap_messages d) @ event_lines ev)"
    "b \<longleftrightarrow> event_lines ev \<noteq> []"
proof -
  have same: "keep_last MAX_VISIBLE_MESSAGES (map row_text (ap_messages d)) = map row_text (ap_messages d)"
    using assms(1) by (simp add: keep_last_short)
  show "map row_text (ap_messages d') =
      keep_last MAX_VISIBLE_MESSAGES (map row_text (ap_messages d) @ event_lines ev)"
    using assms
    by (cases ev) (auto simp: handle_event_def event_lines_def push_system_def ui_events same
        push_message_keeps_last map_keep_last row_text_def system_row_def chat_row_def
        upsert_transfer_def upsert_peer_def remove_request_def Let_def split: if_splits)
  show "b \<longleftrightarrow> event_lines ev \<noteq> []"
    using assms(2) by (cases ev) (auto simp: handle_event_def event_lines_def)
qed

section \<open>The pump\<close>

definition unread :: "desk \<Rightarrow> event list" where
  "unread d =
     (case ap_rx d of None \<Rightarrow> [] | Some (n, k) \<Rightarrow> drop k (nd_events (ds_nodes d ! n)))"

lemma next_event_unread:
  "next_event d =
     (case unread d of [] \<Rightarrow> None
      | ev # _ \<Rightarrow> Some (ev, d\<lparr>ap_rx := map_option (\<lambda>(n, k). (n, Suc k)) (ap_rx d)\<rparr>))"
proof (cases "ap_rx d")
  case None
  then show ?thesis by (simp add: next_event_def unread_def)
next
  case (Some nk)
  obtain n k where nk: "nk = (n, k)" by fastforce
  show ?thesis
  proof (cases "k < length (nd_events (ds_nodes d ! n))")
    case True
    then show ?thesis
      using Some nk by (simp add: next_event_def unread_def Cons_nth_drop_Suc [symmetric])
  next
    case False
    then show ?thesis using Some nk by (simp add: next_event_def unread_def)
  qed
qed

lemma unread_advance:
  "unread (d\<lparr>ap_rx := map_option (\<lambda>(n, k). (n, Suc k)) (ap_rx d)\<rparr>) = tl (unread d)"
  by (simp add: unread_def drop_Suc tl_drop split: option.splits)

lemma unread_cong: "ap_rx d' = ap_rx d \<Longrightarrow> ds_nodes d' = ds_nodes d \<Longrightarrow> unread d' = unread d"
  by (simp add: unread_def split: option.splits)

lemma pump_events_unread:
  assumes "pump_events clock env m d = (b, d')"
  shows "unread d' = drop m (unread d) \<and> ap_ui_rx d' = ap_ui_rx d \<and> ds_nodes d' = ds_nodes d"
  using assms
proof (induction m arbitrary: d b)
  case (Suc m)
  show ?case
  proof (cases "unread d")
    case (Cons ev evs)
    define d1 where "d1 = d\<lparr>ap_rx := map_option (\<lambda>(n, k). (n, Suc k)) (ap_rx d)\<rparr>"
    obtain b2 d2 where h: "handle_event clock env ev d1 = (b2, d2)" by fastforce
    note h' = handle_event_frame [OF h]
    obtain b3 where p: "pump_events clock env m d2 = (b3, d')"
      using Suc.prems Cons h by (auto simp: next_event_unread d1_def [symmetric] split: prod.splits)
    have "unread d2 = evs"
      using unread_advance [of d] Cons h' by (simp add: unread_cong [of d2 d1] d1_def)
    then show ?thesis using Suc.IH [OF p] h' Cons by (simp add: d1_def)
  qed (use Suc.prems in \<open>simp add: next_event_unread\<close>)
qed simp

lemma pump_unread:
  assumes "ap_ui_rx d = []"
  shows "ap_ui_rx (pump clock env d) = []" "ds_nodes (pump clock env d) = ds_nodes d"
    "unread (pump clock env d) = drop MAX_EVENTS_PER_TICK (unread d)"
proof -
  have d: "pump_notes env d = d" using assms by (simp add: pump_notes_def)
  obtain b d1 where p: "pump_events clock env MAX_EVENTS_PER_TICK d = (b, d1)" by fastforce
  have keeps: "ap_ui_rx (pump clock env d) = ap_ui_rx d1" "ap_rx (pump clock env d) = ap_rx d1"
    "ds_nodes (pump clock env d) = ds_nodes d1"
    by (simp_all add: pump_def d p update_expiry_def Let_def)
  then show "ap_ui_rx (pump clock env d) = []" "ds_nodes (pump clock env d) = ds_nodes d"
    "unread (pump clock env d) = drop MAX_EVENTS_PER_TICK (unread d)"
    using pump_events_unread [OF p] assms by (simp_all add: unread_cong [of "pump clock env d" d1])
qed

text \<open>
  A part of the desk that each event updates in its own way: after enough ticks it is what
  all the events make of it, one after the other.
\<close>

locale event_view =
  fixes view :: "desk \<Rightarrow> 'v" and upd :: "event \<Rightarrow> 'v \<Rightarrow> 'v" and good :: "'v \<Rightarrow> bool"
  assumes shows_event:
      "handle_event clock env ev d = (b, d') \<Longrightarrow> good (view d) \<Longrightarrow> view d' = upd ev (view d)"
    and upd_good: "good v \<Longrightarrow> good (upd ev v)"
    and view_rx: "view (d\<lparr>ap_rx := rx\<rparr>) = view d"
    and view_tick: "view (d\<lparr>w_scroll_tick := t\<rparr>) = view d"
    and view_expiry: "view (update_expiry env d) = view d"
begin

lemma fold_good: "good v \<Longrightarrow> good (fold upd evs v)"
  by (induction evs arbitrary: v) (simp_all add: upd_good)

lemma pump_events_view:
  "good (view d) \<Longrightarrow> pump_events clock env m d = (b, d') \<Longrightarrow>
   view d' = fold upd (take m (unread d)) (view d)"
proof (induction m arbitrary: d b)
  case (Suc m)
  show ?case
  proof (cases "unread d")
    case (Cons ev evs)
    define d1 where "d1 = d\<lparr>ap_rx := map_option (\<lambda>(n, k). (n, Suc k)) (ap_rx d)\<rparr>"
    obtain b2 d2 where h: "handle_event clock env ev d1 = (b2, d2)" by fastforce
    have v: "view d2 = upd ev (view d)"
      using shows_event [OF h] Suc.prems(1) by (simp add: d1_def view_rx)
    obtain b3 where p: "pump_events clock env m d2 = (b3, d')"
      using Suc.prems(2) Cons h by (auto simp: next_event_unread d1_def [symmetric] split: prod.splits)
    have "unread d2 = evs"
      using unread_advance [of d] Cons handle_event_frame [OF h] by (simp add: unread_cong [of d2 d1] d1_def)
    then show ?thesis using Suc.IH [OF _ p] v Cons upd_good [OF Suc.prems(1)] by simp
  qed (use Suc.prems in \<open>simp add: next_event_unread\<close>)
qed simp

lemma pump_view:
  assumes "ap_ui_rx d = []" "good (view d)"
  shows "view (pump clock env d) = fold upd (take MAX_EVENTS_PER_TICK (unread d)) (view d)"
proof -
  have d: "pump_notes env d = d" using assms by (simp add: pump_notes_def)
  obtain b d1 where p: "pump_events clock env MAX_EVENTS_PER_TICK d = (b, d1)" by fastforce
  have "view (pump clock env d) = view d1" by (simp add: pump_def d p view_expiry view_tick)
  with pump_events_view [OF assms(2) p] show ?thesis by simp
qed

lemma ticks_view:
  assumes "ap_ui_rx d = []" "good (view d)"
    "length (unread d) \<le> MAX_EVENTS_PER_TICK * length envs"
  shows "view (fold (pump clock) envs d) = fold upd (unread d) (view d)"
  using assms
proof (induction envs arbitrary: d)
  case (Cons env envs)
  note u = pump_unread [OF Cons.prems(1), of clock env]
  note v = pump_view [OF Cons.prems(1,2), of clock env]
  have "good (view (pump clock env d))" using v fold_good Cons.prems(2) by simp
  then have "view (fold (pump clock) envs (pump clock env d)) =
      fold upd (drop MAX_EVENTS_PER_TICK (unread d)) (view (pump clock env d))"
    using Cons.IH [OF u(1)] u(3) Cons.prems(3) by simp
  with v show ?case by (metis append_take_drop_id comp_apply fold.simps(2) fold_append)
qed simp

end

lemma ticks_unread:
  "ap_ui_rx d = [] \<Longrightarrow> length (unread d) \<le> MAX_EVENTS_PER_TICK * length envs \<Longrightarrow>
   unread (fold (pump clock) envs d) = []"
  by (induction envs arbitrary: d) (simp_all add: pump_unread)

definition add_lines :: "event \<Rightarrow> (rstr \<times> rstr \<times> bool \<times> bool) list \<Rightarrow> (rstr \<times> rstr \<times> bool \<times> bool) list" where
  "add_lines ev ls = keep_last MAX_VISIBLE_MESSAGES (ls @ event_lines ev)"

interpretation transcript: event_view "\<lambda>d. map row_text (ap_messages d)" add_lines
  "\<lambda>ls. length ls \<le> MAX_VISIBLE_MESSAGES"
  by unfold_locales
    (simp_all add: add_lines_def handle_event_messages length_keep_last update_expiry_def Let_def)

lemma fold_add_lines:
  "length ls \<le> MAX_VISIBLE_MESSAGES \<Longrightarrow>
   fold add_lines evs ls = keep_last MAX_VISIBLE_MESSAGES (ls @ concat (map event_lines evs))"
  by (induction evs arbitrary: ls)
    (simp_all add: add_lines_def keep_last_short length_keep_last keep_last_append)

section \<open>Rows under one key\<close>

lemma upsert_keys: "set (map key (upsert key row rs)) = insert (key row) (set (map key rs))"
  by (induction rs) auto

lemma upsert_distinct: "distinct (map key rs) \<Longrightarrow> distinct (map key (upsert key row rs))"
  using upsert_keys [of key row] by (induction rs) auto

lemma upsert_find:
  "distinct (map key rs) \<Longrightarrow>
   find (\<lambda>r. key r = k) (upsert key row rs) =
     (if k = key row then Some row else find (\<lambda>r. key r = k) rs)"
  by (induction rs) auto

section \<open>Names in the save dialog\<close>

lemma before_last_paren_append:
  assumes "before_last_paren t = Some u"
  shows "before_last_paren (s @ t) = Some (s @ u)"
proof (induction s)
  case (Cons a s)
  then show ?case using assms by (cases "s @ t") auto
qed (use assms in simp)

lemma before_last_paren_free:
  "ch CHR ''('' \<notin> set s \<Longrightarrow> before_last_paren s = None"
  by (induction s rule: before_last_paren.induct) auto

lemma show_nat_no_paren: "ch CHR ''('' \<notin> set (show_nat n)"
  by (rule show_nat_no_sep) (simp add: is_ascii_digit_def ch_def)

lemma UNITS_no_paren: "i < 5 \<Longrightarrow> ch CHR ''('' \<notin> set (UNITS ! i)"
proof -
  have "list_all (\<lambda>u. ch CHR ''('' \<notin> set u) UNITS" by code_simp
  then show "i < 5 \<Longrightarrow> ch CHR ''('' \<notin> set (UNITS ! i)"
    by (simp add: list_all_length UNITS_def)
qed

lemma human_size_no_paren: "ch CHR ''('' \<notin> set (human_size n)"
proof -
  let ?m = "f64_of_u64 (unat n)"
  have i: "unit_loop ?m 0 < 5" using unit_loop_spec [of 0 ?m] by simp
  have fixed: "ch CHR ''('' \<notin> set (lit '' B'')" "ch CHR ''('' \<noteq> ch CHR ''.''"
    "ch CHR ''('' \<noteq> ch CHR '' ''" by code_simp+
  show ?thesis
    using show_nat_no_paren UNITS_no_paren [OF i] fixed
    by (simp add: human_size_def Let_def del: show_nat.simps)
qed

text \<open>
  C32. The save dialog proposes the name that was offered: from the line that the prompt
  shows, made of the name and the size, it recovers exactly the name, whatever
  characters the name has.
\<close>

theorem save_dialog_proposes_the_offered_name:
  "suggested_name (offer_text name fsize) = name"
proof -
  let ?rest = "human_size fsize @ lit '')''"
  have "ch CHR ''('' \<notin> set ?rest"
    using human_size_no_paren by (simp add: lit_def ch_def)
  then have "before_last_paren (ch CHR ''('' # ?rest) = None"
    using before_last_paren_free [of ?rest] by (cases ?rest) (simp_all add: ch_def)
  then have "before_last_paren (lit '' ('' @ ?rest) = Some []"
    by (simp add: lit_def ch_def)
  then show ?thesis
    using before_last_paren_append [of "lit '' ('' @ ?rest" "[]" name]
    by (simp add: suggested_name_def offer_text_def)
qed

section \<open>The desk stays consistent\<close>

text \<open>
  The lists: the transcript view within its cap, one row per peer and per transfer; the
  oldest waiting offer on display; and \<open>busy\<close> only on the screen where rooms are started.
\<close>

definition view_ok :: "desk \<Rightarrow> bool" where
  "view_ok d \<longleftrightarrow>
     length (ap_messages d) \<le> MAX_VISIBLE_MESSAGES \<and>
     distinct (map pr_id (ap_peers d)) \<and> distinct (map tf_id (ap_transfers d)) \<and>
     (ap_offers d = [] \<or> hd (ap_offers d) = (w_offer_id d, w_offer_text d)) \<and>
     (if w_busy d then w_screen d = lit ''setup''
      else w_screen d = lit ''setup'' \<or> w_screen d = lit ''room'')"

text \<open>Every position that stands for a node is one, and events come from the current node.\<close>

definition refs_ok :: "desk \<Rightarrow> bool" where
  "refs_ok d \<longleftrightarrow>
     map_option fst (ap_rx d) = ap_node d \<and>
     pred_option (\<lambda>n. n < length (ds_nodes d)) (ap_node d) \<and>
     list_all (\<lambda>j. job_node j < length (ds_nodes d)) (ds_jobs d) \<and>
     list_all (\<lambda>g. dialog_node g < length (ds_nodes d)) (ds_dialogs d)"

text \<open>Neither depends on what is inside the nodes.\<close>

lemma view_ok_cong:
  "ap_messages d' = ap_messages d \<Longrightarrow> ap_peers d' = ap_peers d \<Longrightarrow> ap_transfers d' = ap_transfers d \<Longrightarrow>
   ap_offers d' = ap_offers d \<Longrightarrow> w_offer_id d' = w_offer_id d \<Longrightarrow> w_offer_text d' = w_offer_text d \<Longrightarrow>
   w_busy d' = w_busy d \<Longrightarrow> w_screen d' = w_screen d \<Longrightarrow> view_ok d' = view_ok d"
  by (simp add: view_ok_def)

lemma refs_ok_cong:
  "ap_rx d' = ap_rx d \<Longrightarrow> ap_node d' = ap_node d \<Longrightarrow> length (ds_nodes d') = length (ds_nodes d) \<Longrightarrow>
   ds_jobs d' = ds_jobs d \<Longrightarrow> ds_dialogs d' = ds_dialogs d \<Longrightarrow> refs_ok d' = refs_ok d"
  by (simp add: refs_ok_def)

lemma on_node_eq:
  obtains nd where "on_node n f d =
    (fst (on_node n f d), d\<lparr>ds_nodes := (ds_nodes d)[n := nd], ds_disk := nd_disk nd\<rparr>)"
  by (cases "f ((ds_nodes d ! n)\<lparr>nd_disk := ds_disk d\<rparr>)") (auto simp: on_node_def)

lemma on_node_ok:
  assumes "on_node n f d = (r, d')"
  shows "view_ok d' = view_ok d" "refs_ok d' = refs_ok d"
    "length (ds_nodes d') = length (ds_nodes d)"
  using assms by (auto simp: on_node_def view_ok_def refs_ok_def split: prod.splits)

lemma leave_current_ok:
  "view_ok (leave_current env d) = view_ok d"
  "ap_node (leave_current env d) = None"
  "ap_rx (leave_current env d) = ap_rx d"
  "length (ds_nodes (leave_current env d)) = length (ds_nodes d)"
  "ds_jobs (leave_current env d) = ds_jobs d" "ds_dialogs (leave_current env d) = ds_dialogs d"
  "w_busy (leave_current env d) = w_busy d" "w_screen (leave_current env d) = w_screen d"
  by (auto simp: leave_current_def node_leave_def on_node_def view_ok_def split: option.splits prod.splits)

lemma handle_event_ok:
  assumes "handle_event clock env ev d = (b, d')"
  shows "view_ok d \<Longrightarrow> view_ok d'" "refs_ok d' = refs_ok d"
proof -
  show "refs_ok d' = refs_ok d" by (rule refs_ok_cong) (simp_all add: handle_event_frame [OF assms])
  assume ok: "view_ok d"
  then have short: "length (ap_messages d) \<le> MAX_VISIBLE_MESSAGES"
    and offers: "ap_offers d = [] \<or> hd (ap_offers d) = (w_offer_id d, w_offer_text d)"
    and screen: "if w_busy d then w_screen d = lit ''setup''
      else w_screen d = lit ''setup'' \<or> w_screen d = lit ''room''"
    by (simp_all add: view_ok_def)
  have "length (ap_messages d') \<le> MAX_VISIBLE_MESSAGES"
    using arg_cong [OF handle_event_messages(1) [OF short assms], of length]
    by (simp add: length_keep_last)
  moreover have "ap_peers d' \<in> {ap_peers d, []} \<or> (\<exists>row. ap_peers d' = upsert pr_id row (ap_peers d))"
    using assms by (cases ev) (auto simp: handle_event_def ui_events ui_ops split: if_splits)
  then have "distinct (map pr_id (ap_peers d'))"
    using ok by (auto simp: view_ok_def intro: upsert_distinct)
  moreover have "ap_transfers d' = ap_transfers d \<or>
      (\<exists>row. ap_transfers d' = upsert tf_id row (ap_transfers d))"
    using assms by (cases ev) (auto simp: handle_event_def ui_events ui_ops split: if_splits)
  then have "distinct (map tf_id (ap_transfers d'))"
    using ok by (auto simp: view_ok_def intro: upsert_distinct)
  moreover have "ap_offers d' = [] \<or> hd (ap_offers d') = (w_offer_id d', w_offer_text d')"
    using assms offers
    by (cases ev)
      (auto simp: handle_event_def ui_events ui_ops show_next_offer_def hd_append
        split: if_splits list.splits)
  moreover have "if w_busy d' then w_screen d' = lit ''setup''
      else w_screen d' = lit ''setup'' \<or> w_screen d' = lit ''room''"
    using assms screen
    by (cases ev) (auto simp: handle_event_def ui_events ui_ops split: if_splits)
  ultimately show "view_ok d'" by (simp add: view_ok_def)
qed

end
