(* ===== verification/Ui_Runs.thy ===== *)
theory Ui_Runs
  imports Ui_Claims
begin

text \<open>
  Every run of the desk: its lists stay consistent and its references valid whatever the
  user, the worker threads and the engines do, and no event of a node is lost.
\<close>

section \<open>Fields that do not matter\<close>

lemma view_ok_frame [simp]:
  "view_ok (d\<lparr>w_error_line := x1\<rparr>) = view_ok d"
  "view_ok (d\<lparr>w_status_line := x2\<rparr>) = view_ok d"
  "view_ok (d\<lparr>w_draft := x3\<rparr>) = view_ok d"
  "view_ok (d\<lparr>ap_ui_rx := x4\<rparr>) = view_ok d"
  "view_ok (d\<lparr>w_display_name := x5\<rparr>) = view_ok d"
  "view_ok (d\<lparr>w_join_code := x6\<rparr>) = view_ok d"
  "view_ok (d\<lparr>w_mode := x7\<rparr>) = view_ok d"
  "view_ok (d\<lparr>w_expiry_note := x8\<rparr>) = view_ok d"
  "view_ok (d\<lparr>w_my_fingerprint := x9\<rparr>) = view_ok d"
  "view_ok (d\<lparr>ap_last_expiry := x10\<rparr>) = view_ok d"
  "view_ok (d\<lparr>ap_expires_at := x11\<rparr>) = view_ok d"
  "view_ok (d\<lparr>w_is_host := x12\<rparr>) = view_ok d"
  "view_ok (d\<lparr>w_room_code := x13\<rparr>) = view_ok d"
  "view_ok (d\<lparr>w_room_addr := x14\<rparr>) = view_ok d"
  "view_ok (d\<lparr>w_transport_label := x15\<rparr>) = view_ok d"
  "view_ok (d\<lparr>w_scroll_tick := x16\<rparr>) = view_ok d"
  "view_ok (d\<lparr>ap_requests := x17\<rparr>) = view_ok d"
  "view_ok (d\<lparr>ds_jobs := x18\<rparr>) = view_ok d"
  "view_ok (d\<lparr>ds_dialogs := x19\<rparr>) = view_ok d"
  "view_ok (d\<lparr>ap_node := x20\<rparr>) = view_ok d"
  "view_ok (d\<lparr>ap_rx := x21\<rparr>) = view_ok d"
  "view_ok (d\<lparr>ds_nodes := x22\<rparr>) = view_ok d"
  "view_ok (d\<lparr>ds_disk := x23\<rparr>) = view_ok d"
  by (simp_all add: view_ok_def)

lemma refs_ok_frame [simp]:
  "refs_ok (d\<lparr>w_error_line := x24\<rparr>) = refs_ok d"
  "refs_ok (d\<lparr>w_status_line := x25\<rparr>) = refs_ok d"
  "refs_ok (d\<lparr>w_draft := x26\<rparr>) = refs_ok d"
  "refs_ok (d\<lparr>ap_ui_rx := x27\<rparr>) = refs_ok d"
  "refs_ok (d\<lparr>w_display_name := x28\<rparr>) = refs_ok d"
  "refs_ok (d\<lparr>w_join_code := x29\<rparr>) = refs_ok d"
  "refs_ok (d\<lparr>w_mode := x30\<rparr>) = refs_ok d"
  "refs_ok (d\<lparr>w_expiry_note := x31\<rparr>) = refs_ok d"
  "refs_ok (d\<lparr>w_my_fingerprint := x32\<rparr>) = refs_ok d"
  "refs_ok (d\<lparr>ap_last_expiry := x33\<rparr>) = refs_ok d"
  "refs_ok (d\<lparr>ap_expires_at := x34\<rparr>) = refs_ok d"
  "refs_ok (d\<lparr>w_is_host := x35\<rparr>) = refs_ok d"
  "refs_ok (d\<lparr>w_room_code := x36\<rparr>) = refs_ok d"
  "refs_ok (d\<lparr>w_room_addr := x37\<rparr>) = refs_ok d"
  "refs_ok (d\<lparr>w_transport_label := x38\<rparr>) = refs_ok d"
  "refs_ok (d\<lparr>w_scroll_tick := x39\<rparr>) = refs_ok d"
  "refs_ok (d\<lparr>ap_requests := x40\<rparr>) = refs_ok d"
  "refs_ok (d\<lparr>w_screen := x41\<rparr>) = refs_ok d"
  "refs_ok (d\<lparr>w_busy := x42\<rparr>) = refs_ok d"
  "refs_ok (d\<lparr>ap_messages := x43\<rparr>) = refs_ok d"
  "refs_ok (d\<lparr>ap_peers := x44\<rparr>) = refs_ok d"
  "refs_ok (d\<lparr>ap_transfers := x45\<rparr>) = refs_ok d"
  "refs_ok (d\<lparr>ap_offers := x46\<rparr>) = refs_ok d"
  "refs_ok (d\<lparr>w_offer_id := x47\<rparr>) = refs_ok d"
  "refs_ok (d\<lparr>w_offer_text := x48\<rparr>) = refs_ok d"
  "refs_ok (d\<lparr>ds_disk := x49\<rparr>) = refs_ok d"
  by (simp_all add: refs_ok_def)

lemma refs_ok_nodes [simp]:
  "refs_ok (d\<lparr>ds_nodes := (ds_nodes d)[n := nd]\<rparr>) = refs_ok d"
  by (simp add: refs_ok_def)

lemma started_ok [simp]:
  "view_ok (start_job j d) = view_ok d" "view_ok (open_dialog g d) = view_ok d"
  "job_node j < length (ds_nodes d) \<Longrightarrow> refs_ok (start_job j d) = refs_ok d"
  "dialog_node g < length (ds_nodes d) \<Longrightarrow> refs_ok (open_dialog g d) = refs_ok d"
  by (simp_all add: start_job_def open_dialog_def) (simp_all add: refs_ok_def)

lemma on_node_keeps:
  "on_node n f d = (r, d') \<Longrightarrow> view_ok d \<Longrightarrow> refs_ok d \<Longrightarrow> view_ok d' \<and> refs_ok d'"
  by (simp add: on_node_ok)

lemma refs_ok_current: "refs_ok d \<Longrightarrow> ap_node d = Some n \<Longrightarrow> n < length (ds_nodes d)"
  by (simp add: refs_ok_def)

lemma view_ok_busy: "view_ok d \<Longrightarrow> w_screen d = lit ''setup'' \<Longrightarrow> view_ok (d\<lparr>w_busy := b\<rparr>)"
  by (simp add: view_ok_def)

section \<open>The pump\<close>

lemma reset_models_ok:
  "view_ok d \<Longrightarrow> view_ok (reset_models d)" "refs_ok (reset_models d) = refs_ok d"
  "w_busy (reset_models d) = w_busy d" "w_screen (reset_models d) = w_screen d"
  "ap_node (reset_models d) = ap_node d" "ap_rx (reset_models d) = ap_rx d"
  "ds_nodes (reset_models d) = ds_nodes d" "ap_messages (reset_models d) = []"
  "ap_peers (reset_models d) = []" "ap_transfers (reset_models d) = []" "ap_offers (reset_models d) = []"
  "ds_jobs (reset_models d) = ds_jobs d" "ds_dialogs (reset_models d) = ds_dialogs d"
  by (auto simp: reset_models_def view_ok_def refs_ok_def)

lemma handle_note_ok:
  assumes "view_ok d" "refs_ok d"
  shows "view_ok (handle_note env msg d)" "refs_ok (handle_note env msg d)"
  using assms
  by (cases msg; simp add: handle_note_def view_ok_def refs_ok_def leave_current_ok reset_models_ok)+

lemma pump_notes_ok:
  assumes "view_ok d" "refs_ok d"
  shows "view_ok (pump_notes env d) \<and> refs_ok (pump_notes env d)"
proof -
  have "view_ok (fold (handle_note env) msgs d) \<and> refs_ok (fold (handle_note env) msgs d)"
    if "view_ok d" "refs_ok d" for msgs and d :: desk
    using that by (induction msgs arbitrary: d) (simp_all add: handle_note_ok)
  moreover have "view_ok (d\<lparr>ap_ui_rx := []\<rparr>)" "refs_ok (d\<lparr>ap_ui_rx := []\<rparr>)"
    using assms by (simp_all add: view_ok_def refs_ok_def)
  ultimately show ?thesis by (simp add: pump_notes_def)
qed

lemma next_event_ok:
  "next_event d = Some (ev, d') \<Longrightarrow> view_ok d' = view_ok d"
  "next_event d = Some (ev, d') \<Longrightarrow> refs_ok d \<Longrightarrow> refs_ok d'"
  by (auto simp: next_event_def view_ok_def refs_ok_def split: option.splits if_splits)

lemma pump_events_ok:
  "pump_events clock env m d = (b, d') \<Longrightarrow> view_ok d \<Longrightarrow> refs_ok d \<Longrightarrow> view_ok d' \<and> refs_ok d'"
proof (induction m arbitrary: d b)
  case (Suc m)
  show ?case
  proof (cases "next_event d")
    case (Some e)
    obtain ev d1 where e: "e = (ev, d1)" by fastforce
    obtain b2 d2 where h: "handle_event clock env ev d1 = (b2, d2)" by fastforce
    obtain b3 where "pump_events clock env m d2 = (b3, d')"
      using Suc.prems(1) Some e h by (auto split: prod.splits)
    moreover have "view_ok d1" "refs_ok d1"
      using Suc.prems(2,3) next_event_ok Some e by auto
    ultimately show ?thesis using Suc.IH handle_event_ok [OF h] by simp
  qed (use Suc.prems in simp)
qed simp

lemma pump_ok:
  assumes "view_ok d" "refs_ok d"
  shows "view_ok (pump clock env d) \<and> refs_ok (pump clock env d)"
proof -
  obtain b d1 where p: "pump_events clock env MAX_EVENTS_PER_TICK (pump_notes env d) = (b, d1)" by fastforce
  have "view_ok d1 \<and> refs_ok d1" using pump_events_ok [OF p] pump_notes_ok [OF assms] by simp
  then show ?thesis by (simp add: pump_def p update_expiry_def Let_def view_ok_def refs_ok_def)
qed

section \<open>The callbacks\<close>

lemma mode_of_ok:
  assumes "mode_of d = (k, d')"
  shows "view_ok d' = view_ok d" "refs_ok d' = refs_ok d" "w_screen d' = w_screen d"
  using assms by (auto simp: mode_of_def split: option.splits)

lemma list_all_mono: "list_all P xs \<Longrightarrow> (\<And>x. P x \<Longrightarrow> Q x) \<Longrightarrow> list_all Q xs"
  by (metis list.pred_mono_strong)

lemma start_node_ok:
  assumes "start_node env created d = (n, d')" "view_ok d" "refs_ok d"
  shows "view_ok d'" "refs_ok d'" "w_screen d' = w_screen d"
    "pred_option (\<lambda>n. n < length (ds_nodes d')) n"
proof -
  let ?fresh = "\<lambda>pid fp. d\<lparr>ds_nodes := ds_nodes d @ [node_new pid fp (trim (w_display_name d)) (ds_disk d)]\<rparr>"
  have v: "view_ok (?fresh pid fp)" for pid fp using assms(2) by (simp add: view_ok_def)
  have jobs: "list_all (\<lambda>j. job_node j < Suc (length (ds_nodes d))) (ds_jobs d)"
    "list_all (\<lambda>g. dialog_node g < Suc (length (ds_nodes d))) (ds_dialogs d)"
    using assms(3) by (auto simp: refs_ok_def elim!: list_all_mono)
  show "view_ok d'"
    using assms(1,2) v
    by (auto simp: start_node_def Let_def view_ok_def leave_current_ok reset_models_ok
        split: if_splits sum.splits)
  show "refs_ok d'"
    using assms(1,3) jobs
    by (auto simp: start_node_def Let_def refs_ok_def leave_current_ok reset_models_ok
        split: if_splits sum.splits)
  show "w_screen d' = w_screen d"
    using assms(1) by (auto simp: start_node_def Let_def leave_current_ok reset_models_ok
        split: if_splits sum.splits)
  show "pred_option (\<lambda>n. n < length (ds_nodes d')) n"
    using assms(1) by (auto simp: start_node_def Let_def leave_current_ok reset_models_ok
        split: if_splits sum.splits)
qed

lemma click_start_ok:
  assumes "view_ok d" "refs_ok d" "w_screen d = lit ''setup''"
  shows "view_ok (click_host env created d) \<and> refs_ok (click_host env created d)"
    "view_ok (click_join env created d) \<and> refs_ok (click_join env created d)"
proof -
  obtain k d1 where m: "mode_of d = (k, d1)" by fastforce
  note m' = mode_of_ok [OF m]
  obtain n d2 where s: "start_node env created d1 = (n, d2)" by fastforce
  have "view_ok d1" "refs_ok d1" using m' assms by simp_all
  note s' = start_node_ok [OF s this]
  have busy: "view_ok (d2\<lparr>w_error_line := e, w_status_line := t, w_busy := True\<rparr>)" for e t
    using s' m' assms by (simp add: view_ok_busy)
  show "view_ok (click_host env created d) \<and> refs_ok (click_host env created d)"
    using m' s' assms busy by (auto simp: click_host_def m s split: option.splits)
  show "view_ok (click_join env created d) \<and> refs_ok (click_join env created d)"
    using m' s' assms busy by (auto simp: click_join_def m s Let_def split: option.splits)
qed

lemma drop_offers_ok:
  "view_ok d \<Longrightarrow> view_ok (show_next_offer (d\<lparr>ap_offers := os\<rparr>))"
  "refs_ok (show_next_offer (d\<lparr>ap_offers := os\<rparr>)) = refs_ok d"
  by (auto simp: view_ok_def refs_ok_def show_next_offer_def split: list.splits)

lemma finish_offer_ok:
  assumes "finish_offer env n transfer save_to d = Ret d'" "view_ok d" "refs_ok d"
  shows "view_ok d' \<and> refs_ok d'"
proof -
  let ?d1 = "show_next_offer (d\<lparr>ap_offers := filter (\<lambda>(i, _). i \<noteq> transfer) (ap_offers d)\<rparr>)"
  obtain r nd where "respond_offer env transfer save_to ((ds_nodes ?d1 ! n)\<lparr>nd_disk := ds_disk ?d1\<rparr>) = Ret (r, nd)"
    using assms(1) by (auto simp: finish_offer_def Let_def split: run.splits)
  moreover have "view_ok ?d1" "refs_ok ?d1" using assms(2,3) drop_offers_ok by auto
  ultimately show ?thesis
    using assms(1) by (auto simp: finish_offer_def Let_def split: sum.splits simp del: show_next_offer_fields)
qed

lemma on_click_ok:
  assumes "on_click env c d = Ret d'" "active d c" "view_ok d" "refs_ok d"
  shows "view_ok d' \<and> refs_ok d'"
proof (cases c)
  case (ClickHost created)
  then show ?thesis using assms click_start_ok(1) by (auto simp: on_click_def active_def Let_def)
next
  case (ClickJoin created)
  then show ?thesis using assms click_start_ok(2) by (auto simp: on_click_def active_def Let_def)
next
  case ClickSend
  then show ?thesis using assms
    by (auto simp: on_click_def click_send_def Let_def dest: on_node_keeps
        split: option.splits sum.splits prod.splits if_splits)
next
  case (ClickOffer accept)
  then show ?thesis using assms finish_offer_ok refs_ok_current
    by (auto simp: on_click_def click_offer_def split: option.splits if_splits)
next
  case ClickReopen
  then show ?thesis using assms
    by (auto simp: on_click_def click_reopen_def dest: on_node_keeps
        split: option.splits sum.splits prod.splits)
next
  case ClickLeave
  then show ?thesis using assms
    by (auto simp: on_click_def click_leave_def view_ok_def refs_ok_def reset_models_ok leave_current_ok)
qed (use assms refs_ok_current in \<open>auto simp: on_click_def click_approve_def remove_request_def
       click_send_file_def click_export_def click_copy_def
       split: option.splits sum.splits if_splits\<close>)

section \<open>Runs\<close>

lemma run_job_ok:
  assumes "view_ok d" "refs_ok d" "job_node j < length (ds_nodes d)"
  shows "view_ok (run_job env i j d) \<and> refs_ok (run_job env i j d)"
  using assms
  by (cases j)
    (auto simp: run_job_def report_def on_node_ok(3) dest: on_node_keeps split: prod.splits sum.splits)

lemma on_answer_ok:
  assumes "on_answer u g a d = Ret d'" "view_ok d" "refs_ok d"
  shows "view_ok d' \<and> refs_ok d'"
proof (cases g)
  case (SaveOffer n transfer)
  then show ?thesis using assms finish_offer_ok
    by (auto simp: on_answer_def offer_saved_def split: option.splits)
qed (use assms in \<open>auto simp: on_answer_def file_picked_def transcript_saved_def error_or_clear_def
       dest: on_node_keeps split: option.splits prod.splits sum.splits\<close>)

lemma refs_ok_less:
  "refs_ok d \<Longrightarrow> refs_ok (d\<lparr>ds_jobs := remove1 j (ds_jobs d)\<rparr>)"
  "refs_ok d \<Longrightarrow> refs_ok (d\<lparr>ds_dialogs := remove1 g (ds_dialogs d)\<rparr>)"
  using set_remove1_subset [of j "ds_jobs d"] set_remove1_subset [of g "ds_dialogs d"]
  by (auto simp: refs_ok_def list_all_iff)

lemma desk_step_ok:
  assumes "desk_step d l d'" "view_ok d" "refs_ok d"
  shows "view_ok d' \<and> refs_ok d'"
  using assms
proof cases
  case (click c u)
  then show ?thesis using assms on_click_ok by blast
next
  case (worker j u i)
  then have "job_node j < length (ds_nodes d)" using assms(3) by (auto simp: refs_ok_def list_all_iff)
  with worker show ?thesis using assms refs_ok_less run_job_ok by simp
next
  case (answer g u a)
  then show ?thesis using assms refs_ok_less on_answer_ok by fastforce
qed (use assms pump_ok in \<open>simp_all\<close>)

interpretation desk: run_invariant desk_step "\<lambda>_ d. view_ok d \<and> refs_ok d"
  by unfold_locales (simp add: desk_step_ok)

lemma desk_start_ok: "view_ok (desk_start disk)" "refs_ok (desk_start disk)"
  by (simp_all add: desk_start_def view_ok_def refs_ok_def)

text \<open>
  C33. In every run of the program, however clicks, timer ticks, worker threads, dialogs and
  engine threads interleave: the transcript view holds at most 2000 lines, each peer and
  each transfer has one row, the oldest waiting offer is the one on display, \<open>busy\<close> is
  set on the setup screen only, and the current node, its event queue, the workers and the
  dialogs all refer to nodes that exist.
\<close>

theorem desk_stays_consistent:
  assumes "runs desk_step (desk_start disk) ls d"
  shows "length (ap_messages d) \<le> 2000 \<and>
    distinct (map pr_id (ap_peers d)) \<and> distinct (map tf_id (ap_transfers d)) \<and>
    (ap_offers d = [] \<or> hd (ap_offers d) = (w_offer_id d, w_offer_text d)) \<and>
    (w_screen d = lit ''setup'' \<or> w_screen d = lit ''room'' \<and> \<not> w_busy d) \<and> refs_ok d"
proof -
  have "view_ok d \<and> refs_ok d" by (rule desk.holds_after [OF assms]) (simp add: desk_start_ok)
  then show ?thesis by (auto simp: view_ok_def MAX_VISIBLE_MESSAGES_def split: if_splits)
qed

text \<open>The window after a click on the button that joins, with a name and a code typed in.\<close>

definition joining_desk :: desk where
  "joining_desk = click_join sample_env (Inr (lit ''me'', lit ''AB''))
     ((desk_start sample_disk)\<lparr>w_display_name := lit ''Ann'', w_join_code := lit ''L''\<rparr>)"

definition sample_ui :: ui_env where
  "sample_ui = \<lparr>ue_env = sample_env, ue_clock = \<lambda>_. [], ue_fmt = \<lambda>_. [],
     ue_json = \<lambda>_ _ _ _. Inr [], ue_display = \<lambda>p. p\<rparr>"

lemma joining_run:
  "runs desk_step (desk_start sample_disk)
     [(sample_ui, Click (TypeName (lit ''Ann''))), (sample_ui, Click (TypeCode (lit ''L''))),
      (sample_ui, Click (ClickJoin (Inr (lit ''me'', lit ''AB''))))] joining_desk"
proof -
  let ?d1 = "(desk_start sample_disk)\<lparr>w_display_name := lit ''Ann''\<rparr>"
  let ?d2 = "?d1\<lparr>w_join_code := lit ''L''\<rparr>"
  have "desk_step (desk_start sample_disk) (sample_ui, Click (TypeName (lit ''Ann''))) ?d1"
    by (rule desk_step.click) (simp_all add: active_def on_click_def desk_start_def)
  moreover have "desk_step ?d1 (sample_ui, Click (TypeCode (lit ''L''))) ?d2"
    by (rule desk_step.click) (simp_all add: active_def on_click_def desk_start_def)
  moreover have "desk_step ?d2 (sample_ui, Click (ClickJoin (Inr (lit ''me'', lit ''AB'')))) joining_desk"
    by (rule desk_step.click)
      (simp_all add: active_def on_click_def desk_start_def joining_desk_def sample_ui_def)
  ultimately have "runs desk_step (desk_start sample_disk)
      (([] @ [(sample_ui, Click (TypeName (lit ''Ann'')))]) @
       [(sample_ui, Click (TypeCode (lit ''L'')))] @
       [(sample_ui, Click (ClickJoin (Inr (lit ''me'', lit ''AB''))))]) joining_desk"
    by (simp only: append_assoc [symmetric])
      (intro runs.run_step [where step = desk_step], rule runs.run_start, assumption+)
  then show ?thesis by simp
qed

theorem desk_stays_consistent_witness:
  "w_screen joining_desk = lit ''setup'' \<or> w_screen joining_desk = lit ''room'' \<and> \<not> w_busy joining_desk"
  using desk_stays_consistent [OF joining_run] by blast

end
