(* ===== verification/Membership.thy ===== *)
theory Membership
  imports Node_State
begin

text \<open>
  The membership protocol of a node as a specification: who is registered, who is on the
  roster, which requests wait, and the few ways in which these may change.  The handlers of
  \<open>core/src/mesh.rs\<close> are shown to be sequences of these steps in \<open>Node_Refinement\<close>, so what is
  proved here of every run of the specification holds of every run of the code.
\<close>

section \<open>The specification\<close>

record membership =
  m_role :: "role option"
  m_running :: bool
  m_peers :: "(peer_id, peer) hmap"
  m_roster :: "(peer_id, peer_info) hmap"
  m_pending :: "(rstr, pending) hmap"
  m_seq :: u64

text \<open>Why an id comes onto the roster, and why a link is registered.\<close>

datatype enrolment = Approved | Announced | Welcomed
datatype attachment = Member | ByWelcome | Dialled

datatype mlabel =
    MOpen role
  | MClose
  | MLeave
  | MPark peer_info link_id
  | MAnswer rstr
  | MEnrol enrolment peer_info
  | MStrike peer_id
  | MAttach attachment peer_info link_id
  | MDetach peer_id

inductive mstep :: "membership \<Rightarrow> mlabel \<Rightarrow> membership \<Rightarrow> bool" where
  m_open: "\<not> m_running m \<Longrightarrow> mstep m (MOpen r)
    (m\<lparr>m_role := Some r, m_running := True, m_peers := [], m_roster := [], m_pending := []\<rparr>)"
| m_close: "mstep m MClose (m\<lparr>m_running := False, m_peers := [], m_roster := []\<rparr>)"
| m_leave: "mstep m MLeave
    (m\<lparr>m_running := False, m_peers := [], m_roster := [], m_pending := []\<rparr>)"
| m_park: "m_role m = Some Host \<Longrightarrow> hm_get (m_roster m) (pi_id info) = None \<Longrightarrow>
    mstep m (MPark info l)
    (m\<lparr>m_pending := hm_insert (show_nat (unat (m_seq m))) \<lparr>pd_info = info, pd_link = l\<rparr> (m_pending m),
       m_seq := m_seq m + 1\<rparr>)"
| m_answer: "mstep m (MAnswer req) (m\<lparr>m_pending := hm_remove req (m_pending m)\<rparr>)"
| m_enrol: "mstep m (MEnrol why info) (m\<lparr>m_roster := hm_insert (pi_id info) info (m_roster m)\<rparr>)"
| m_strike: "mstep m (MStrike k) (m\<lparr>m_roster := hm_remove k (m_roster m)\<rparr>)"
| m_attach: "m_running m \<Longrightarrow> (why = Member \<Longrightarrow> hm_get (m_roster m) (pi_id info) \<noteq> None) \<Longrightarrow>
    mstep m (MAttach why info l)
    (m\<lparr>m_roster := hm_insert (pi_id info) info (m_roster m),
       m_peers := hm_insert (pi_id info) \<lparr>p_info = info, p_link = l\<rparr> (m_peers m)\<rparr>)"
| m_detach: "mstep m (MDetach k)
    (m\<lparr>m_peers := hm_remove k (m_peers m),
       m_roster := (if m_role m = Some Host then hm_remove k (m_roster m) else m_roster m)\<rparr>)"

inductive_cases mstepE: "mstep m l m'"

section \<open>Well-formedness\<close>

definition membership_ok :: "membership \<Rightarrow> bool" where
  "membership_ok m \<longleftrightarrow>
     hm_ok (m_peers m) \<and> hm_ok (m_roster m) \<and> hm_ok (m_pending m) \<and>
     (m_running m \<or> m_peers m = []) \<and>
     (\<forall>k p. hm_get (m_peers m) k = Some p \<longrightarrow> pi_id (p_info p) = k)"

lemma mstep_ok: "mstep m l m' \<Longrightarrow> membership_ok m \<Longrightarrow> membership_ok m'"
  by (induction rule: mstep.induct)
    (auto simp: membership_ok_def hm_simps split: if_splits)

interpretation registry: run_invariant mstep "\<lambda>_. membership_ok"
  by unfold_locales (rule mstep_ok)

section \<open>Request numbers\<close>

definition parks :: "mlabel list \<Rightarrow> nat" where
  "parks ls = length (filter (\<lambda>l. case l of MPark _ _ \<Rightarrow> True | _ \<Rightarrow> False) ls)"

lemma parks_append [simp]: "parks (a @ b) = parks a + parks b"
  by (simp add: parks_def)

text \<open>As long as the counter has not wrapped, every waiting number is below it.\<close>

definition requests_ok :: "mlabel list \<Rightarrow> membership \<Rightarrow> bool" where
  "requests_ok ls m \<longleftrightarrow>
     Suc (parks ls) < 2 ^ 64 \<longrightarrow>
       unat (m_seq m) = Suc (parks ls) \<and>
       (\<forall>k pd. hm_get (m_pending m) k = Some pd \<longrightarrow> (\<exists>n < unat (m_seq m). k = show_nat n))"

lemma unat_suc: "unat (w :: u64) = n \<Longrightarrow> Suc n < 2 ^ 64 \<Longrightarrow> unat (w + 1) = Suc n"
  by (simp add: unat_word_ariths)

lemma mstep_requests: "mstep m l m' \<Longrightarrow> requests_ok ls m \<Longrightarrow> requests_ok (ls @ [l]) m'"
proof (induction rule: mstep.induct)
  case (m_park m info l)
  show ?case
    unfolding requests_ok_def
  proof (intro impI conjI allI)
    assume small: "Suc (parks (ls @ [MPark info l])) < 2 ^ 64"
    then have old: "unat (m_seq m) = Suc (parks ls)"
      "\<And>k pd. hm_get (m_pending m) k = Some pd \<Longrightarrow> \<exists>n < unat (m_seq m). k = show_nat n"
      using m_park.prems by (auto simp: requests_ok_def parks_def)
    have new: "unat (m_seq m + 1) = Suc (Suc (parks ls))"
      by (rule unat_suc [OF old(1)]) (use small in \<open>simp add: parks_def\<close>)
    then show "unat (m_seq (m\<lparr>m_pending := hm_insert (show_nat (unat (m_seq m)))
          \<lparr>pd_info = info, pd_link = l\<rparr> (m_pending m), m_seq := m_seq m + 1\<rparr>)) =
        Suc (parks (ls @ [MPark info l]))"
      by (simp add: parks_def)
    fix k pd
    assume "hm_get (m_pending (m\<lparr>m_pending := hm_insert (show_nat (unat (m_seq m)))
          \<lparr>pd_info = info, pd_link = l\<rparr> (m_pending m), m_seq := m_seq m + 1\<rparr>)) k = Some pd"
    then show "\<exists>n < unat (m_seq (m\<lparr>m_pending := hm_insert (show_nat (unat (m_seq m)))
          \<lparr>pd_info = info, pd_link = l\<rparr> (m_pending m), m_seq := m_seq m + 1\<rparr>)). k = show_nat n"
      using old new by (auto simp: hm_simps split: if_splits dest!: old(2))
  qed
qed (auto simp: requests_ok_def parks_def hm_simps split: if_splits)

interpretation requests: run_invariant mstep requests_ok
  by unfold_locales (rule mstep_requests)

text \<open>So a new request never takes the place of one that waits.\<close>

lemma request_number_is_new:
  assumes "requests_ok ls m" "Suc (parks ls) < 2 ^ 64"
  shows "hm_get (m_pending m) (show_nat (unat (m_seq m))) = None"
proof (rule ccontr)
  assume "hm_get (m_pending m) (show_nat (unat (m_seq m))) \<noteq> None"
  then obtain n where "n < unat (m_seq m)" "show_nat (unat (m_seq m)) = show_nat n"
    using assms unfolding requests_ok_def by blast
  then show False by simp
qed

section \<open>Admission\<close>

text \<open>The steps of a node that hosts and believes nobody else's announcements.\<close>

fun hosting_mlabel :: "mlabel \<Rightarrow> bool" where
  "hosting_mlabel (MEnrol why _) \<longleftrightarrow> why = Approved"
| "hosting_mlabel (MAttach why _ _) \<longleftrightarrow> why = Member"
| "hosting_mlabel _ \<longleftrightarrow> True"

fun approved_ids :: "mlabel list \<Rightarrow> peer_id list" where
  "approved_ids [] = []"
| "approved_ids (MEnrol Approved info # ls) = pi_id info # approved_ids ls"
| "approved_ids (_ # ls) = approved_ids ls"

lemma approved_ids_append [simp]: "approved_ids (a @ b) = approved_ids a @ approved_ids b"
  by (induction a rule: approved_ids.induct) simp_all

definition only_approved :: "mlabel list \<Rightarrow> membership \<Rightarrow> bool" where
  "only_approved ls m \<longleftrightarrow>
     list_all hosting_mlabel ls \<longrightarrow>
       (\<forall>k. hm_get (m_roster m) k \<noteq> None \<or> hm_get (m_peers m) k \<noteq> None \<longrightarrow> k \<in> set (approved_ids ls))"

lemma mstep_only_approved: "mstep m l m' \<Longrightarrow> only_approved ls m \<Longrightarrow> only_approved (ls @ [l]) m'"
  by (induction rule: mstep.induct)
    (auto simp: only_approved_def hm_simps split: if_splits)

interpretation admission: run_invariant mstep only_approved
  by unfold_locales (rule mstep_only_approved)

section \<open>Runs\<close>

lemma runs_append: "runs step a ls b \<Longrightarrow> runs step b ms c \<Longrightarrow> runs step a (ls @ ms) c"
proof (rotate_tac, induction rule: runs.induct)
  case (run_start s)
  then show ?case by simp
next
  case (run_step s ms s' l s'')
  then have "runs step a ((ls @ ms) @ [l]) s''" by (intro runs.run_step) auto
  then show ?case by simp
qed

lemma runs_one: "step a l b \<Longrightarrow> runs step a [l] b"
  using runs.run_step [OF runs.run_start, of step a l b] by simp

end
