(* ===== verification/File_Integrity.thy ===== *)
theory File_Integrity
  imports Links
begin

text \<open>
  What the transfers of \<open>Files\<close> guarantee: the invariant of the receiving side (every file
  being received holds exactly the bytes hashed so far), what each operation does to the
  transfers and the disk, and the claims about receiving, aborting, cancelling and sending.
\<close>

section \<open>The invariant of the receiving side\<close>

definition active_ok :: "disk \<Rightarrow> active_in \<Rightarrow> bool" where
  "active_ok d a \<longleftrightarrow>
     ai_got a = of_nat (length (ai_hashed a)) \<and> ai_got a \<le> ai_size a \<and>
     fh_pos (ai_file a) = length (ai_hashed a) \<and>
     file_content d (fh_path (ai_file a)) = ai_hashed a"

definition ai_path :: "active_in \<Rightarrow> path" where
  "ai_path a = fh_path (ai_file a)"

definition transfers_ok :: "transfers \<Rightarrow> disk \<Rightarrow> bool" where
  "transfers_ok t d \<longleftrightarrow>
     (\<forall>k a. hm_get (tr_active t) k = Some a \<longrightarrow> active_ok d a) \<and>
     (\<forall>k k' a a'. hm_get (tr_active t) k = Some a \<longrightarrow> hm_get (tr_active t) k' = Some a' \<longrightarrow>
        k \<noteq> k' \<longrightarrow> ai_path a \<noteq> ai_path a')"

definition path_free :: "path \<Rightarrow> transfers \<Rightarrow> bool" where
  "path_free p t \<longleftrightarrow> list_all (\<lambda>(k, a). ai_path a \<noteq> p) (tr_active t)"

lemma path_freeD: "path_free p t \<Longrightarrow> hm_get (tr_active t) k = Some a \<Longrightarrow> ai_path a \<noteq> p"
  by (auto simp: path_free_def list_all_iff dest!: hm_get_in)

lemma transfers_okD:
  "transfers_ok t d \<Longrightarrow> hm_get (tr_active t) k = Some a \<Longrightarrow> active_ok d a"
  by (simp add: transfers_ok_def)

lemma transfers_ok_distinct:
  "transfers_ok t d \<Longrightarrow> hm_get (tr_active t) k = Some a \<Longrightarrow> hm_get (tr_active t) k' = Some a' \<Longrightarrow>
     k \<noteq> k' \<Longrightarrow> ai_path a \<noteq> ai_path a'"
  unfolding transfers_ok_def by blast

lemma active_ok_cong:
  "active_ok d a \<Longrightarrow> file_content d' (ai_path a) = file_content d (ai_path a) \<Longrightarrow> active_ok d' a"
  unfolding active_ok_def ai_path_def by metis

text \<open>Forgetting transfers keeps the invariant, and so does writing elsewhere.\<close>

lemma transfers_ok_mono:
  assumes "transfers_ok t d"
    and "\<And>k a. hm_get (tr_active t') k = Some a \<Longrightarrow> hm_get (tr_active t) k = Some a"
    and "\<And>k a. hm_get (tr_active t') k = Some a \<Longrightarrow>
      file_content d' (ai_path a) = file_content d (ai_path a)"
  shows "transfers_ok t' d'"
  using assms unfolding transfers_ok_def by (metis active_ok_cong)

lemma transfers_ok_same_disk:
  assumes "transfers_ok t d"
    and "\<And>k a. hm_get (tr_active t') k = Some a \<Longrightarrow> hm_get (tr_active t) k = Some a"
  shows "transfers_ok t' d"
  using assms by (rule transfers_ok_mono) simp_all

text \<open>Adding or replacing one transfer whose file no other transfer writes.\<close>

lemma transfers_ok_insert:
  assumes "transfers_ok t d" "active_ok d' a"
    and act: "tr_active t' = hm_insert k a (tr_active t)"
    and other: "\<And>k' a'. hm_get (tr_active t) k' = Some a' \<Longrightarrow> k' \<noteq> k \<Longrightarrow> ai_path a' \<noteq> ai_path a"
    and disk: "\<And>q. q \<noteq> ai_path a \<Longrightarrow> file_content d' q = file_content d q"
  shows "transfers_ok t' d'"
  unfolding transfers_ok_def
proof (intro conjI allI impI)
  fix k1 a1 assume a1: "hm_get (tr_active t') k1 = Some a1"
  show "active_ok d' a1"
  proof (cases "k1 = k")
    case True
    with a1 act assms(2) show ?thesis by (simp add: hm_simps)
  next
    case False
    with a1 act have old: "hm_get (tr_active t) k1 = Some a1" by (simp add: hm_simps)
    show ?thesis
      by (rule active_ok_cong [OF transfers_okD [OF assms(1) old] disk [OF other [OF old False]]])
  qed
next
  fix k1 k2 a1 a2
  assume "hm_get (tr_active t') k1 = Some a1" "hm_get (tr_active t') k2 = Some a2" "k1 \<noteq> k2"
  then show "ai_path a1 \<noteq> ai_path a2"
    using transfers_ok_distinct [OF assms(1)] other unfolding act hm.get_ins
    by (metis option.inject)
qed

section \<open>A chunk\<close>

lemma take_chunk_progress:
  assumes "take_chunk env seq data a d = (Progress r, a', d')" "active_ok d a"
  shows "active_ok d' a'" "ai_hashed a' = ai_hashed a @ data" "ai_path a' = ai_path a"
    "seq = ai_next_seq a" "ai_next_seq a' = seq + 1" "ai_size a' = ai_size a"
    "ai_expect_sha a' = ai_expect_sha a" "ai_peer_id a' = ai_peer_id a"
    "q \<noteq> ai_path a \<Longrightarrow> file_content d' q = file_content d q"
proof -
  obtain f where w: "seq = ai_next_seq a" "ai_got a + of_nat (length data) \<le> ai_size a"
    "file_write_all (ai_file a) data d = (None, f, d')"
    and a': "ai_file a' = f" "ai_hashed a' = ai_hashed a @ data" "ai_next_seq a' = seq + 1"
    "ai_got a' = ai_got a + of_nat (length data)" "ai_size a' = ai_size a"
    "ai_expect_sha a' = ai_expect_sha a" "ai_peer_id a' = ai_peer_id a"
    using assms(1)
    by (auto simp: take_chunk_def Let_def not_less split: if_splits prod.splits option.splits)
  have pos: "fh_pos (ai_file a) = length (file_content d (fh_path (ai_file a)))"
    using assms(2) by (simp add: active_ok_def)
  note fw = file_write_append [OF w(3) pos]
  from fw have path: "fh_path f = fh_path (ai_file a)" by simp
  with a' show "ai_path a' = ai_path a" by (simp add: ai_path_def)
  show "active_ok d' a'"
    using fw w a' assms(2) by (simp add: active_ok_def path)
  show "ai_hashed a' = ai_hashed a @ data" "seq = ai_next_seq a" "ai_next_seq a' = seq + 1"
    "ai_size a' = ai_size a" "ai_expect_sha a' = ai_expect_sha a" "ai_peer_id a' = ai_peer_id a"
    by (fact a' w)+
  show "q \<noteq> ai_path a \<Longrightarrow> file_content d' q = file_content d q"
    using file_write_other [OF w(3)] by (simp add: ai_path_def)
qed

lemma take_chunk_disk:
  "take_chunk env seq data a d = (r, a', d') \<Longrightarrow> q \<noteq> ai_path a \<Longrightarrow>
     file_content d' q = file_content d q"
  by (auto simp: take_chunk_def Let_def ai_path_def split: if_splits prod.splits option.splits
      dest: file_write_other)

text \<open>The transfers and the disk after a chunk that concerns an active transfer of its sender.\<close>

lemma handle_chunk_hit:
  assumes "hm_get (tr_active (nd_transfers nd)) tid = Some a" "ai_peer_id a = pi_id (p_info p)"
    and "take_chunk env seq data a (nd_disk nd) = (r, a', d')"
  shows "nd_disk (handle_chunk env p tid seq data nd) = d'"
    "tr_active (nd_transfers (handle_chunk env p tid seq data nd)) =
       (case r of
          Problem _ \<Rightarrow> hm_remove tid (hm_insert tid a' (tr_active (nd_transfers nd)))
        | Progress _ \<Rightarrow> hm_insert tid a' (tr_active (nd_transfers nd)))"
  using assms
  by (auto simp: handle_chunk_def node_ops Let_def split: chunk_outcome.splits option.splits)

lemma handle_chunk_miss:
  "hm_get (tr_active (nd_transfers nd)) tid = None \<Longrightarrow> handle_chunk env p tid seq data nd = nd"
  "hm_get (tr_active (nd_transfers nd)) tid = Some a \<Longrightarrow> ai_peer_id a \<noteq> pi_id (p_info p) \<Longrightarrow>
     handle_chunk env p tid seq data nd = nd"
  by (simp_all add: handle_chunk_def)

lemma handle_chunk_ok:
  assumes "transfers_ok (nd_transfers nd) (nd_disk nd)"
  shows "transfers_ok (nd_transfers (handle_chunk env p tid seq data nd))
    (nd_disk (handle_chunk env p tid seq data nd))"
proof (cases "hm_get (tr_active (nd_transfers nd)) tid")
  case None
  with assms show ?thesis by (simp add: handle_chunk_miss)
next
  case (Some a)
  show ?thesis
  proof (cases "ai_peer_id a = pi_id (p_info p)")
    case False
    with Some assms show ?thesis by (simp add: handle_chunk_miss)
  next
    case True
    obtain r a' d' where t: "take_chunk env seq data a (nd_disk nd) = (r, a', d')"
      by (metis prod_cases3)
    note hit = handle_chunk_hit [OF Some True t]
    have aok: "active_ok (nd_disk nd) a" using transfers_okD [OF assms Some] .
    note sep = transfers_ok_distinct [OF assms _ Some]
    show ?thesis
    proof (cases r)
      case (Problem reason)
      show ?thesis
      proof (rule transfers_ok_mono [OF assms])
        fix k b
        assume "hm_get (tr_active (nd_transfers (handle_chunk env p tid seq data nd))) k = Some b"
        then have b: "k \<noteq> tid" "hm_get (tr_active (nd_transfers nd)) k = Some b"
          using hit Problem by (auto simp: hm_simps split: if_splits)
        then show "hm_get (tr_active (nd_transfers nd)) k = Some b" by simp
        show "file_content (nd_disk (handle_chunk env p tid seq data nd)) (ai_path b) =
            file_content (nd_disk nd) (ai_path b)"
          using take_chunk_disk [OF t] sep [OF b(2) b(1)] hit by simp
      qed
    next
      case (Progress u)
      note tc = take_chunk_progress [OF t [unfolded Progress] aok]
      show ?thesis
        by (rule transfers_ok_insert [OF assms, where a = a' and k = tid])
          (use tc hit Progress sep in auto)
    qed
  qed
qed

section \<open>The other operations\<close>

lemma complete_incoming_active:
  "tr_active (nd_transfers (complete_incoming env transfer tid nd)) =
     hm_remove tid (tr_active (nd_transfers nd))"
  "nd_disk (complete_incoming env transfer tid nd) = nd_disk nd"
  by (auto simp: complete_incoming_def node_ops Let_def hm_remove_absent split: option.splits)

lemma abort_incoming_active:
  "tr_active (nd_transfers (abort_incoming transfer reason tid nd)) =
     hm_remove tid (tr_active (nd_transfers nd))"
  "nd_disk (abort_incoming transfer reason tid nd) = nd_disk nd"
  by (auto simp: abort_incoming_def node_ops Let_def split: option.splits)

lemma other_controls_active [simp]:
  "tr_active (nd_transfers (store_offer p transfer name fsize sha tid nd)) = tr_active (nd_transfers nd)"
  "nd_disk (store_offer p transfer name fsize sha tid nd) = nd_disk nd"
  "tr_active (nd_transfers (push_decision dec tid nd)) = tr_active (nd_transfers nd)"
  "nd_disk (push_decision dec tid nd) = nd_disk nd"
  by (auto simp: store_offer_def push_decision_def node_ops Let_def split: option.splits)

lemma with_transfer_id_cases:
  assumes "with_transfer_id transfer f nd = Ret nd'"
  obtains "nd' = nd" | tid where "unhex16 transfer = Ret (Inr tid)" "nd' = f tid nd"
  using assms by (auto simp: with_transfer_id_def split: run.splits sum.splits)

text \<open>
  The file messages never touch the disk, and never add an active transfer.
\<close>

lemma handle_file_control_effect:
  assumes "handle_file_control env p c nd = Ret nd'"
  shows "nd_disk nd' = nd_disk nd"
    "hm_get (tr_active (nd_transfers nd')) k = Some a \<Longrightarrow>
       hm_get (tr_active (nd_transfers nd)) k = Some a"
proof -
  have "nd_disk nd' = nd_disk nd \<and>
      (hm_get (tr_active (nd_transfers nd')) k = Some a \<longrightarrow>
       hm_get (tr_active (nd_transfers nd)) k = Some a)"
    using assms unfolding handle_file_control_def
    by (auto split: control.splits elim!: with_transfer_id_cases
        simp: complete_incoming_active abort_incoming_active hm_simps split: if_splits)
  then show "nd_disk nd' = nd_disk nd"
    "hm_get (tr_active (nd_transfers nd')) k = Some a \<Longrightarrow>
       hm_get (tr_active (nd_transfers nd)) k = Some a" by simp_all
qed

section \<open>A whole file\<close>

text \<open>
  What a file that is read from its beginning delivers, whatever the size of the buffer.
\<close>

fun file_bytes :: "source \<Rightarrow> io_error + bytes" where
  "file_bytes [] = Inr []"
| "file_bytes (Data d # src) =
     (if d = [] then Inr [] else case file_bytes src of Inl e \<Rightarrow> Inl e | Inr bs \<Rightarrow> Inr (d @ bs))"
| "file_bytes (ReadErr e # src) = Inl e"

lemma stream_read_file_bytes:
  "stream_read n src = (Inr d, src') \<Longrightarrow> 0 < n \<Longrightarrow> d \<noteq> [] \<Longrightarrow>
     file_bytes src = (case file_bytes src' of Inl e \<Rightarrow> Inl e | Inr bs \<Rightarrow> Inr (d @ bs)) \<and> length d \<le> n"
  "stream_read n src = (Inr [], src') \<Longrightarrow> 0 < n \<Longrightarrow> file_bytes src = Inr []"
  "stream_read n src = (Inl e, src') \<Longrightarrow> file_bytes src = Inl e"
  by (induction n src rule: stream_read.induct) (auto split: if_splits sum.splits)

lemma hash_loop_file_bytes:
  "hash_loop src fed = (case file_bytes src of Inl e \<Rightarrow> Inl e | Inr bs \<Rightarrow> Inr (fed @ bs))"
proof (induction src fed rule: hash_loop.induct)
  case (1 src fed)
  obtain r src' where r: "stream_read 65536 src = (r, src')" by fastforce
  show ?case
  proof (cases r)
    case (Inl e)
    with r stream_read_file_bytes(3) [of 65536 src e src'] show ?thesis
      by (simp add: hash_loop.simps [of src fed])
  next
    case (Inr d)
    show ?thesis
    proof (cases "d = []")
      case True
      with r Inr stream_read_file_bytes(2) [of 65536 src src'] show ?thesis
        by (simp add: hash_loop.simps [of src fed])
    next
      case False
      with r Inr stream_read_file_bytes(1) [of 65536 src d src'] "1.IH" [OF r [symmetric] Inr False]
      show ?thesis by (simp add: hash_loop.simps [of src fed] split: sum.splits)
    qed
  qed
qed

text \<open>The sending thread after the answer, run to its end with nothing else happening.\<close>

lemma send_chunk_next_smaller:
  "send_chunk env p tid name fsize prog nd = (Some (OutSending p' tid' name' fsize' prog'), nd') \<Longrightarrow>
     src_size (op_src prog') < src_size (op_src prog)"
  by (auto simp: send_chunk_def Let_def CHUNK_SIZE_def split: if_splits sum.splits prod.splits
      dest: stream_read_src_size)

lemma send_chunk_next_smaller_rev:
  "(Some (OutSending p' tid' name' fsize' prog'), nd') = send_chunk env p tid name fsize prog nd \<Longrightarrow>
     src_size (op_src prog') < src_size (op_src prog)"
  by (metis send_chunk_next_smaller)

function send_run ::
  "env \<Rightarrow> peer \<Rightarrow> bytes \<Rightarrow> rstr \<Rightarrow> u64 \<Rightarrow> out_progress \<Rightarrow> node \<Rightarrow> node" where
  "send_run env p tid name fsize prog nd =
     (case send_chunk env p tid name fsize prog nd of
        (Some (OutSending _ _ _ _ prog'), nd') \<Rightarrow> send_run env p tid name fsize prog' nd'
      | (_, nd') \<Rightarrow> nd')"
  by pat_completeness auto
termination
  by (relation "measure (\<lambda>(_, _, _, _, _, prog, _). src_size (op_src prog))")
    (auto intro: send_chunk_next_smaller_rev)

declare send_run.simps [simp del]

fun chunk_frames :: "bytes \<Rightarrow> u32 \<Rightarrow> bytes list \<Rightarrow> bytes list" where
  "chunk_frames tid seq [] = []"
| "chunk_frames tid seq (c # cs) = encode_chunk tid seq c # chunk_frames tid (seq + 1) cs"

lemma send_done_wire:
  "nd_wire (send_done env p tid name fsize nd) =
     nd_wire nd @ delivered env (p_link p) (FileDone (hex tid))"
  by (auto simp: send_done_def finish_out_def node_ops Let_def split: prod.splits
      dest!: control_send_eq)

lemma chunk_frame_fits: "length tid = 16 \<Longrightarrow> length c \<le> CHUNK_SIZE \<Longrightarrow>
  length (encode_chunk tid seq c) \<le> MAX_PLAINTEXT"
  by (simp add: encode_chunk_def CHUNK_SIZE_def MAX_PLAINTEXT_def)

lemma send_chunk_sends:
  assumes "nd_running nd" "stream_read CHUNK_SIZE (op_src prog) = (Inr d, src')" "d \<noteq> []"
    and "length (encode_chunk tid (op_seq prog) d) \<le> MAX_PLAINTEXT"
    and "e_fault env (p_link p) (encode_chunk tid (op_seq prog) d) = None"
  obtains prog' nd' where
    "send_chunk env p tid name fsize prog nd = (Some (OutSending p tid name fsize prog'), nd')"
    "op_src prog' = src'" "op_seq prog' = op_seq prog + 1" "nd_running nd'"
    "nd_wire nd' = nd_wire nd @ [(p_link p, encode_chunk tid (op_seq prog) d)]"
  using assms by (simp add: send_chunk_def wire_send_def Let_def node_ops that)

lemma send_run_wire:
  assumes "length tid = 16" "\<And>bs. e_fault env (p_link p) bs = None"
  shows "nd_running nd \<Longrightarrow> file_bytes (op_src prog) = Inr content \<Longrightarrow>
    \<exists>cs. concat cs = content \<and>
      nd_wire (send_run env p tid name fsize prog nd) =
        nd_wire nd @ map (Pair (p_link p)) (chunk_frames tid (op_seq prog) cs) @
        delivered env (p_link p) (FileDone (hex tid))"
  using assms
proof (induction env p tid name fsize prog nd arbitrary: content rule: send_run.induct)
  case (1 env p tid name fsize prog nd)
  note unf = send_run.simps [of env p tid name fsize prog nd]
  obtain r src' where r: "stream_read CHUNK_SIZE (op_src prog) = (r, src')" by fastforce
  have pos: "0 < CHUNK_SIZE" by (simp add: CHUNK_SIZE_def)
  from stream_read_file_bytes(3) r "1.prems"(2) obtain d where d: "r = Inr d"
    by (cases r) auto
  show ?case
  proof (cases "d = []")
    case True
    with stream_read_file_bytes(2) r d pos "1.prems"(2) have "content = []" by auto
    moreover have "send_run env p tid name fsize prog nd = send_done env p tid name fsize nd"
      using unf r d True "1.prems"(1) by (simp add: send_chunk_def)
    ultimately show ?thesis by (intro exI [of _ "[]"]) (simp add: send_done_wire)
  next
    case False
    note fb = stream_read_file_bytes(1) [OF r [unfolded d] pos False]
    with "1.prems"(2) obtain rest where rest: "file_bytes src' = Inr rest" "content = d @ rest"
      by (auto split: sum.splits)
    obtain prog' nd' where sc:
      "send_chunk env p tid name fsize prog nd = (Some (OutSending p tid name fsize prog'), nd')"
      "op_src prog' = src'" "op_seq prog' = op_seq prog + 1" "nd_running nd'"
      "nd_wire nd' = nd_wire nd @ [(p_link p, encode_chunk tid (op_seq prog) d)]"
      by (rule send_chunk_sends [OF "1.prems"(1) r [unfolded d] False chunk_frame_fits])
        (use "1.prems"(3,4) fb in auto)
    obtain cs where "concat cs = rest"
      "nd_wire (send_run env p tid name fsize prog' nd') =
        nd_wire nd' @ map (Pair (p_link p)) (chunk_frames tid (op_seq prog') cs) @
        delivered env (p_link p) (FileDone (hex tid))"
      using "1.IH" [OF sc(1) [symmetric] refl refl sc(4) _ "1.prems"(3,4)] sc(2) rest(1) by auto
    with sc rest unf show ?thesis by (intro exI [of _ "d # cs"]) simp
  qed
qed

section \<open>Receiving a whole file\<close>

fun receive_all :: "env \<Rightarrow> peer \<Rightarrow> bytes list \<Rightarrow> node \<Rightarrow> node run" where
  "receive_all env p [] nd = Ret nd"
| "receive_all env p (buf # bufs) nd =
     (case reader_turn env p (Inr buf) nd of
        Panic \<Rightarrow> Panic
      | Ret (_, nd') \<Rightarrow> receive_all env p bufs nd')"

lemma receive_all_append:
  "receive_all env p (xs @ ys) nd =
     (case receive_all env p xs nd of Panic \<Rightarrow> Panic | Ret nd' \<Rightarrow> receive_all env p ys nd')"
  by (induction xs arbitrary: nd) (auto split: run.splits)

lemma reader_turn_chunk:
  "length tid = 16 \<Longrightarrow> reader_turn env p (Inr (encode_chunk tid seq c)) nd =
     Ret (Some (Reader p), handle_chunk env p tid seq c nd)"
  by (simp add: reader_turn_def decode_frame_chunk)

text \<open>A chunk that is in order, fits the offer and fits the disk is written.\<close>

lemma handle_chunk_writes:
  assumes "hm_get (tr_active (nd_transfers nd)) tid = Some a" "ai_peer_id a = pi_id (p_info p)"
    and "active_ok (nd_disk nd) a"
    and "unat (ai_size a) = length (ai_hashed a) + length c + k"
    and "dk_room (nd_disk nd) (ai_path a) = None"
  obtains a' where
    "hm_get (tr_active (nd_transfers (handle_chunk env p tid (ai_next_seq a) c nd))) tid = Some a'"
    "active_ok (nd_disk (handle_chunk env p tid (ai_next_seq a) c nd)) a'"
    "ai_hashed a' = ai_hashed a @ c" "ai_path a' = ai_path a" "ai_next_seq a' = ai_next_seq a + 1"
    "ai_size a' = ai_size a" "ai_expect_sha a' = ai_expect_sha a" "ai_peer_id a' = ai_peer_id a"
    "ai_name a' = ai_name a"
    "dk_room (nd_disk (handle_chunk env p tid (ai_next_seq a) c nd)) (ai_path a) = None"
proof -
  have small: "length (ai_hashed a) + length c < 2 ^ 64"
    using assms(4) unsigned_less [of "ai_size a", where ?'a = nat] by simp
  then have "unat (ai_got a + of_nat (length c)) = length (ai_hashed a) + length c"
    using assms(3) by (simp add: active_ok_def unat_of_nat take_bit_nat_eq_self_iff
        flip: of_nat_add)
  then have fits: "\<not> ai_size a < ai_got a + of_nat (length c)"
    using assms(4) by (simp add: word_less_nat_alt)
  obtain f d' where w: "file_write_all (ai_file a) c (nd_disk nd) = (None, f, d')"
    and room: "dk_room d' (ai_path a) = None"
    using assms(5) by (auto simp: file_write_all_def file_put_def ai_path_def)
  then obtain u a' where t: "take_chunk env (ai_next_seq a) c a (nd_disk nd) = (Progress u, a', d')"
    "ai_name a' = ai_name a"
    using fits by (auto simp: take_chunk_def Let_def)
  note tc = take_chunk_progress [OF t(1) assms(3)]
  note hit = handle_chunk_hit [OF assms(1,2) t(1)]
  show ?thesis
    by (rule that [of a']) (use hit tc t(2) room in \<open>simp_all add: hm_simps\<close>)
qed

lemma receive_chunks:
  assumes "length tid = 16"
  shows "hm_get (tr_active (nd_transfers nd)) tid = Some a \<Longrightarrow> ai_peer_id a = pi_id (p_info p) \<Longrightarrow>
    active_ok (nd_disk nd) a \<Longrightarrow>
    unat (ai_size a) = length (ai_hashed a) + length (concat cs) \<Longrightarrow>
    dk_room (nd_disk nd) (ai_path a) = None \<Longrightarrow>
    \<exists>nd' a'. receive_all env p (chunk_frames tid (ai_next_seq a) cs) nd = Ret nd' \<and>
      hm_get (tr_active (nd_transfers nd')) tid = Some a' \<and> active_ok (nd_disk nd') a' \<and>
      ai_hashed a' = ai_hashed a @ concat cs \<and> ai_path a' = ai_path a \<and>
      ai_size a' = ai_size a \<and> ai_expect_sha a' = ai_expect_sha a \<and> ai_name a' = ai_name a"
proof (induction cs arbitrary: nd a)
  case Nil
  then show ?case by simp
next
  case (Cons c cs)
  let ?nd = "handle_chunk env p tid (ai_next_seq a) c nd"
  obtain a' where a': "hm_get (tr_active (nd_transfers ?nd)) tid = Some a'"
    "active_ok (nd_disk ?nd) a'" "ai_hashed a' = ai_hashed a @ c" "ai_path a' = ai_path a"
    "ai_next_seq a' = ai_next_seq a + 1" "ai_size a' = ai_size a"
    "ai_expect_sha a' = ai_expect_sha a" "ai_peer_id a' = ai_peer_id a" "ai_name a' = ai_name a"
    "dk_room (nd_disk ?nd) (ai_path a) = None"
    by (rule handle_chunk_writes [OF Cons.prems(1-3), of c "length (concat cs)"])
      (use Cons.prems in \<open>simp_all add: add.assoc\<close>)
  have "\<exists>nd' a''. receive_all env p (chunk_frames tid (ai_next_seq a') cs) ?nd = Ret nd' \<and>
      hm_get (tr_active (nd_transfers nd')) tid = Some a'' \<and> active_ok (nd_disk nd') a'' \<and>
      ai_hashed a'' = ai_hashed a' @ concat cs \<and> ai_path a'' = ai_path a' \<and>
      ai_size a'' = ai_size a' \<and> ai_expect_sha a'' = ai_expect_sha a' \<and> ai_name a'' = ai_name a'"
    by (rule Cons.IH) (use a' Cons.prems in simp_all)
  with a' show ?case by (simp add: reader_turn_chunk [OF assms])
qed

lemma complete_incoming_reports:
  assumes "hm_get (tr_active (nd_transfers nd)) tid = Some a"
  shows "\<exists>detail. nd_events (complete_incoming env transfer tid nd) =
    nd_events nd @ [EvFileFinished transfer (ai_name a) True
      (ai_got a = ai_size a \<and> hex (e_sha256 env (ai_hashed a)) = ai_expect_sha a) detail]"
  using assms by (auto simp: complete_incoming_def Let_def node_ops)

section \<open>Cancelling\<close>

lemma fold_hm_remove: "fold hm_remove ks m = filter (\<lambda>(k, v). k \<notin> set ks) m"
  by (induction ks arbitrary: m) (auto simp: hm_remove_def intro: filter_cong)

lemma dead_filter:
  "hm_ok m \<Longrightarrow> filter (\<lambda>(k, v). k \<notin> set (dead_keys dead m)) m = filter (\<lambda>(k, v). \<not> dead v) m"
proof (rule filter_cong [OF refl])
  fix e assume ok: "hm_ok m" and e: "e \<in> set m"
  obtain k v where kv: "e = (k, v)" by fastforce
  have "k \<in> set (dead_keys dead m) \<longleftrightarrow> dead v"
  proof
    assume "k \<in> set (dead_keys dead m)"
    then obtain v' where "(k, v') \<in> set m" "dead v'" by (auto simp: dead_keys_def)
    with ok e kv show "dead v" by (metis eq_key_imp_eq_value hm_ok_def)
  next
    assume "dead v"
    with e kv show "k \<in> set (dead_keys dead m)" by (force simp: dead_keys_def)
  qed
  with kv show "(case e of (k, v) \<Rightarrow> k \<notin> set (dead_keys dead m)) = (case e of (k, v) \<Rightarrow> \<not> dead v)"
    by simp
qed

lemma cancel_out_eq:
  "\<exists>chs. cancel_out k nd = nd\<lparr>nd_transfers := (nd_transfers nd)
     \<lparr>tr_waiters := hm_remove k (tr_waiters (nd_transfers nd)),
      tr_out_peer := hm_remove k (tr_out_peer (nd_transfers nd))\<rparr>, nd_channels := chs\<rparr>"
proof (cases "hm_get (tr_waiters (nd_transfers nd)) k")
  case None
  then show ?thesis
    by (intro exI [of _ "nd_channels nd"]) (simp add: cancel_out_def node_ops hm_remove_absent)
next
  case (Some chan)
  then show ?thesis
    by (intro exI [of _ "(nd_channels nd)[chan := nd_channels nd ! chan @
          [Decline (lit ''the peer disconnected'')]]"]) (simp add: cancel_out_def node_ops)
qed

lemma fold_cancel_out:
  "\<exists>chs. fold cancel_out ks nd = nd\<lparr>nd_transfers := (nd_transfers nd)
     \<lparr>tr_waiters := fold hm_remove ks (tr_waiters (nd_transfers nd)),
      tr_out_peer := fold hm_remove ks (tr_out_peer (nd_transfers nd))\<rparr>, nd_channels := chs\<rparr>"
proof (induction ks arbitrary: nd)
  case Nil
  show ?case by (rule exI [of _ "nd_channels nd"]) simp
next
  case (Cons k ks)
  obtain c1 where 1: "cancel_out k nd = nd\<lparr>nd_transfers := (nd_transfers nd)
      \<lparr>tr_waiters := hm_remove k (tr_waiters (nd_transfers nd)),
       tr_out_peer := hm_remove k (tr_out_peer (nd_transfers nd))\<rparr>, nd_channels := c1\<rparr>"
    using cancel_out_eq by blast
  obtain c2 where 2: "fold cancel_out ks (cancel_out k nd) =
      (cancel_out k nd)\<lparr>nd_transfers := (nd_transfers (cancel_out k nd))
        \<lparr>tr_waiters := fold hm_remove ks (tr_waiters (nd_transfers (cancel_out k nd))),
         tr_out_peer := fold hm_remove ks (tr_out_peer (nd_transfers (cancel_out k nd)))\<rparr>,
        nd_channels := c2\<rparr>"
    using Cons.IH by blast
  show ?case by (rule exI [of _ c2]) (simp add: 2, simp add: 1)
qed

lemma fold_emit:
  "fold (\<lambda>x. emit (g x)) xs nd = nd\<lparr>nd_events := nd_events nd @ map g xs\<rparr>"
  by (induction xs arbitrary: nd) (simp_all add: node_ops)

lemma finished_names:
  assumes "hm_ok m"
  shows "map (\<lambda>(tr, name). g tr name)
      (concat (map (\<lambda>k. case hm_get m k of None \<Rightarrow> [] | Some a \<Rightarrow> [(f k, h a)]) (dead_keys dead m))) =
    map (\<lambda>(k, a). g (f k) (h a)) (filter (\<lambda>(k, a). dead a) m)"
proof -
  have "map (\<lambda>(tr, name). g tr name)
      (concat (map (\<lambda>k. case hm_get m k of None \<Rightarrow> [] | Some a \<Rightarrow> [(f k, h a)]) (map fst xs))) =
    map (\<lambda>(k, a). g (f k) (h a)) xs" if "set xs \<subseteq> set m" for xs
    using that assms by (induction xs) (auto simp: hm_ok_def hm_get_def)
  then show ?thesis by (simp add: dead_keys_def)
qed

lemma cancel_transfers_eq:
  assumes "hm_ok (tr_active (nd_transfers nd))" "hm_ok (tr_offers (nd_transfers nd))"
    and "hm_ok (tr_out_peer (nd_transfers nd))"
  shows "\<exists>chs. cancel_transfers_with gone nd = nd
    \<lparr>nd_transfers :=
       \<lparr>tr_waiters = filter (\<lambda>(k, v). k \<notin> set (dead_keys (\<lambda>p. p = gone) (tr_out_peer (nd_transfers nd))))
          (tr_waiters (nd_transfers nd)),
        tr_out_peer = filter (\<lambda>(k, p). p \<noteq> gone) (tr_out_peer (nd_transfers nd)),
        tr_offers = filter (\<lambda>(k, f). po_peer_id f \<noteq> gone) (tr_offers (nd_transfers nd)),
        tr_active = filter (\<lambda>(k, a). ai_peer_id a \<noteq> gone) (tr_active (nd_transfers nd))\<rparr>,
     nd_channels := chs,
     nd_events := nd_events nd @ map (\<lambda>(k, a). EvFileFinished (hex k) (ai_name a) True False
       (lit ''the sender disconnected''))
       (filter (\<lambda>(k, a). ai_peer_id a = gone) (tr_active (nd_transfers nd)))\<rparr>"
proof -
  let ?t = "nd_transfers nd"
  let ?dead = "dead_keys (\<lambda>a. ai_peer_id a = gone) (tr_active ?t)"
  let ?offers = "dead_keys (\<lambda>f. po_peer_id f = gone) (tr_offers ?t)"
  let ?out = "dead_keys (\<lambda>p. p = gone) (tr_out_peer ?t)"
  let ?nd1 = "with_transfers (\<lambda>t. t\<lparr>tr_active := fold hm_remove ?dead (tr_active t),
      tr_offers := fold hm_remove ?offers (tr_offers t)\<rparr>) nd"
  obtain chs where chs: "fold cancel_out ?out ?nd1 = ?nd1\<lparr>nd_transfers := (nd_transfers ?nd1)
      \<lparr>tr_waiters := fold hm_remove ?out (tr_waiters (nd_transfers ?nd1)),
       tr_out_peer := fold hm_remove ?out (tr_out_peer (nd_transfers ?nd1))\<rparr>, nd_channels := chs\<rparr>"
    using fold_cancel_out [of ?out ?nd1] by blast
  have out: "fold cancel_out ?out ?nd1 = nd\<lparr>nd_transfers :=
       \<lparr>tr_waiters = filter (\<lambda>(k, v). k \<notin> set ?out) (tr_waiters ?t),
        tr_out_peer = filter (\<lambda>(k, p). p \<noteq> gone) (tr_out_peer ?t),
        tr_offers = filter (\<lambda>(k, f). po_peer_id f \<noteq> gone) (tr_offers ?t),
        tr_active = filter (\<lambda>(k, a). ai_peer_id a \<noteq> gone) (tr_active ?t)\<rparr>, nd_channels := chs\<rparr>"
    by (subst chs) (simp add: node_ops fold_hm_remove dead_filter assms)
  have body: "(\<lambda>(transfer, name). emit (EvFileFinished transfer name True False
        (lit ''the sender disconnected''))) =
      (\<lambda>x. emit (case x of (tr, name) \<Rightarrow> EvFileFinished tr name True False
        (lit ''the sender disconnected'')))"
    by (simp add: fun_eq_iff)
  show ?thesis
    by (rule exI [of _ chs])
      (simp add: cancel_transfers_with_def Let_def out body fold_emit
        finished_names [OF assms(1), of "\<lambda>tr name. EvFileFinished tr name True False
          (lit ''the sender disconnected'')" hex ai_name])
qed

section \<open>Accepting an offer\<close>

lemma respond_offer_accepts:
  assumes "length tid = 16" "hm_get (tr_offers (nd_transfers nd)) tid = Some offer"
    and "respond_offer env (hex tid) (Some path) nd = Ret (Inr u, nd')"
  obtains a where "hm_get (tr_active (nd_transfers nd')) tid = Some a" "active_ok (nd_disk nd') a"
    "ai_hashed a = []" "ai_next_seq a = 0" "ai_path a = path" "ai_size a = po_size offer"
    "ai_expect_sha a = po_sha256 offer" "ai_peer_id a = po_peer_id offer" "ai_name a = po_name offer"
    "dk_room (nd_disk nd') = dk_room (nd_disk nd)"
proof -
  let ?nd1 = "with_transfers (\<lambda>t. t\<lparr>tr_offers := hm_remove tid (tr_offers t)\<rparr>) nd"
  obtain p h d where p: "peer_by_id (po_peer_id offer) ?nd1 = Some p"
    and c: "file_create path (nd_disk ?nd1) = (Inr h, d)"
    using assms by (auto simp: respond_offer_def unhex16_hex Let_def
        split: option.splits prod.splits sum.splits)
  note fc = file_create_ok [OF c]
  let ?a = "\<lparr>ai_file = h, ai_name = po_name offer, ai_size = po_size offer, ai_got = 0,
    ai_next_seq = 0, ai_hashed = [], ai_expect_sha = po_sha256 offer, ai_peer_id = po_peer_id offer,
    ai_peer_name = po_peer_name offer, ai_last_emit = instant_sub (e_now env) PROGRESS_INTERVAL\<rparr>"
  have "tr_active (nd_transfers nd') = hm_insert tid ?a (tr_active (nd_transfers nd)) \<and> nd_disk nd' = d"
    using assms p c
    by (auto simp: respond_offer_def unhex16_hex Let_def node_ops
        split: prod.splits sum.splits dest!: control_send_eq)
  then show ?thesis
    by (intro that [of ?a]) (use fc in \<open>auto simp: hm_simps active_ok_def ai_path_def node_ops\<close>)
qed

section \<open>The claims\<close>

lemma hm_remove_insert: "hm_remove k (hm_insert k v m) = hm_remove k m"
proof (induction m)
  case Nil
  then show ?case by (simp add: hm_insert_def hm_remove_def)
next
  case (Cons e m)
  then show ?case by (cases e) (auto simp: hm_insert_def hm_remove_def)
qed

text \<open>
  C5. A file that is offered, accepted and sent arrives whole.  When the sending thread runs
  to its end over a link without faults, on a file that can be read, everything it puts on
  the wire (the chunks, cut as the reads cut them, with their wrapping sequence numbers,
  and the final message), handled in order by the receiver that accepted the offer, leaves
  exactly the sender's bytes in the file the recipient chose, and the receiver reports
  success.
\<close>

theorem file_arrives_whole:
  assumes tid: "length tid = 16"
    and sender: "nd_running s" "\<And>bs. e_fault env (p_link p) bs = None"
    and reads: "file_bytes (op_src prog) = Inr content" "length content < 2 ^ 64" "op_seq prog = 0"
    and json: "e_to_json env (FileDone (hex tid)) = Inr js" "length js < MAX_PLAINTEXT"
      "e_from_json env' js = Inr (FileDone (hex tid))"
    and offer: "hm_get (tr_offers (nd_transfers r0)) tid = Some offer"
      "po_size offer = of_nat (length content)" "po_sha256 offer = hex (e_sha256 env' content)"
      "po_peer_id offer = pi_id (p_info q)"
    and accepted: "respond_offer env' (hex tid) (Some path) r0 = Ret (Inr u, r)"
    and disk: "dk_room (nd_disk r0) path = None"
  shows "\<exists>frames r' detail.
    nd_wire (send_run env p tid name fsize prog s) = nd_wire s @ map (Pair (p_link p)) frames \<and>
    receive_all env' q frames r = Ret r' \<and>
    file_content (nd_disk r') path = content \<and>
    last (nd_events r') = EvFileFinished (hex tid) (po_name offer) True True detail"
proof -
  obtain cs where cs: "concat cs = content" "nd_wire (send_run env p tid name fsize prog s) =
      nd_wire s @ map (Pair (p_link p)) (chunk_frames tid (op_seq prog) cs) @
      delivered env (p_link p) (FileDone (hex tid))"
    using send_run_wire [OF tid sender(2) sender(1) reads(1)] by blast
  have fin: "delivered env (p_link p) (FileDone (hex tid)) = [(p_link p, KIND_CONTROL # js)]"
    using json sender(2) by (simp add: delivered_def encode_control_def)
  obtain a where a: "hm_get (tr_active (nd_transfers r)) tid = Some a" "active_ok (nd_disk r) a"
    "ai_hashed a = []" "ai_next_seq a = 0" "ai_path a = path" "ai_size a = po_size offer"
    "ai_expect_sha a = po_sha256 offer" "ai_peer_id a = po_peer_id offer" "ai_name a = po_name offer"
    "dk_room (nd_disk r) = dk_room (nd_disk r0)"
    by (rule respond_offer_accepts [OF tid offer(1) accepted])
  have len: "unat (ai_size a) = length content"
    using a(6) offer(2) reads(2) by (simp add: unat_of_nat take_bit_nat_eq_self_iff)
  obtain r1 a1 where r1: "receive_all env' q (chunk_frames tid 0 cs) r = Ret r1"
    "hm_get (tr_active (nd_transfers r1)) tid = Some a1" "active_ok (nd_disk r1) a1"
    "ai_hashed a1 = content" "ai_path a1 = path" "ai_size a1 = ai_size a"
    "ai_expect_sha a1 = ai_expect_sha a" "ai_name a1 = ai_name a"
    using receive_chunks [OF tid a(1) _ a(2), of q cs env'] a offer(4) len cs(1) disk by auto
  let ?r' = "complete_incoming env' (hex tid) tid r1"
  have turn: "reader_turn env' q (Inr (KIND_CONTROL # js)) r1 = Ret (Some (Reader q), ?r')"
    by (simp add: reader_turn_def decode_frame_def json handle_control_def handle_file_control_def
        with_transfer_id_def unhex16_hex [OF tid])
  then have "receive_all env' q (chunk_frames tid 0 cs @ [KIND_CONTROL # js]) r = Ret ?r'"
    by (simp add: receive_all_append r1(1))
  moreover have "file_content (nd_disk ?r') path = content"
    using r1 by (simp add: complete_incoming_active active_ok_def ai_path_def)
  moreover have "ai_got a1 = ai_size a1 \<and> hex (e_sha256 env' (ai_hashed a1)) = ai_expect_sha a1"
    using r1 a offer by (simp add: active_ok_def)
  then have "\<exists>detail. last (nd_events ?r') = EvFileFinished (hex tid) (po_name offer) True True detail"
    using complete_incoming_reports [OF r1(2), of env' "hex tid"] r1(8) a(9) by auto
  ultimately show ?thesis
    using cs(2) fin reads(3) by (intro exI [of _ "chunk_frames tid 0 cs @ [KIND_CONTROL # js]"]) auto
qed

definition sample_receiver :: node where
  "sample_receiver = sample_node
     \<lparr>nd_running := True,
      st_peers := [(lit ''al'', \<lparr>p_info = sample_info ''al'', p_link = 3\<rparr>)],
      nd_transfers := transfers_default\<lparr>tr_offers :=
        [(replicate 16 2, \<lparr>po_peer_id = lit ''al'', po_peer_name = lit ''al'', po_name = lit ''f'',
           po_size = 5, po_sha256 = hex [5, 15]\<rparr>)]\<rparr>\<rparr>"

theorem file_arrives_whole_witness:
  "\<exists>frames r' detail.
    nd_wire (send_run sample_env \<lparr>p_info = sample_info ''bo'', p_link = 8\<rparr> (replicate 16 2) (lit ''f'') 5
      \<lparr>op_src = [Data [1, 2], Data [3, 4, 5]], op_sent = 0, op_seq = 0, op_last = 0\<rparr>
      (sample_node\<lparr>nd_running := True\<rparr>)) = [] @ map (Pair 8) frames \<and>
    receive_all sample_env \<lparr>p_info = sample_info ''al'', p_link = 3\<rparr> frames
      (case respond_offer sample_env (hex (replicate 16 2)) (Some (lit ''x'')) sample_receiver of
         Ret (_, r) \<Rightarrow> r) = Ret r' \<and>
    file_content (nd_disk r') (lit ''x'') = [1, 2, 3, 4, 5] \<and>
    last (nd_events r') = EvFileFinished (hex (replicate 16 2)) (lit ''f'') True True detail"
proof -
  let ?acc = "respond_offer sample_env (hex (replicate 16 2)) (Some (lit ''x'')) sample_receiver"
  have "case ?acc of Ret (Inr u, r) \<Rightarrow> True | _ \<Rightarrow> False" by code_simp
  then obtain r where r: "?acc = Ret (Inr (), r)" by (auto split: run.splits sum.splits prod.splits)
  have a: "length (replicate 16 (2 :: byte)) = 16" "nd_running (sample_node\<lparr>nd_running := True\<rparr>)"
    "e_fault sample_env l bs = None" "length [1, 2, 3, 4, 5 :: byte] < 2 ^ 64"
    "e_to_json sample_env (FileDone t) = Inr (1 # map of_nat t)"
    "dk_room (nd_disk sample_receiver) (lit ''x'') = None" for l bs t
    by (simp_all add: sample_env_def sample_receiver_def sample_node_def node_new_def sample_disk_def)
  have b: "file_bytes [Data [1, 2], Data [3, 4, 5]] = Inr [1, 2, 3, 4, 5]"
    "length (1 # map of_nat (hex (replicate 16 2)) :: bytes) < MAX_PLAINTEXT"
    "e_from_json sample_env (1 # map of_nat (hex (replicate 16 2))) = Inr (FileDone (hex (replicate 16 2)))"
    "hm_get (tr_offers (nd_transfers sample_receiver)) (replicate 16 2) =
       Some \<lparr>po_peer_id = lit ''al'', po_peer_name = lit ''al'', po_name = lit ''f'',
           po_size = 5, po_sha256 = hex [5, 15]\<rparr>"
    by code_simp+
  have c: "hex [5, 15] = hex (e_sha256 sample_env [1, 2, 3, 4, 5])" by code_simp
  have w: "nd_wire (sample_node\<lparr>nd_running := True\<rparr>) = []"
    by (simp add: sample_node_def node_new_def)
  show ?thesis
    using file_arrives_whole [where tid = "replicate 16 2" and s = "sample_node\<lparr>nd_running := True\<rparr>"
        and env = sample_env and p = "\<lparr>p_info = sample_info ''bo'', p_link = 8\<rparr>"
        and prog = "\<lparr>op_src = [Data [1, 2], Data [3, 4, 5]], op_sent = 0, op_seq = 0, op_last = 0\<rparr>"
        and env' = sample_env and q = "\<lparr>p_info = sample_info ''al'', p_link = 3\<rparr>" and path = "lit ''x''"
        and name = "lit ''f''" and fsize = 5,
        OF a(1) a(2) a(3) _ _ _ a(5) b(2) b(3) b(4) _ _ _ r a(6)] b(1) c w
    by (simp add: r sample_info_def)
qed

text \<open>
  C19. A chunk that is out of order, or that would take the file past its offered size, ends
  the transfer at once: the disk is not touched, the transfer is forgotten, the sender is
  sent an abort, and the user is told that the transfer failed.
\<close>

theorem bad_chunk_ends_the_transfer:
  assumes "hm_get (tr_active (nd_transfers nd)) tid = Some a" "ai_peer_id a = pi_id (p_info p)"
    and "seq \<noteq> ai_next_seq a \<or> ai_size a < ai_got a + of_nat (length data)"
  shows "\<exists>reason nd'. handle_chunk env p tid seq data nd = nd' \<and>
    nd_disk nd' = nd_disk nd \<and>
    tr_active (nd_transfers nd') = hm_remove tid (tr_active (nd_transfers nd)) \<and>
    nd_wire nd' = nd_wire nd @ delivered env (p_link p) (FileAbort (hex tid) reason) \<and>
    nd_events nd' = nd_events nd @ [EvFileFinished (hex tid) (ai_name a) True False reason]"
proof -
  have "\<exists>reason. take_chunk env seq data a (nd_disk nd) = (Problem reason, a, nd_disk nd)"
    using assms(3) by (auto simp: take_chunk_def)
  then obtain reason where
    t: "take_chunk env seq data a (nd_disk nd) = (Problem reason, a, nd_disk nd)" ..
  show ?thesis
    by (rule exI [of _ reason])
      (simp add: handle_chunk_def assms t node_ops hm_remove_insert)
qed

definition sample_active :: active_in where
  "sample_active =
     \<lparr>ai_file = \<lparr>fh_path = lit ''x'', fh_pos = 0\<rparr>, ai_name = lit ''f'', ai_size = 5, ai_got = 0,
      ai_next_seq = 0, ai_hashed = [], ai_expect_sha = [], ai_peer_id = lit ''al'',
      ai_peer_name = lit ''al'', ai_last_emit = 0\<rparr>"

definition sample_receiving :: node where
  "sample_receiving = sample_receiver
     \<lparr>nd_transfers := transfers_default\<lparr>tr_active := [(replicate 16 2, sample_active)]\<rparr>\<rparr>"

theorem bad_chunk_ends_the_transfer_witness:
  "\<exists>reason nd'. handle_chunk sample_env \<lparr>p_info = sample_info ''al'', p_link = 3\<rparr> (replicate 16 2) 1 [4]
      sample_receiving = nd' \<and>
    nd_disk nd' = nd_disk sample_receiving \<and>
    tr_active (nd_transfers nd') =
      hm_remove (replicate 16 2) (tr_active (nd_transfers sample_receiving)) \<and>
    nd_wire nd' = nd_wire sample_receiving @
      delivered sample_env 3 (FileAbort (hex (replicate 16 2)) reason) \<and>
    nd_events nd' = nd_events sample_receiving @
      [EvFileFinished (hex (replicate 16 2)) (lit ''f'') True False reason]"
proof -
  have "hm_get (tr_active (nd_transfers sample_receiving)) (replicate 16 2) = Some sample_active"
    by code_simp
  then show ?thesis
    using bad_chunk_ends_the_transfer [of sample_receiving "replicate 16 2" sample_active
        "\<lparr>p_info = sample_info ''al'', p_link = 3\<rparr>" 1 "[4]" sample_env]
    by (simp add: sample_active_def sample_info_def)
qed



text \<open>
  C25. A sending thread in a running node never ends silently: when a turn of its loop is
  the last, the waiter and the target of the transfer are forgotten and the user gets one
  report, of success exactly when the end of the file was reached.  In a node that has
  stopped, the thread ends without a trace and both entries stay behind.
\<close>

theorem sending_thread_reports_its_end:
  assumes "send_chunk env p tid name fsize prog nd = (None, nd')"
  shows "if nd_running nd
    then hm_get (tr_waiters (nd_transfers nd')) tid = None \<and>
      hm_get (tr_out_peer (nd_transfers nd')) tid = None \<and>
      (\<exists>detail. nd_events nd' = nd_events nd @ [EvFileFinished (hex tid) name False
        (fst (stream_read CHUNK_SIZE (op_src prog)) = Inr []) detail])
    else nd' = nd"
proof (cases "nd_running nd")
  case False
  with assms show ?thesis by (simp add: send_chunk_def)
next
  case run: True
  obtain r src' where r: "stream_read CHUNK_SIZE (op_src prog) = (r, src')" by fastforce
  show ?thesis
  proof (cases "r = Inr []")
    case True
    with assms run r show ?thesis
      by (auto simp: send_chunk_def send_done_def finish_out_def node_ops Let_def hm_simps
          split: prod.splits dest!: control_send_eq)
  next
    case False
    with assms run r show ?thesis
      by (auto simp: send_chunk_def finish_out_def node_ops Let_def hm_simps
          split: prod.splits sum.splits if_splits dest!: control_send_eq wire_send_eq)
  qed
qed

theorem sending_thread_reports_its_end_witness:
  "let nd = sample_node\<lparr>nd_running := True\<rparr>;
       nd' = snd (send_chunk sample_env \<lparr>p_info = sample_info ''bo'', p_link = 8\<rparr> (replicate 16 2) (lit ''f'')
         0 \<lparr>op_src = [], op_sent = 0, op_seq = 0, op_last = 0\<rparr> nd) in
   if nd_running nd
    then hm_get (tr_waiters (nd_transfers nd')) (replicate 16 2) = None \<and>
      hm_get (tr_out_peer (nd_transfers nd')) (replicate 16 2) = None \<and>
      (\<exists>detail. nd_events nd' = nd_events nd @ [EvFileFinished (hex (replicate 16 2)) (lit ''f'') False
        (fst (stream_read CHUNK_SIZE []) = Inr []) detail])
    else nd' = nd"
proof -
  let ?s = "send_chunk sample_env \<lparr>p_info = sample_info ''bo'', p_link = 8\<rparr> (replicate 16 2) (lit ''f'')
    0 \<lparr>op_src = [], op_sent = 0, op_seq = 0, op_last = 0\<rparr> (sample_node\<lparr>nd_running := True\<rparr>)"
  have "?s = (None, snd ?s)" by (simp add: send_chunk_def prod_eq_iff)
  from sending_thread_reports_its_end [OF this] show ?thesis by (simp add: Let_def)
qed

text \<open>
  A recipient that aborts does not stop the sender: a \<open>FileAbort\<close> for a transfer that is
  going out (it is neither an offer received nor an incoming transfer) leaves the node
  exactly as it was, so the sending thread goes on and, at the end of the file, reports
  success.
\<close>

theorem abort_does_not_reach_the_sender:
  assumes "length tid = 16" "hm_get (tr_offers (nd_transfers nd)) tid = None"
    and "hm_get (tr_active (nd_transfers nd)) tid = None"
  shows "handle_control env p (FileAbort (hex tid) reason) nd = Ret nd"
  using assms
  by (simp add: handle_control_def handle_file_control_def with_transfer_id_def unhex16_hex
      abort_incoming_def node_ops hm_remove_absent)

theorem abort_does_not_reach_the_sender_witness:
  "handle_control sample_env \<lparr>p_info = sample_info ''bo'', p_link = 8\<rparr>
     (FileAbort (hex (replicate 16 9)) (lit ''disk full'')) sample_receiving = Ret sample_receiving"
  by (rule abort_does_not_reach_the_sender) code_simp+

end
