(* ===== verification/Link_Claims.thy ===== *)
theory Link_Claims
  imports File_Integrity
begin

text \<open>
  What the running links of \<open>Links\<close> guarantee: a chat line goes straight to every peer,
  nothing a peer sends is ever passed on, a lost link is forgotten once, and a peer can
  only write to the file that was accepted from it.
\<close>

section \<open>The cases of a reader's turn\<close>

lemma reader_turn_cases:
  assumes "reader_turn env p received nd = Ret (k, nd')"
  obtains (lost) e where "received = Inl e" "k = None"
      "nd' = peer_gone env p (describe_disconnect e) nd"
  | (malformed) msg where "k = Some (Reader p)" "nd' = emit (EvError msg) nd"
  | (control) buf c where "received = Inr buf" "decode_frame (e_from_json env) buf = Inr (Control c)"
      "k = Some (Reader p)" "handle_control env p c nd = Ret nd'"
  | (chunk) tid seq data where "k = Some (Reader p)" "nd' = handle_chunk env p tid seq data nd"
  using assms by (auto simp: reader_turn_def split: sum.splits frame.splits run.splits)

section \<open>Wire effects\<close>

text \<open>What goes out only adds to the wire, and only messages of a given kind.\<close>

definition wire_adds :: "node \<Rightarrow> node \<Rightarrow> (link_id \<times> bytes \<Rightarrow> bool) \<Rightarrow> bool" where
  "wire_adds nd nd' ok \<longleftrightarrow> (\<exists>out. nd_wire nd' = nd_wire nd @ out \<and> list_all ok out)"

lemma wire_adds_same: "nd_wire nd' = nd_wire nd \<Longrightarrow> wire_adds nd nd' ok"
  by (simp add: wire_adds_def)

lemma delivered_encodes:
  "list_all (\<lambda>(l', bs). l' = l \<and> encode_control (e_to_json env) c = Inr bs) (delivered env l c)"
  by (auto simp: delivered_def split: sum.splits)

lemma file_controls_wire:
  "nd_wire (complete_incoming env transfer tid nd) = nd_wire nd"
  "nd_wire (abort_incoming transfer reason tid nd) = nd_wire nd"
  "nd_wire (store_offer p transfer name fsize sha tid nd) = nd_wire nd"
  "nd_wire (push_decision dec tid nd) = nd_wire nd"
  by (auto simp: complete_incoming_def abort_incoming_def store_offer_def push_decision_def
      node_ops Let_def split: option.splits)

lemma handle_file_control_wire:
  "handle_file_control env p c nd = Ret nd' \<Longrightarrow> nd_wire nd' = nd_wire nd"
  by (auto simp: handle_file_control_def file_controls_wire split: control.splits
      elim!: with_transfer_id_cases)

lemma handle_chunk_wire:
  "nd_wire (handle_chunk env p tid seq data nd) = nd_wire nd \<or>
   (\<exists>reason. nd_wire (handle_chunk env p tid seq data nd) =
      nd_wire nd @ delivered env (p_link p) (FileAbort (hex tid) reason))"
  by (auto simp: handle_chunk_def node_ops Let_def split: option.splits chunk_outcome.splits prod.splits)

lemma cancel_transfers_shape:
  "\<exists>t chs evs. cancel_transfers_with gone nd =
     nd\<lparr>nd_transfers := t, nd_channels := chs, nd_events := evs\<rparr>"
proof -
  let ?t = "nd_transfers nd"
  let ?nd1 = "with_transfers (\<lambda>t. t\<lparr>
      tr_active := fold hm_remove (dead_keys (\<lambda>a. ai_peer_id a = gone) (tr_active ?t)) (tr_active t),
      tr_offers := fold hm_remove (dead_keys (\<lambda>f. po_peer_id f = gone) (tr_offers ?t)) (tr_offers t)\<rparr>) nd"
  let ?out = "dead_keys (\<lambda>p. p = gone) (tr_out_peer ?t)"
  obtain t chs where 1: "fold cancel_out ?out ?nd1 = ?nd1\<lparr>nd_transfers := t, nd_channels := chs\<rparr>"
    using fold_cancel_out [of ?out ?nd1] by blast
  have body: "(\<lambda>(transfer, name). emit (EvFileFinished transfer name True False
        (lit ''the sender disconnected''))) =
      (\<lambda>x. emit (case x of (tr, name) \<Rightarrow> EvFileFinished tr name True False
        (lit ''the sender disconnected'')))"
    by (simp add: fun_eq_iff)
  show ?thesis
    unfolding cancel_transfers_with_def Let_def 1 body fold_emit
    by (simp add: with_transfers_def) blast
qed

lemma cancel_transfers_quiet [simp]:
  "nd_wire (cancel_transfers_with gone nd) = nd_wire nd"
  "nd_closed (cancel_transfers_with gone nd) = nd_closed nd"
  "st_peers (cancel_transfers_with gone nd) = st_peers nd"
  "st_roster (cancel_transfers_with gone nd) = st_roster nd"
  "st_pending (cancel_transfers_with gone nd) = st_pending nd"
  "st_role (cancel_transfers_with gone nd) = st_role nd"
  "st_me (cancel_transfers_with gone nd) = st_me nd"
  "st_room (cancel_transfers_with gone nd) = st_room nd"
  "nd_running (cancel_transfers_with gone nd) = nd_running nd"
  "nd_req_seq (cancel_transfers_with gone nd) = nd_req_seq nd"
  "nd_spawned (cancel_transfers_with gone nd) = nd_spawned nd"
  "nd_disk (cancel_transfers_with gone nd) = nd_disk nd"
  using cancel_transfers_shape [of gone nd] by (auto simp del: split_paired_Ex)

lemma peer_gone_absent:
  "hm_get (st_peers nd) (pi_id (p_info p)) = None \<Longrightarrow> peer_gone env p reason nd = nd"
  by (simp add: peer_gone_def hm_contains_iff hm_remove_absent Let_def)

text \<open>The fields after a link was lost, whether or not it was still registered.\<close>

lemma peer_gone_fields:
  fixes nd p
  defines "k \<equiv> pi_id (p_info p)"
  defines "there \<equiv> hm_get (st_peers nd) k \<noteq> None"
  shows "st_peers (peer_gone env p reason nd) = hm_remove k (st_peers nd)"
    "st_roster (peer_gone env p reason nd) =
       (if there \<and> st_role nd = Some Host then hm_remove k (st_roster nd) else st_roster nd)"
    "st_pending (peer_gone env p reason nd) = st_pending nd"
    "st_role (peer_gone env p reason nd) = st_role nd"
    "nd_running (peer_gone env p reason nd) = nd_running nd"
    "nd_req_seq (peer_gone env p reason nd) = nd_req_seq nd"
    "nd_spawned (peer_gone env p reason nd) = nd_spawned nd"
    "nd_disk (peer_gone env p reason nd) = nd_disk nd"
    "st_room (peer_gone env p reason nd) = st_room nd"
    "nd_closed (peer_gone env p reason nd) = nd_closed nd @ (if there then [p_link p] else [])"
    "nd_wire (peer_gone env p reason nd) = nd_wire nd @
       (if there \<and> st_role nd = Some Host
        then concat (map (\<lambda>q. delivered env (p_link q) (PeerLeft k (pi_name (p_info p))))
               (hm_values (hm_remove k (st_peers nd)))) else [])"
  unfolding k_def there_def
  by (simp_all add: peer_gone_def hm_contains_iff Let_def node_ops connected_peers_def
      split: option.splits)

lemma peer_gone_transfers:
  "nd_transfers (peer_gone env p reason nd) =
     (if hm_get (st_peers nd) (pi_id (p_info p)) = None then nd_transfers nd
      else nd_transfers (cancel_transfers_with (pi_id (p_info p)) (close_link (p_link p)
        (nd\<lparr>st_peers := hm_remove (pi_id (p_info p)) (st_peers nd),
            st_roster := (if st_role nd = Some Host then hm_remove (pi_id (p_info p)) (st_roster nd)
              else st_roster nd),
            nd_peer_state := hm_insert (p_link p) Disconnected (nd_peer_state nd)\<rparr>))))"
  by (simp add: peer_gone_def hm_contains_iff Let_def node_ops split: option.splits)

section \<open>Transfers after a link was lost\<close>

lemma hm_get_fold_remove:
  "hm_get (fold hm_remove ks m) k = (if k \<in> set ks then None else hm_get m k)"
  by (induction ks arbitrary: m) (auto simp: hm_simps)

lemma cancel_transfers_active:
  "tr_active (nd_transfers (cancel_transfers_with gone nd)) =
     fold hm_remove (dead_keys (\<lambda>a. ai_peer_id a = gone) (tr_active (nd_transfers nd)))
       (tr_active (nd_transfers nd))"
proof -
  have body: "(\<lambda>(transfer, name). emit (EvFileFinished transfer name True False
        (lit ''the sender disconnected''))) =
      (\<lambda>x. emit (case x of (tr, name) \<Rightarrow> EvFileFinished tr name True False
        (lit ''the sender disconnected'')))"
    by (simp add: fun_eq_iff)
  have "tr_active (nd_transfers (fold cancel_out ks nd')) = tr_active (nd_transfers nd')" for ks nd'
    using fold_cancel_out [of ks nd'] by (auto simp del: split_paired_Ex)
  then show ?thesis
    unfolding cancel_transfers_with_def Let_def body fold_emit by (simp add: with_transfers_def)
qed

lemma peer_gone_active:
  "hm_get (tr_active (nd_transfers (peer_gone env p reason nd))) k = Some a \<Longrightarrow>
     hm_get (tr_active (nd_transfers nd)) k = Some a"
  by (auto simp: peer_gone_transfers cancel_transfers_active hm_get_fold_remove node_ops
      split: if_splits)

section \<open>A message and the disk\<close>

text \<open>
  A reader's turn on the transfers: the active ones can only be dropped or, by a chunk,
  advanced; the disk can only change in the file of an active transfer from that peer.
\<close>

lemma handle_control_effect:
  assumes "handle_control env p c nd = Ret nd'"
  shows "nd_disk nd' = nd_disk nd"
    "hm_get (tr_active (nd_transfers nd')) k = Some a \<Longrightarrow>
       hm_get (tr_active (nd_transfers nd)) k = Some a"
proof -
  have "nd_disk nd' = nd_disk nd \<and>
      (hm_get (tr_active (nd_transfers nd')) k = Some a \<longrightarrow>
       hm_get (tr_active (nd_transfers nd)) k = Some a)"
  proof (cases c)
    case Bye
    with assms show ?thesis
      by (auto simp: handle_control_def peer_gone_fields dest: peer_gone_active)
  qed (use assms handle_file_control_effect in
      \<open>auto simp: handle_control_def node_ops Let_def\<close>)
  then show "nd_disk nd' = nd_disk nd"
    "hm_get (tr_active (nd_transfers nd')) k = Some a \<Longrightarrow>
       hm_get (tr_active (nd_transfers nd)) k = Some a" by simp_all
qed

lemma handle_chunk_disk:
  assumes "file_content (nd_disk (handle_chunk env p tid seq data nd)) q \<noteq> file_content (nd_disk nd) q"
  shows "\<exists>a. hm_get (tr_active (nd_transfers nd)) tid = Some a \<and> ai_peer_id a = pi_id (p_info p) \<and>
    ai_path a = q"
proof -
  obtain a where a: "hm_get (tr_active (nd_transfers nd)) tid = Some a" "ai_peer_id a = pi_id (p_info p)"
    using assms handle_chunk_miss by (metis not_None_eq)
  obtain r a' d' where t: "take_chunk env seq data a (nd_disk nd) = (r, a', d')" by (metis prod_cases3)
  with handle_chunk_hit(1) [OF a t] assms a show ?thesis using take_chunk_disk by metis
qed

section \<open>The claims\<close>


text \<open>
  C12. Nothing is relayed.  Whatever a peer sends, be it a chat line, a file message, a chunk
  or garbage, all that the node puts on any link in answer is an abort of a transfer to that
  same peer, or, on the host and when the link is lost, the notice that this peer left.
\<close>

theorem nothing_is_relayed:
  assumes "reader_turn env p received nd = Ret (k, nd')"
  shows "wire_adds nd nd' (\<lambda>(l, bs).
    (l = p_link p \<and> (\<exists>t r. encode_control (e_to_json env) (FileAbort t r) = Inr bs)) \<or>
    (is_host nd \<and> encode_control (e_to_json env)
       (PeerLeft (pi_id (p_info p)) (pi_name (p_info p))) = Inr bs))"
proof -
  let ?ok = "\<lambda>(l, bs). (l = p_link p \<and>
      (\<exists>t r. encode_control (e_to_json env) (FileAbort t r) = Inr bs)) \<or>
    (is_host nd \<and> encode_control (e_to_json env)
       (PeerLeft (pi_id (p_info p)) (pi_name (p_info p))) = Inr bs)"
  have gone: "wire_adds nd (peer_gone env p reason nd) ?ok" for reason
  proof (cases "st_role nd = Some Host")
    case True
    then have "list_all ?ok (concat (map (\<lambda>q. delivered env (p_link q)
        (PeerLeft (pi_id (p_info p)) (pi_name (p_info p)))) ps))" for ps
      using delivered_encodes
      by (induction ps) (fastforce simp: is_host_def list_all_iff)+
    with True show ?thesis by (auto simp: wire_adds_def peer_gone_fields)
  next
    case False
    then show ?thesis by (simp add: wire_adds_def peer_gone_fields)
  qed
  have chunks: "wire_adds nd (handle_chunk env p tid seq data nd) ?ok" for tid seq data
    using handle_chunk_wire [of env p tid seq data nd] delivered_encodes
    by (fastforce simp: wire_adds_def list_all_iff)
  have controls: "wire_adds nd nd1 ?ok" if "handle_control env p c nd = Ret nd1" for c nd1
  proof (cases c)
    case Bye
    with that gone show ?thesis by (auto simp: handle_control_def)
  qed (use that in \<open>auto simp: handle_control_def node_ops Let_def
      intro!: wire_adds_same dest: handle_file_control_wire\<close>)
  from assms show ?thesis
  proof (cases rule: reader_turn_cases)
    case (lost e)
    then show ?thesis using gone by simp
  next
    case (malformed msg)
    then show ?thesis by (intro wire_adds_same) (simp add: node_ops)
  next
    case (control buf c)
    then show ?thesis using controls by blast
  next
    case (chunk tid seq data)
    then show ?thesis using chunks by simp
  qed
qed

theorem nothing_is_relayed_witness:
  "wire_adds sample_receiving (peer_gone sample_env \<lparr>p_info = sample_info ''al'', p_link = 3\<rparr>
      (lit ''the peer closed the room'') sample_receiving) (\<lambda>(l, bs).
    (l = 3 \<and> (\<exists>t r. encode_control (e_to_json sample_env) (FileAbort t r) = Inr bs)) \<or>
    (is_host sample_receiving \<and> encode_control (e_to_json sample_env)
       (PeerLeft (lit ''al'') (lit ''al'')) = Inr bs))"
proof -
  let ?p = "\<lparr>p_info = sample_info ''al'', p_link = 3\<rparr>"
  have "encode_control sample_to_json Bye = Inr [KIND_CONTROL, 6]"
    by (simp add: encode_control_def)
  have "decode_frame sample_from_json [KIND_CONTROL, 6] = Inr (Control Bye)" by code_simp
  then have "reader_turn sample_env ?p (Inr [KIND_CONTROL, 6]) sample_receiving =
      Ret (Some (Reader ?p), peer_gone sample_env ?p (lit ''the peer closed the room'') sample_receiving)"
    by (simp add: reader_turn_def sample_env_def handle_control_def)
  from nothing_is_relayed [OF this] show ?thesis by (simp add: sample_info_def)
qed

text \<open>
  C11. A peer can only write to the file that was accepted from it: if handling what came in
  on a link changed the content of a file, then that file is the one the user chose for a
  transfer offered by this very peer and still in progress.
\<close>

theorem peers_write_only_accepted_files:
  assumes "reader_turn env p received nd = Ret (k, nd')"
    and "file_content (nd_disk nd') q \<noteq> file_content (nd_disk nd) q"
  shows "\<exists>tid a. hm_get (tr_active (nd_transfers nd)) tid = Some a \<and>
    ai_peer_id a = pi_id (p_info p) \<and> ai_path a = q"
  using assms(1)
proof (cases rule: reader_turn_cases)
  case (lost e)
  with assms(2) show ?thesis by (simp add: peer_gone_fields)
next
  case (malformed msg)
  with assms(2) show ?thesis by (simp add: node_ops)
next
  case (control buf c)
  with assms(2) handle_control_effect(1) show ?thesis by metis
next
  case (chunk tid seq data)
  with assms(2) handle_chunk_disk show ?thesis by metis
qed

theorem peers_write_only_accepted_files_witness:
  "\<exists>tid a. hm_get (tr_active (nd_transfers sample_receiving)) tid = Some a \<and>
    ai_peer_id a = pi_id (sample_info ''al'') \<and> ai_path a = lit ''x''"
proof -
  let ?p = "\<lparr>p_info = sample_info ''al'', p_link = 3\<rparr>"
  let ?nd = "handle_chunk sample_env ?p (replicate 16 2) 0 [4] sample_receiving"
  have r: "reader_turn sample_env ?p (Inr (encode_chunk (replicate 16 2) 0 [4])) sample_receiving =
      Ret (Some (Reader ?p), ?nd)" by (rule reader_turn_chunk) simp
  have "file_content (nd_disk ?nd) (lit ''x'') \<noteq> file_content (nd_disk sample_receiving) (lit ''x'')"
    by code_simp
  from peers_write_only_accepted_files [OF r this] show ?thesis by simp
qed

text \<open>
  A link is lost once: after \<open>peer_gone\<close> the peer is no longer registered, and however
  often and for whatever reason the loss is reported again (the goodbye and the end of the
  stream usually both are), nothing more happens.
\<close>

theorem losing_a_link_is_idempotent:
  "hm_get (st_peers (peer_gone env p reason nd)) (pi_id (p_info p)) = None \<and>
   peer_gone env' p reason' (peer_gone env p reason nd) = peer_gone env p reason nd"
proof -
  have "hm_get (st_peers (peer_gone env p reason nd)) (pi_id (p_info p)) = None"
    by (simp add: peer_gone_fields hm_simps)
  then show ?thesis using peer_gone_absent by blast
qed

text \<open>
  The loss of an old link takes down a newer one: links are registered by peer id only,
  so when the reader of a replaced link ends, the newer link of the same peer is dropped
  from the registry, while it is the old link that is closed and the newer stays open.
\<close>

theorem stale_reader_drops_the_new_link:
  assumes "hm_get (st_peers nd) (pi_id (p_info old)) = Some new" "p_link new \<noteq> p_link old"
    and "p_link new \<notin> set (nd_closed nd)"
  shows "hm_get (st_peers (peer_gone env old reason nd)) (pi_id (p_info old)) = None \<and>
    p_link new \<notin> set (nd_closed (peer_gone env old reason nd))"
  using assms by (simp add: peer_gone_fields hm_simps)

theorem stale_reader_drops_the_new_link_witness:
  "hm_get (st_peers (peer_gone sample_env \<lparr>p_info = sample_info ''al'', p_link = 2\<rparr> [] sample_receiving))
      (pi_id (p_info \<lparr>p_info = sample_info ''al'', p_link = 2\<rparr>)) = None \<and>
    p_link \<lparr>p_info = sample_info ''al'', p_link = 3\<rparr> \<notin>
      set (nd_closed (peer_gone sample_env \<lparr>p_info = sample_info ''al'', p_link = 2\<rparr> [] sample_receiving))"
  by (rule stale_reader_drops_the_new_link) code_simp+

end
