(* ===== verification/Room_Claims.thy ===== *)
theory Room_Claims
  imports Link_Claims Lifecycle
begin

text \<open>
  What admission and the life of a room guarantee: who is parked, who is refused, what an
  approval sends and in which order, who may open a mesh link, and what leaving closes.
\<close>

section \<open>Facts\<close>

interpretation announcing: send_loop "announce env info"
  "\<lambda>p. delivered env (p_link p) (PeerJoined info)" "\<lambda>_. []" for env info
proof
  fix p nd
  obtain r where "peer_send env p (PeerJoined info) nd =
      (r, nd\<lparr>nd_wire := nd_wire nd @ delivered env (p_link p) (PeerJoined info)\<rparr>)"
    unfolding peer_send_def by (rule control_send_split)
  then show "\<exists>evs. announce env info p nd = nd\<lparr>nd_wire := nd_wire nd @
      delivered env (p_link p) (PeerJoined info), nd_events := nd_events nd @ evs,
      nd_closed := nd_closed nd @ []\<rparr>"
    by (cases r) (auto simp: announce_def node_ops intro: exI [of _ "[]"])
qed

interpretation leaving: send_loop "say_bye env"
  "\<lambda>p. delivered env (p_link p) Bye" "\<lambda>p. [p_link p]" for env
proof
  fix p nd
  show "\<exists>evs. say_bye env p nd = nd\<lparr>nd_wire := nd_wire nd @ delivered env (p_link p) Bye,
      nd_events := nd_events nd @ evs, nd_closed := nd_closed nd @ [p_link p]\<rparr>"
    by (rule exI [of _ "[]"]) (simp add: say_bye_def node_ops)
qed

lemma attach_running:
  assumes "nd_running nd"
  shows "st_peers (attach_peer env info l nd) =
      hm_insert (pi_id info) \<lparr>p_info = info, p_link = l\<rparr> (st_peers nd)"
    "st_roster (attach_peer env info l nd) = hm_insert (pi_id info) info (st_roster nd)"
  using assms by (simp_all add: attach_peer_def node_ops Let_def)

lemma attach_fields [simp]:
  "st_pending (attach_peer env info l nd) = st_pending nd"
  "st_role (attach_peer env info l nd) = st_role nd"
  "st_room (attach_peer env info l nd) = st_room nd"
  "st_me (attach_peer env info l nd) = st_me nd"
  "nd_running (attach_peer env info l nd) = nd_running nd"
  "nd_req_seq (attach_peer env info l nd) = nd_req_seq nd"
  "nd_wire (attach_peer env info l nd) = nd_wire nd"
  "nd_transfers (attach_peer env info l nd) = nd_transfers nd"
  "nd_disk (attach_peer env info l nd) = nd_disk nd"
  by (simp_all add: attach_peer_def node_ops Let_def)

lemma close_taken_fields [simp]:
  "quiet (close_taken l nd) = quiet nd" "nd_closed (close_taken l nd) = nd_closed nd"
  "nd_wire (close_taken l nd) = nd_wire nd" "nd_events (close_taken l nd) = nd_events nd"
  by (simp_all add: close_taken_def node_ops quiet_def split: option.splits)

lemmas close_taken_quiet [simp] = quiet_fields [OF close_taken_fields(1)]

lemma close_all_fields [simp]:
  "quiet (close_all ls nd) = quiet nd" "nd_closed (close_all ls nd) = nd_closed nd @ ls"
  "nd_wire (close_all ls nd) = nd_wire nd"
proof -
  show "quiet (close_all ls nd) = quiet nd" "nd_closed (close_all ls nd) = nd_closed nd @ ls"
    by (simp_all add: close_all_def closing.quiet_fold)
  show "nd_wire (close_all ls nd) = nd_wire nd"
    by (induction ls arbitrary: nd) (simp_all add: close_all_def node_ops)
qed

lemmas close_all_quiet [simp] = quiet_fields [OF close_all_fields(1)]

lemma leave_fields:
  assumes "nd_running nd"
  shows "\<not> nd_running (leave env nd)" "st_peers (leave env nd) = []" "st_roster (leave env nd) = []"
    "st_pending (leave env nd) = []" "st_listener (leave env nd) = None"
    "nd_spawned (leave env nd) = nd_spawned nd" "nd_req_seq (leave env nd) = nd_req_seq nd"
    "nd_transfers (leave env nd) = nd_transfers nd" "nd_disk (leave env nd) = nd_disk nd"
    "st_role (leave env nd) = st_role nd"
    "nd_wire (leave env nd) = nd_wire nd @
       concat (map (\<lambda>p. delivered env (p_link p) Bye) (hm_values (st_peers nd)))"
    "nd_closed (leave env nd) = nd_closed nd @ map p_link (hm_values (st_peers nd)) @
       map pd_link (hm_values (st_pending nd))"
  using assms by (simp_all add: leave_def Let_def node_ops concat_map_singleton)

lemma shutdown_fields:
  "\<not> nd_running (shutdown_internal nd)" "st_peers (shutdown_internal nd) = []"
  "st_roster (shutdown_internal nd) = []" "st_pending (shutdown_internal nd) = st_pending nd"
  "nd_spawned (shutdown_internal nd) = nd_spawned nd"
  "nd_req_seq (shutdown_internal nd) = nd_req_seq nd"
  "nd_transfers (shutdown_internal nd) = nd_transfers nd"
  "nd_disk (shutdown_internal nd) = nd_disk nd" "st_role (shutdown_internal nd) = st_role nd"
  by (simp_all add: shutdown_internal_def Let_def)

text \<open>Whom \<open>on_hello\<close> parks.\<close>

definition hello_welcome :: "env \<Rightarrow> u32 \<Rightarrow> rstr \<Rightarrow> peer_info \<Rightarrow> node \<Rightarrow> bool" where
  "hello_welcome env version room peer nd \<longleftrightarrow>
     version = PROTOCOL_VERSION \<and> is_host nd \<and>
     normalize_code room = normalize_code (st_room nd) \<and>
     (case st_open_until nd of None \<Rightarrow> True | Some t \<Rightarrow> e_now env \<le> t) \<and>
     hm_get (st_roster nd) (pi_id peer) = None \<and> pi_id (st_me nd) \<noteq> pi_id peer"

lemma on_hello_refused:
  assumes "\<not> hello_welcome env version room peer nd"
  shows "\<exists>reason. on_hello env l version room peer source nd = reject env l reason nd"
proof -
  consider "version \<noteq> PROTOCOL_VERSION"
    | "version = PROTOCOL_VERSION" "st_role nd \<noteq> Some Host"
    | "version = PROTOCOL_VERSION" "st_role nd = Some Host"
      "normalize_code room \<noteq> normalize_code (st_room nd)"
    | "version = PROTOCOL_VERSION" "st_role nd = Some Host"
      "normalize_code room = normalize_code (st_room nd)"
      "case st_open_until nd of None \<Rightarrow> False | Some t \<Rightarrow> t < e_now env"
    | "version = PROTOCOL_VERSION" "st_role nd = Some Host"
      "normalize_code room = normalize_code (st_room nd)"
      "\<not> (case st_open_until nd of None \<Rightarrow> False | Some t \<Rightarrow> t < e_now env)"
      "hm_contains (st_roster nd) (pi_id peer) \<or> pi_id (st_me nd) = pi_id peer"
    using assms
    by (auto simp: hello_welcome_def is_host_def hm_contains_iff split: option.splits)
  then show ?thesis
    by cases (simp only: on_hello_def Let_def if_True if_False simp_thms not_True_eq_False, rule exI, rule refl)+
qed

lemma on_hello_parked:
  assumes "hello_welcome env version room peer nd"
  shows "on_hello env l version room peer source nd =
    emit (EvJoinRequest (show_nat (unat (nd_req_seq nd))) (sanitize_name (pi_name peer))
        (if pi_addr peer = [] then source else pi_addr peer) (e_fingerprint env l))
      (nd\<lparr>nd_req_seq := nd_req_seq nd + 1,
         st_pending := hm_insert (show_nat (unat (nd_req_seq nd)))
           \<lparr>pd_info = peer\<lparr>pi_name := sanitize_name (pi_name peer)\<rparr>, pd_link = l\<rparr> (st_pending nd)\<rparr>)"
proof -
  have h: "version = PROTOCOL_VERSION" "st_role nd = Some Host"
    "normalize_code room = normalize_code (st_room nd)"
    "(case st_open_until nd of None \<Rightarrow> False | Some t \<Rightarrow> t < e_now env) = False"
    "(hm_contains (st_roster nd) (pi_id peer) \<or> pi_id (st_me nd) = pi_id peer) = False"
    using assms by (auto simp: hello_welcome_def is_host_def hm_contains_iff split: option.splits)
  show ?thesis
    unfolding on_hello_def Let_def h by simp
qed

section \<open>The claims\<close>

text \<open>
  C13. A request to join is parked, and connects the caller to nobody, exactly when it speaks
  this protocol version, this node hosts the room of that code, joining has not expired and
  the id is new; the operator is then asked, under a request number of its own.  Any other
  caller is sent a reason, its link is closed, and the node is otherwise unchanged.
\<close>

theorem hello_is_parked_or_refused:
  "let admissible = (version = PROTOCOL_VERSION \<and> is_host nd \<and>
         normalize_code room = normalize_code (st_room nd) \<and>
         (case st_open_until nd of None \<Rightarrow> True | Some t \<Rightarrow> e_now env \<le> t) \<and>
         hm_get (st_roster nd) (pi_id peer) = None \<and> pi_id (st_me nd) \<noteq> pi_id peer);
       req = show_nat (unat (nd_req_seq nd));
       name = sanitize_name (pi_name peer);
       nd' = on_hello env l version room peer source nd in
   if admissible
   then \<exists>addr. nd' = nd\<lparr>nd_req_seq := nd_req_seq nd + 1,
       st_pending := hm_insert req \<lparr>pd_info = peer\<lparr>pi_name := name\<rparr>, pd_link = l\<rparr> (st_pending nd),
       nd_events := nd_events nd @ [EvJoinRequest req name addr (e_fingerprint env l)]\<rparr>
   else \<exists>reason. nd' = nd\<lparr>nd_wire := nd_wire nd @ delivered env l (Rejected reason),
       nd_closed := nd_closed nd @ [l]\<rparr>"
proof (cases "hello_welcome env version room peer nd")
  case True
  show ?thesis
    unfolding Let_def hello_welcome_def [symmetric] on_hello_parked [OF True] if_P [OF True]
    by (rule exI [of _ "if pi_addr peer = [] then source else pi_addr peer"]) (simp add: emit_def)
next
  case False
  obtain reason where r: "on_hello env l version room peer source nd = reject env l reason nd"
    using on_hello_refused [OF False] by blast
  show ?thesis
    unfolding Let_def hello_welcome_def [symmetric] r reject_eq if_not_P [OF False]
    by (rule exI, rule refl)
qed

text \<open>
  An approval tells the members before it lets the newcomer in: the announcement goes to
  every connected peer first, then the newcomer gets the welcome with exactly the connected
  peers on its list; it is then registered under its id, on the roster and off the list of
  requests, and nobody else's registration changes.
\<close>

theorem approval_announces_then_welcomes:
  assumes "hm_get (st_pending nd) req = Some pd" "nd_running nd"
    and "delivered env (pd_link pd)
      (Welcome (st_room nd) (st_me nd) (map p_info (connected_peers nd))) \<noteq> []"
  shows "\<exists>nd'. approve env req True nd = (Inr (), nd') \<and>
    nd_wire nd' = nd_wire nd @
      concat (map (\<lambda>p. delivered env (p_link p) (PeerJoined (pd_info pd))) (connected_peers nd)) @
      delivered env (pd_link pd)
        (Welcome (st_room nd) (st_me nd) (map p_info (connected_peers nd))) \<and>
    st_peers nd' = hm_insert (pi_id (pd_info pd)) \<lparr>p_info = pd_info pd, p_link = pd_link pd\<rparr>
      (st_peers nd) \<and>
    hm_get (st_roster nd') (pi_id (pd_info pd)) = Some (pd_info pd) \<and>
    st_pending nd' = hm_remove req (st_pending nd)"
proof -
  let ?nd1 = "nd\<lparr>st_pending := hm_remove req (st_pending nd)\<rparr>"
  let ?nd2 = "fold (announce env (pd_info pd)) (connected_peers nd) ?nd1"
  let ?nd3 = "?nd2\<lparr>st_roster := hm_insert (pi_id (pd_info pd)) (pd_info pd) (st_roster ?nd2)\<rparr>"
  let ?wel = "Welcome (st_room nd) (st_me nd) (map p_info (connected_peers nd))"
  obtain r where r: "control_send env (pd_link pd) ?wel ?nd3 =
      (r, ?nd3\<lparr>nd_wire := nd_wire ?nd3 @ delivered env (pd_link pd) ?wel\<rparr>)"
    "r = Inr () \<longleftrightarrow> delivered env (pd_link pd) ?wel \<noteq> []"
    by (rule control_send_split)
  have "connected_peers ?nd1 = connected_peers nd" by (simp add: connected_peers_def)
  then have a: "approve env req True nd = (Inr (), attach_peer env (pd_info pd) (pd_link pd)
      (emit (EvJoinResolved req True)
        (?nd3\<lparr>nd_wire := nd_wire ?nd3 @ delivered env (pd_link pd) ?wel\<rparr>)))"
    using assms r by (simp add: approve_def Let_def)
  show ?thesis
    unfolding a using assms(2)
    by (simp add: attach_running node_ops hm_simps)
qed

definition sample_host :: node where
  "sample_host = sample_receiving
     \<lparr>st_role := Some Host, st_kind := Some Lan, st_room := lit ''L-1'',
      st_pending := [(lit ''1'', \<lparr>pd_info = sample_info ''bo'', pd_link = 9\<rparr>)]\<rparr>"

theorem approval_announces_then_welcomes_witness:
  "\<exists>nd'. approve sample_env (lit ''1'') True sample_host = (Inr (), nd') \<and>
    nd_wire nd' = nd_wire sample_host @
      concat (map (\<lambda>p. delivered sample_env (p_link p) (PeerJoined (sample_info ''bo'')))
        (connected_peers sample_host)) @
      delivered sample_env 9
        (Welcome (st_room sample_host) (st_me sample_host) (map p_info (connected_peers sample_host))) \<and>
    st_peers nd' = hm_insert (lit ''bo'') \<lparr>p_info = sample_info ''bo'', p_link = 9\<rparr>
      (st_peers sample_host) \<and>
    hm_get (st_roster nd') (lit ''bo'') = Some (sample_info ''bo'') \<and>
    st_pending nd' = hm_remove (lit ''1'') (st_pending sample_host)"
proof -
  have "hm_get (st_pending sample_host) (lit ''1'') =
      Some \<lparr>pd_info = sample_info ''bo'', pd_link = 9\<rparr>" "nd_running sample_host"
    "delivered sample_env (pd_link \<lparr>pd_info = sample_info ''bo'', pd_link = 9\<rparr>)
      (Welcome (st_room sample_host) (st_me sample_host) (map p_info (connected_peers sample_host))) \<noteq> []"
    by code_simp+
  from approval_announces_then_welcomes [OF this] show ?thesis by (simp add: sample_info_def)
qed



text \<open>
  Only members get a mesh link: a held mesh call registers a link only when the caller's
  id is on the roster, is not registered yet and the node is running; it registers exactly
  this link under exactly this id.
\<close>

theorem mesh_call_needs_the_roster:
  assumes "mesh_call_turn env l peer deadline nd = (k, nd')" "st_peers nd' \<noteq> st_peers nd"
  shows "hm_get (st_roster nd) (pi_id peer) \<noteq> None \<and> hm_get (st_peers nd) (pi_id peer) = None \<and>
    nd_running nd \<and>
    st_peers nd' = hm_insert (pi_id peer) \<lparr>p_info = peer, p_link = l\<rparr> (st_peers nd)"
proof (cases "nd_running nd")
  case True
  with assms show ?thesis
    by (auto simp: mesh_call_turn_def accept_mesh_call_def peer_by_id_def hm_contains_iff reject_eq
        attach_running node_ops split: if_splits option.splits sum.splits prod.splits
        dest!: wire_send_eq)
next
  case False
  with assms have False
    by (auto simp: mesh_call_turn_def accept_mesh_call_def peer_by_id_def hm_contains_iff reject_eq
        attach_stopped node_ops split: if_splits option.splits sum.splits prod.splits
        dest!: wire_send_eq)
  then show ?thesis ..
qed

theorem mesh_call_needs_the_roster_witness:
  "let nd = sample_host\<lparr>st_roster := [(lit ''cy'', sample_info ''cy'')]\<rparr> in
   hm_get (st_roster nd) (lit ''cy'') \<noteq> None \<and> hm_get (st_peers nd) (lit ''cy'') = None \<and>
    nd_running nd \<and>
    st_peers (snd (mesh_call_turn sample_env 12 (sample_info ''cy'') 0 nd)) =
      hm_insert (lit ''cy'') \<lparr>p_info = sample_info ''cy'', p_link = 12\<rparr> (st_peers nd)"
proof -
  let ?nd = "sample_host\<lparr>st_roster := [(lit ''cy'', sample_info ''cy'')]\<rparr>"
  let ?r = "mesh_call_turn sample_env 12 (sample_info ''cy'') 0 ?nd"
  have "?r = (fst ?r, snd ?r)" by simp
  moreover have "length (st_peers (snd ?r)) \<noteq> length (st_peers ?nd)" by code_simp
  then have "st_peers (snd ?r) \<noteq> st_peers ?nd" by metis
  ultimately show ?thesis
    using mesh_call_needs_the_roster [of sample_env 12 "sample_info ''cy''" 0 ?nd "fst ?r" "snd ?r"]
    by (simp add: Let_def sample_info_def)
qed

text \<open>
  Leaving closes everything the room had open: the node stops, every connected peer is
  sent a goodbye and every link of a peer or of a waiting request is closed, the registry,
  the roster, the requests and the listener are gone, and leaving again does nothing.
\<close>

theorem leaving_closes_everything:
  "let nd' = leave env nd in
   if nd_running nd
   then \<not> nd_running nd' \<and> st_peers nd' = [] \<and> st_roster nd' = [] \<and> st_pending nd' = [] \<and>
     st_listener nd' = None \<and>
     nd_wire nd' = nd_wire nd @ concat (map (\<lambda>p. delivered env (p_link p) Bye) (connected_peers nd)) \<and>
     set (nd_closed nd') = set (nd_closed nd) \<union> p_link ` set (connected_peers nd) \<union>
       pd_link ` set (hm_values (st_pending nd)) \<and>
     leave env' nd' = nd'
   else nd' = nd"
proof (cases "nd_running nd")
  case True
  have "leave env' (leave env nd) = leave env nd"
    using leave_fields(1) [OF True] by (simp add: leave_def [of env' "leave env nd"])
  with True show ?thesis by (simp add: leave_fields connected_peers_def Let_def Un_assoc)
next
  case False
  then show ?thesis by (simp add: leave_def)
qed

end
