(* ===== verification/Node_Refinement.thy ===== *)
theory Node_Refinement
  imports Membership Node_System Room_Claims
begin

text \<open>
  The handlers refine the membership protocol: every step of a node is a short run of
  \<open>Membership\<close>, and most steps are none.  The claims about every run of a node are the
  invariants of that specification, carried over.
\<close>

definition members :: "node \<Rightarrow> membership" where
  "members nd =
     \<lparr>m_role = st_role nd, m_running = nd_running nd, m_peers = st_peers nd,
      m_roster = st_roster nd, m_pending = st_pending nd, m_seq = nd_req_seq nd\<rparr>"

lemma members_quiet: "quiet a = quiet b \<Longrightarrow> members a = members b"
  using quiet_fields [of a b] by (simp add: members_def)

section \<open>Handlers that leave the membership alone\<close>

lemma members_prims [simp]:
  "members (emit e nd) = members nd" "members (record_line_to r nd) = members nd"
  "members (spawn t nd) = members nd" "members (close_link l nd) = members nd"
  "members (close_listener n nd) = members nd" "members (with_transfers f nd) = members nd"
  "members (channel_send n d nd) = members nd" "members (snd (new_channel nd)) = members nd"
  "members (snd (wire_send env l bs nd)) = members nd"
  "members (snd (control_send env l c nd)) = members nd"
  "members (snd (peer_send env p c nd)) = members nd"
  "members (reject env l reason nd) = members nd"
  "members (take_task t nd) = members nd" "members (resume k nd) = members nd"
  "members (nd\<lparr>nd_disk := dk\<rparr>) = members nd" "members (nd\<lparr>nd_wire := w\<rparr>) = members nd"
  "members (nd\<lparr>st_limiter := lim\<rparr>) = members nd"
  by (simp_all add: members_def node_ops reject_eq take_task_def resume_def split: option.splits)

lemma members_wire_send: "wire_send env l bs nd = (r, nd') \<Longrightarrow> members nd' = members nd"
  by (metis members_prims(9) snd_conv)

lemma members_control_send: "control_send env l c nd = (r, nd') \<Longrightarrow> members nd' = members nd"
  by (metis members_prims(10) snd_conv)

lemma members_peer_send: "peer_send env p c nd = (r, nd') \<Longrightarrow> members nd' = members nd"
  by (metis members_prims(11) snd_conv)

lemmas members_sends = members_wire_send members_control_send members_peer_send

lemma members_fold_emit:
  "members (fold (\<lambda>x. emit (g x)) xs nd) = members nd" "members (fold (\<lambda>x. spawn (h x)) ys nd) = members nd"
  by (induction xs arbitrary: nd, simp_all) (induction ys arbitrary: nd, simp_all)

lemma members_finish_out [simp]: "members (finish_out tid h name ok detail nd) = members nd"
  by (simp add: finish_out_def)

lemma members_files [simp]:
  "members (snd (send_file env path file_name meta opened nd)) = members nd"
  "members (snd (send_offer env p path name fsize sha nd)) = members nd"
  "members (snd (send_answered env p tid chan name fsize opened nd)) = members nd"
  "members (send_done env p tid name fsize nd) = members nd"
  "members (snd (send_chunk env p tid name fsize prog nd)) = members nd"
  "members (handle_chunk env p tid seq data nd) = members nd"
  "members (complete_incoming env transfer tid nd) = members nd"
  "members (abort_incoming transfer reason tid nd) = members nd"
  "members (store_offer p transfer name fsize sha tid nd) = members nd"
  "members (push_decision dec tid nd) = members nd"
proof -
  show "members (snd (send_file env path file_name meta opened nd)) = members nd"
    by (auto simp: send_file_def Let_def members_fold_emit split: sum.splits)
  have nc: "members nd0 = members nd" if "new_channel nd = (chan, nd0)" for chan nd0
    using that by (metis members_prims(8) snd_conv)
  show "members (snd (send_offer env p path name fsize sha nd)) = members nd"
    by (auto simp: send_offer_def Let_def split: sum.splits prod.splits dest!: members_sends nc)
  show sd: "members (send_done env p tid name fsize nd) = members nd"
    by (auto simp: send_done_def Let_def split: prod.splits dest!: members_sends)
  show "members (snd (send_answered env p tid chan name fsize opened nd)) = members nd"
    by (auto simp: send_answered_def Let_def split: sum.splits prod.splits option.splits
        decision.splits dest!: members_sends)
  show "members (snd (send_chunk env p tid name fsize prog nd)) = members nd"
    by (auto simp: send_chunk_def Let_def sd split: sum.splits prod.splits dest!: members_sends)
  show "members (handle_chunk env p tid seq data nd) = members nd"
    by (auto simp: handle_chunk_def Let_def split: option.splits prod.splits chunk_outcome.splits)
  show "members (complete_incoming env transfer tid nd) = members nd"
    by (auto simp: complete_incoming_def Let_def split: option.splits)
  show "members (abort_incoming transfer reason tid nd) = members nd"
    by (auto simp: abort_incoming_def Let_def split: option.splits)
  show "members (store_offer p transfer name fsize sha tid nd) = members nd"
    by (simp add: store_offer_def Let_def)
  show "members (push_decision dec tid nd) = members nd"
    by (auto simp: push_decision_def split: option.splits)
qed

lemma members_file_control: "handle_file_control env p c nd = Ret nd' \<Longrightarrow> members nd' = members nd"
  by (auto simp: handle_file_control_def split: control.splits elim!: with_transfer_id_cases)

lemma members_respond: "respond_offer env transfer save_to nd = Ret (r, nd') \<Longrightarrow> members nd' = members nd"
  by (auto simp: respond_offer_def Let_def split: run.splits sum.splits option.splits prod.splits
      dest!: members_sends)

lemma members_user [simp]:
  "members (snd (send_chat env text nd)) = members nd"
  "members (snd (reopen_joining env ttl nd)) = members nd"
  "members (set_display_name name nd) = members nd"
  "members (snd (export_history fmt json env path ext nd)) = members nd"
proof -
  show "members (snd (send_chat env text nd)) = members nd"
    by (simp add: send_chat_def Let_def members_def node_ops)
  show "members (snd (reopen_joining env ttl nd)) = members nd"
    by (simp add: reopen_joining_def members_def node_ops)
  show "members (set_display_name name nd) = members nd"
    by (simp add: set_display_name_def members_def)
  show "members (snd (export_history fmt json env path ext nd)) = members nd"
    by (simp add: export_history_def members_def split: prod.splits)
qed

lemma members_threads [simp]:
  "members (snd (accept_turn listener accepted nd)) = members nd"
  "members (snd (handle_incoming env l label nd)) = members nd"
  "members (snd (dial_peer info nd)) = members nd"
  "members (snd (on_mesh_hello env l version room peer nd)) = members nd"
proof -
  show "members (snd (accept_turn listener accepted nd)) = members nd"
    by (auto simp: accept_turn_def split: sum.splits)
  show "members (snd (handle_incoming env l label nd)) = members nd"
    by (auto simp: handle_incoming_def Let_def split: prod.splits)
  show "members (snd (dial_peer info nd)) = members nd"
    by (auto simp: dial_peer_def split: option.splits)
  show "members (snd (on_mesh_hello env l version room peer nd)) = members nd"
    by (simp add: on_mesh_hello_def)
qed

section \<open>Handlers that are steps of the protocol\<close>

definition refines :: "node \<Rightarrow> mlabel list \<Rightarrow> node \<Rightarrow> bool" where
  "refines nd ms nd' \<longleftrightarrow> runs mstep (members nd) ms (members nd')"

lemma refines_same: "members nd' = members nd \<Longrightarrow> refines nd [] nd'"
  by (auto simp: refines_def)

lemma refines_step: "mstep (members nd) l (members nd') \<Longrightarrow> refines nd [l] nd'"
  by (simp add: refines_def runs_one)

lemma refines_trans: "refines a ls b \<Longrightarrow> refines b ms c \<Longrightarrow> refines a (ls @ ms) c"
  unfolding refines_def by (rule runs_append)

lemma refines_then_same: "refines a ls b \<Longrightarrow> members c = members b \<Longrightarrow> refines a ls c"
  by (simp add: refines_def)

lemma refines_after_same: "members b = members a \<Longrightarrow> refines b ls c \<Longrightarrow> refines a ls c"
  by (simp add: refines_def)

text \<open>The primitive changes, each as a step.\<close>

lemma refines_enrol:
  "refines nd [MEnrol why info] (nd\<lparr>st_roster := hm_insert (pi_id info) info (st_roster nd)\<rparr>)"
  by (rule refines_step) (use mstep.m_enrol [of "members nd" why info] in \<open>simp add: members_def\<close>)

lemma refines_strike: "refines nd [MStrike k] (nd\<lparr>st_roster := hm_remove k (st_roster nd)\<rparr>)"
  by (rule refines_step) (use mstep.m_strike [of "members nd" k] in \<open>simp add: members_def\<close>)

lemma refines_answer: "refines nd [MAnswer req] (nd\<lparr>st_pending := hm_remove req (st_pending nd)\<rparr>)"
  by (rule refines_step) (use mstep.m_answer [of "members nd" req] in \<open>simp add: members_def\<close>)

lemma refines_attach:
  assumes "why = Member \<Longrightarrow> hm_get (st_roster nd) (pi_id info) \<noteq> None"
  shows "\<exists>ms. refines nd ms (attach_peer env info l nd) \<and> (ms = [] \<or> ms = [MAttach why info l])"
proof (cases "nd_running nd")
  case True
  have "mstep (members nd) (MAttach why info l) (members (attach_peer env info l nd))"
    using mstep.m_attach [of "members nd" why info l] assms True
    by (simp add: members_def attach_running)
  then show ?thesis using refines_step by blast
next
  case False
  then have "refines nd [] (attach_peer env info l nd)" by (intro refines_same) (simp add: attach_stopped)
  then show ?thesis by blast
qed

lemma refines_peer_gone:
  "\<exists>ms. refines nd ms (peer_gone env p reason nd) \<and> (ms = [] \<or> ms = [MDetach (pi_id (p_info p))])"
proof (cases "hm_get (st_peers nd) (pi_id (p_info p)) = None")
  case True
  then show ?thesis using refines_same [of nd nd] by (auto simp: peer_gone_absent)
next
  case False
  have "mstep (members nd) (MDetach (pi_id (p_info p))) (members (peer_gone env p reason nd))"
    using mstep.m_detach [of "members nd" "pi_id (p_info p)"] False
    by (cases "st_role nd = Some Host") (simp_all add: members_def peer_gone_fields)
  then show ?thesis using refines_step by blast
qed

lemma refines_shutdown: "refines nd [MClose] (shutdown_internal nd)"
  by (rule refines_step)
    (use mstep.m_close [of "members nd"] in \<open>simp add: members_def shutdown_fields\<close>)

lemma refines_leave: "\<exists>ms. refines nd ms (leave env nd) \<and> (ms = [] \<or> ms = [MLeave])"
proof (cases "nd_running nd")
  case True
  have "mstep (members nd) MLeave (members (leave env nd))"
    using mstep.m_leave [of "members nd"] True by (simp add: members_def leave_fields)
  then show ?thesis using refines_step by blast
next
  case False
  then have "refines nd [] (leave env nd)" by (intro refines_same) (simp add: leave_def)
  then show ?thesis by blast
qed

lemma refines_open:
  assumes "\<not> nd_running nd" "st_role nd' = Some r" "nd_running nd'" "st_peers nd' = []"
    "st_roster nd' = []" "st_pending nd' = []" "nd_req_seq nd' = nd_req_seq nd"
  shows "refines nd [MOpen r] nd'"
  by (rule refines_step)
    (use mstep.m_open [of "members nd" r] assms in \<open>simp add: members_def\<close>)

lemma refines_on_hello:
  "\<exists>ms. refines nd ms (on_hello env l version room peer source nd) \<and>
     (ms = [] \<or> (\<exists>info l'. ms = [MPark info l']))"
proof (cases "hello_welcome env version room peer nd")
  case True
  let ?info = "peer\<lparr>pi_name := sanitize_name (pi_name peer)\<rparr>"
  have "mstep (members nd) (MPark ?info l) (members (on_hello env l version room peer source nd))"
    using mstep.m_park [of "members nd" ?info l] True
    by (simp add: on_hello_parked members_def node_ops hello_welcome_def is_host_def)
  then show ?thesis using refines_step by blast
next
  case False
  then obtain reason where "on_hello env l version room peer source nd = reject env l reason nd"
    using on_hello_refused by blast
  then show ?thesis using refines_same [of "reject env l reason nd" nd] by auto
qed

text \<open>The ids an approval of \<open>req\<close> lets in.\<close>

definition approval_of :: "node \<Rightarrow> rstr \<Rightarrow> bool \<Rightarrow> peer_id list" where
  "approval_of nd req accept =
     (case hm_get (st_pending nd) req of
        Some pd \<Rightarrow> if accept then [pi_id (pd_info pd)] else []
      | None \<Rightarrow> [])"

lemma refines_approve:
  "\<exists>ms. refines nd ms (snd (approve env req accept nd)) \<and> parks ms = 0 \<and>
     list_all hosting_mlabel ms \<and> set (approved_ids ms) \<subseteq> set (approval_of nd req accept)"
proof (cases "hm_get (st_pending nd) req")
  case None
  then show ?thesis
    using refines_same [of nd nd] by (intro exI [of _ "[]"]) (simp add: approve_def parks_def)
next
  case (Some pd)
  let ?nd1 = "nd\<lparr>st_pending := hm_remove req (st_pending nd)\<rparr>"
  note answer = refines_answer [of nd req]
  show ?thesis
  proof (cases accept)
    case False
    have "members (snd (approve env req accept nd)) = members ?nd1"
      using Some False by (simp add: approve_def Let_def)
    with answer have "refines nd [MAnswer req] (snd (approve env req accept nd))"
      by (rule refines_then_same)
    then show ?thesis by (intro exI [of _ "[MAnswer req]"]) (simp add: parks_def)
  next
    case True
    let ?info = "pd_info pd"
    let ?nd2 = "fold (announce env ?info) (connected_peers ?nd1) ?nd1"
    let ?nd3 = "?nd2\<lparr>st_roster := hm_insert (pi_id ?info) ?info (st_roster ?nd2)\<rparr>"
    let ?wel = "Welcome (st_room ?nd3) (st_me ?nd3) (map p_info (connected_peers ?nd1))"
    have 2: "refines nd [MAnswer req] ?nd2"
      by (rule refines_then_same [OF answer members_quiet]) (rule announcing.quiet.quiet_fold)
    have 3: "refines nd ([MAnswer req] @ [MEnrol Approved ?info]) ?nd3"
      by (rule refines_trans [OF 2 refines_enrol])
    obtain r nd4 where 4: "control_send env (pd_link pd) ?wel ?nd3 = (r, nd4)" by fastforce
    have m4: "members nd4 = members ?nd3" by (rule members_control_send [OF 4])
    then have r4: "refines nd ([MAnswer req] @ [MEnrol Approved ?info]) nd4"
      by (rule refines_then_same [OF 3])
    have ids: "set (approved_ids ([MAnswer req] @ [MEnrol Approved ?info])) \<subseteq>
        set (approval_of nd req accept)"
      using Some True by (simp add: approval_of_def)
    show ?thesis
    proof (cases r)
      case (Inl e)
      then have "snd (approve env req accept nd) = nd4"
        using Some True 4 by (simp add: approve_def Let_def)
      with r4 ids show ?thesis
        by (intro exI [of _ "[MAnswer req] @ [MEnrol Approved ?info]"]) (simp add: parks_def)
    next
      case (Inr u)
      let ?nd5 = "emit (EvJoinResolved req True) nd4"
      have "st_roster nd4 = st_roster ?nd3" using m4 by (simp add: members_def)
      then have "hm_get (st_roster ?nd5) (pi_id ?info) \<noteq> None" by (simp add: node_ops hm_simps)
      from refines_attach [where why = Member and env = env and l = "pd_link pd", OF this] obtain ms where
        ms: "refines ?nd5 ms (attach_peer env ?info (pd_link pd) ?nd5)"
        "ms = [] \<or> ms = [MAttach Member ?info (pd_link pd)]" by blast
      have "snd (approve env req accept nd) = attach_peer env ?info (pd_link pd) ?nd5"
        using Some True 4 Inr by (simp add: approve_def Let_def)
      moreover have "refines nd (([MAnswer req] @ [MEnrol Approved ?info]) @ ms)
          (attach_peer env ?info (pd_link pd) ?nd5)"
        by (rule refines_trans [OF refines_then_same [OF r4] ms(1)]) simp
      ultimately show ?thesis
        using ids ms(2)
        by (intro exI [of _ "([MAnswer req] @ [MEnrol Approved ?info]) @ ms"]) (auto simp: parks_def)
    qed
  qed
qed

text \<open>Whatever is not an enrolment approves nobody.\<close>

lemma refines_host:
  "\<exists>ms. refines nd ms (snd (host env kind ttl listened nd)) \<and> (ms = [] \<or> ms = [MOpen Host])"
proof (cases "nd_running nd \<or> (\<exists>e. listened = Inl e) \<or>
    (\<exists>n dial e. listened = Inr (n, dial) \<and> encode kind dial = Inl e)")
  case True
  then have "refines nd [] (snd (host env kind ttl listened nd))"
    by (intro refines_same) (auto simp: host_def ensure_idle_def)
  then show ?thesis by blast
next
  case False
  then obtain n dial code where r: "\<not> nd_running nd" "listened = Inr (n, dial)" "encode kind dial = Inr code"
    by (metis sum.exhaust surj_pair)
  then have "refines nd [MOpen Host] (snd (host env kind ttl listened nd))"
    by (intro refines_open) (simp_all add: host_def ensure_idle_def Let_def node_ops)
  then show ?thesis by blast
qed

text \<open>Joining opens the room as a joiner, and may give it up again when it has tried to connect.\<close>

lemma refines_join_open:
  "\<exists>ms. refines nd ms (snd (join_open kind code listened nd)) \<and> (ms = [] \<or> ms = [MOpen Joiner])"
proof (cases "nd_running nd \<or> (\<exists>e. decode code = Inl e) \<or>
    (\<exists>k dial. decode code = Inr (k, dial) \<and> k \<noteq> kind) \<or> (\<exists>e. listened = Inl e)")
  case True
  then have "refines nd [] (snd (join_open kind code listened nd))"
    by (intro refines_same) (auto simp: join_open_def ensure_idle_def split: sum.splits prod.splits)
  then show ?thesis by blast
next
  case False
  then obtain dial listener my_addr where r: "\<not> nd_running nd" "decode code = Inr (kind, dial)"
    "listened = Inr (listener, my_addr)"
    by (metis sum.exhaust surj_pair)
  then have "refines nd [MOpen Joiner] (snd (join_open kind code listened nd))"
    by (intro refines_open) (simp_all add: join_open_def ensure_idle_def Let_def node_ops)
  then show ?thesis by blast
qed

lemma refines_join_call:
  "\<exists>ms. refines nd ms (snd (join_call env me room connected shaken nd)) \<and> (ms = [] \<or> ms = [MClose])"
proof -
  have "members (snd (join_call env me room connected shaken nd)) = members nd \<or>
      (\<exists>nd1. members nd1 = members nd \<and> snd (join_call env me room connected shaken nd) = shutdown_internal nd1)"
    by (auto simp: join_call_def split: sum.splits prod.splits dest!: members_wire_send)
  then show ?thesis
  proof (elim disjE exE conjE)
    assume "members (snd (join_call env me room connected shaken nd)) = members nd"
    then show ?thesis using refines_same by blast
  next
    fix nd1
    assume 1: "members nd1 = members nd" "snd (join_call env me room connected shaken nd) = shutdown_internal nd1"
    have "refines nd ([] @ [MClose]) (shutdown_internal nd1)"
      by (rule refines_trans [OF refines_same [OF 1(1)] refines_shutdown])
    with 1(2) show ?thesis by auto
  qed
qed

lemma refines_enrol_all:
  "refines nd (map (MEnrol Welcomed) infos) (fold add_to_roster infos nd)"
proof (induction infos arbitrary: nd)
  case Nil
  then show ?case by (simp add: refines_same)
next
  case (Cons info infos)
  have "refines nd ([MEnrol Welcomed info] @ map (MEnrol Welcomed) infos)
      (fold add_to_roster infos (add_to_roster info nd))"
    by (rule refines_trans [OF _ Cons.IH]) (simp add: add_to_roster_def refines_enrol)
  then show ?case by simp
qed

lemma parks_enrol [simp]: "parks (map (MEnrol why) infos) = 0"
  by (simp add: parks_def)

lemma shutdown_after:
  "members nd1 = members nd \<Longrightarrow>
     \<exists>nd2. members nd2 = members nd \<and> shutdown_internal nd1 = shutdown_internal nd2"
  by blast

lemma refines_welcome:
  "\<exists>ms. refines nd ms (await_welcome env l received nd) \<and> parks ms = 0"
proof (cases "\<exists>first room h peers. received = Inr first \<and>
    decode_frame (e_from_json env) first = Inr (Control (Welcome room h peers))")
  case True
  then obtain first room h peers where r: "received = Inr first"
    "decode_frame (e_from_json env) first = Inr (Control (Welcome room h peers))" by blast
  let ?nd0 = "nd\<lparr>st_room := room\<rparr>"
  let ?nd1 = "fold add_to_roster peers (add_to_roster h ?nd0)"
  let ?nd2 = "record_line_to (record_system (e_ts env)
    (lit ''Joined room '' @ room @ lit '' over '' @ kind_text ?nd1)) ?nd1"
  have "refines ?nd0 (map (MEnrol Welcomed) (h # peers)) ?nd1"
    using refines_enrol_all [of ?nd0 "h # peers"] by simp
  then have 1: "refines nd (map (MEnrol Welcomed) (h # peers)) ?nd1"
    by (rule refines_after_same [rotated]) (simp add: members_def)
  have 2: "refines nd (map (MEnrol Welcomed) (h # peers)) ?nd2"
    by (rule refines_then_same [OF 1]) simp
  obtain ms where ms: "refines ?nd2 ms (attach_peer env h l ?nd2)"
    "ms = [] \<or> ms = [MAttach ByWelcome h l]"
    using refines_attach [where why = ByWelcome and nd = ?nd2 and info = h and env = env and l = l]
    by auto
  have "members (await_welcome env l received nd) = members (attach_peer env h l ?nd2)"
    by (simp add: await_welcome_def r Let_def members_fold_emit)
  then have "refines nd (map (MEnrol Welcomed) (h # peers) @ ms) (await_welcome env l received nd)"
    by (rule refines_then_same [OF refines_trans [OF 2 ms(1)]])
  moreover have "parks ms = 0" using ms(2) by (auto simp: parks_def)
  ultimately show ?thesis by (intro exI conjI) (assumption, simp add: parks_def)
next
  case False
  then have "\<exists>nd1. members nd1 = members nd \<and>
      await_welcome env l received nd = shutdown_internal nd1"
    by (auto simp: await_welcome_def split: sum.splits frame.splits control.splits
        intro!: shutdown_after)
  then obtain nd1 where 1: "members nd1 = members nd"
    "await_welcome env l received nd = shutdown_internal nd1" by blast
  have "refines nd [MClose] (shutdown_internal nd1)"
    by (rule refines_after_same [OF 1(1) refines_shutdown])
  with 1(2) show ?thesis by (intro exI [of _ "[MClose]"]) (simp add: parks_def)
qed

lemma refines_dial_reply:
  "\<exists>ms. refines nd ms (snd (dial_reply env l received nd)) \<and> parks ms = 0"
proof (cases "\<exists>peer. snd (dial_reply env l received nd) = attach_peer env peer l nd")
  case True
  then obtain peer where 1: "snd (dial_reply env l received nd) = attach_peer env peer l nd" by blast
  obtain ms where "refines nd ms (attach_peer env peer l nd)"
    "ms = [] \<or> ms = [MAttach Dialled peer l]"
    using refines_attach [where why = Dialled and nd = nd and info = peer and env = env and l = l]
    by auto
  with 1 show ?thesis by (intro exI [of _ ms]) (auto simp: parks_def)
next
  case False
  then have "members (snd (dial_reply env l received nd)) = members nd"
    by (auto simp: dial_reply_def split: sum.splits frame.splits control.splits)
  then show ?thesis using refines_same by (intro exI [of _ "[]"]) (simp add: parks_def)
qed

lemma members_dial_turn [simp]:
  "members (snd (dial_turn env info kind attempt last_error connected shaken nd)) = members nd"
  by (auto simp: dial_turn_def dial_call_def split: sum.splits prod.splits
      dest!: members_control_send)

lemma called_turn_node [simp]:
  "snd (called_turn env info kind attempt l received nd) = snd (dial_reply env l received nd)"
  by (auto simp: called_turn_def split: prod.splits sum.splits)

lemma refines_mesh_call:
  "\<exists>ms. refines nd ms (snd (mesh_call_turn env l peer deadline nd)) \<and>
     (ms = [] \<or> ms = [MAttach Member peer l])"
proof (cases "\<exists>nd1. members nd1 = members nd \<and> hm_get (st_roster nd) (pi_id peer) \<noteq> None \<and>
    snd (mesh_call_turn env l peer deadline nd) = attach_peer env peer l nd1")
  case True
  then obtain nd1 where 1: "members nd1 = members nd" "hm_get (st_roster nd) (pi_id peer) \<noteq> None"
    "snd (mesh_call_turn env l peer deadline nd) = attach_peer env peer l nd1" by blast
  from 1(1,2) have "hm_get (st_roster nd1) (pi_id peer) \<noteq> None" by (simp add: members_def)
  from refines_attach [where why = Member and env = env and l = l, OF this] 1 refines_after_same
  show ?thesis by metis
next
  case False
  then have "members (snd (mesh_call_turn env l peer deadline nd)) = members nd"
    by (auto simp: mesh_call_turn_def accept_mesh_call_def hm_contains_iff
        split: sum.splits prod.splits option.splits dest: members_wire_send)
  then have "refines nd [] (snd (mesh_call_turn env l peer deadline nd))" by (rule refines_same)
  then show ?thesis by blast
qed

lemma refines_greet:
  "\<exists>ms. refines nd ms (snd (greet_incoming env l source shaken received nd)) \<and>
     (ms = [] \<or> (\<exists>info l'. ms = [MPark info l']))"
proof (cases "\<exists>version room peer. snd (greet_incoming env l source shaken received nd) =
    on_hello env l version room peer source nd")
  case True
  then show ?thesis using refines_on_hello by metis
next
  case False
  then have "members (snd (greet_incoming env l source shaken received nd)) = members nd"
    by (auto simp: greet_incoming_def Let_def split: sum.splits frame.splits control.splits)
  then have "refines nd [] (snd (greet_incoming env l source shaken received nd))" by (rule refines_same)
  then show ?thesis by blast
qed

lemma refines_control:
  assumes "handle_control env p c nd = Ret nd'"
  shows "\<exists>ms. refines nd ms nd' \<and> parks ms = 0 \<and> approved_ids ms = [] \<and>
    ((\<forall>info. c \<noteq> PeerJoined info) \<longrightarrow> list_all hosting_mlabel ms)"
proof (cases c)
  case (PeerJoined info)
  with assms have "members nd' = members (nd\<lparr>st_roster := hm_insert (pi_id info) info (st_roster nd)\<rparr>)"
    by (auto simp: handle_control_def)
  from refines_then_same [OF refines_enrol [of _ Announced] this] PeerJoined show ?thesis
    by (intro exI [of _ "[MEnrol Announced info]"]) (simp add: parks_def)
next
  case (PeerLeft k name)
  with assms have "members nd' = members (nd\<lparr>st_roster := hm_remove k (st_roster nd)\<rparr>)"
    by (auto simp: handle_control_def)
  from refines_then_same [OF refines_strike this] show ?thesis
    by (intro exI [of _ "[MStrike k]"]) (simp add: parks_def)
next
  case Bye
  with assms have "nd' = peer_gone env p (lit ''the peer closed the room'') nd"
    by (simp add: handle_control_def)
  with refines_peer_gone [of nd env p "lit ''the peer closed the room''"] show ?thesis
    by (auto simp: parks_def)
qed (use assms in \<open>auto simp: handle_control_def Let_def parks_def
    intro!: exI [of _ "[]"] refines_same dest: members_file_control\<close>)

lemma refines_reader:
  assumes "reader_turn env p received nd = Ret (k, nd')"
  shows "\<exists>ms. refines nd ms nd' \<and> parks ms = 0 \<and> approved_ids ms = [] \<and>
    ((\<forall>buf info. received = Inr buf \<longrightarrow>
        decode_frame (e_from_json env) buf \<noteq> Inr (Control (PeerJoined info))) \<longrightarrow>
      list_all hosting_mlabel ms)"
  using assms
proof (cases rule: reader_turn_cases)
  case (lost e)
  with refines_peer_gone [of nd env p "describe_disconnect e"] show ?thesis
    by (auto simp: parks_def)
next
  case (malformed msg)
  then have "refines nd [] nd'" by (intro refines_same) simp
  then show ?thesis by (intro exI [of _ "[]"]) (simp add: parks_def)
next
  case (control buf c)
  from refines_control [OF control(4)] control(1,2) show ?thesis by auto
next
  case (chunk tid seq data)
  then have "refines nd [] nd'" by (intro refines_same) simp
  then show ?thesis by (intro exI [of _ "[]"]) (simp add: parks_def)
qed

section \<open>The refinement\<close>

text \<open>
  The labels of a node that hosts: it does not join, so that none of the threads joining
  starts takes a step, and no peer announces a newcomer to it.
\<close>

definition hosting_label :: "label \<Rightarrow> bool" where
  "hosting_label l \<longleftrightarrow>
     (case l of
        User env a \<Rightarrow> (case a of DoJoin _ _ _ \<Rightarrow> False | _ \<Rightarrow> True)
      | Thread env t i \<Rightarrow>
          (case t of
             Joining _ _ \<Rightarrow> False
           | AwaitWelcome _ \<Rightarrow> False
           | DialPeer _ \<Rightarrow> False
           | Dialling _ _ _ _ \<Rightarrow> False
           | Called _ _ _ _ \<Rightarrow> False
           | Reader _ \<Rightarrow>
               (case in_received i of
                  Inl _ \<Rightarrow> True
                | Inr buf \<Rightarrow>
                    (case decode_frame (e_from_json env) buf of
                       Inr (Control (PeerJoined _)) \<Rightarrow> False
                     | _ \<Rightarrow> True))
           | _ \<Rightarrow> True))"

definition approvals :: "node \<Rightarrow> label \<Rightarrow> peer_id list" where
  "approvals nd l =
     (case l of
        User env (DoApprove req accept) \<Rightarrow> approval_of nd req accept
      | _ \<Rightarrow> [])"

text \<open>What a step's run of the protocol may be.\<close>

definition fits :: "node \<Rightarrow> label \<Rightarrow> mlabel list \<Rightarrow> bool" where
  "fits nd l ms \<longleftrightarrow> parks ms \<le> 1 \<and>
     (hosting_label l \<longrightarrow>
        list_all hosting_mlabel ms \<and> set (approved_ids ms) \<subseteq> set (approvals nd l))"

lemma fits_simple [simp]:
  "fits nd l []" "fits nd l [MPark info lk]" "fits nd l [MOpen r]" "fits nd l [MLeave]"
  "fits nd l [MAttach Member info lk]"
  by (simp_all add: fits_def parks_def)

lemma refines_perform:
  assumes "perform env a nd = Ret nd'"
  shows "\<exists>ms. refines nd ms nd' \<and> fits nd (User env a) ms"
proof (cases a)
  case (DoHost kind ttl listened)
  with assms refines_host [of nd env kind ttl listened] show ?thesis
    by (auto simp: perform_def)
next
  case (DoJoin kind code listened)
  with assms refines_join_open [of nd kind code listened] show ?thesis
    by (auto simp: perform_join refines_def)
next
  case (DoApprove req accept)
  with assms refines_approve [of nd env req accept] show ?thesis
    by (auto simp: perform_def fits_def approvals_def)
next
  case DoLeave
  with assms refines_leave [of nd env] show ?thesis by (auto simp: perform_def)
next
  case (DoRespond transfer save_to)
  with assms have "members nd' = members nd"
    by (auto simp: perform_def split: run.splits dest: members_respond)
  then show ?thesis using refines_same fits_simple(1) by blast
qed (use assms in \<open>auto simp: perform_def intro!: exI [of _ "[]"] refines_same\<close>)

lemma fits_unchanged: "members nd' = members nd \<Longrightarrow> \<exists>ms. refines nd ms nd' \<and> fits nd l ms"
  using refines_same fits_simple(1) by blast

lemma refines_thread:
  assumes "run_task env t i nd = Ret (k, nd')"
  shows "\<exists>ms. refines nd ms nd' \<and> fits nd (Thread env t i) ms"
proof (cases t)
  case (Greeting l source)
  then have "nd' = snd (greet_incoming env l source (in_shaken i) (in_received i) nd)"
    using assms by (simp add: run_task_def)
  with refines_greet [of nd env l source "in_shaken i" "in_received i"] show ?thesis by auto
next
  case (MeshCall l peer deadline)
  then have "nd' = snd (mesh_call_turn env l peer deadline nd)"
    using assms by (simp add: run_task_def)
  with refines_mesh_call [of nd env l peer deadline] show ?thesis by auto
next
  case (Reader p)
  with assms have "reader_turn env p (in_received i) nd = Ret (k, nd')" by (simp add: run_task_def)
  from refines_reader [OF this] Reader show ?thesis
    by (auto simp: fits_def hosting_label_def split: sum.splits frame.splits control.splits)
next
  case (Dialling info kind attempt last_error)
  with assms have "nd' = snd (dial_turn env info kind attempt last_error (in_connected i)
      (in_shaken i) nd)"
    by (simp add: run_task_def)
  then show ?thesis by (intro fits_unchanged) simp
next
  case (Called info kind attempt l)
  then have "nd' = snd (called_turn env info kind attempt l (in_received i) nd)"
    using assms by (simp add: run_task_def)
  with refines_dial_reply [of nd env l "in_received i"] Called show ?thesis
    by (auto simp: fits_def hosting_label_def)
next
  case (Joining me room)
  with assms refines_join_call [of nd env me room "in_connected i" "in_shaken i"] show ?thesis
    by (auto simp: run_task_def fits_def hosting_label_def parks_def)
next
  case (AwaitWelcome l)
  with assms refines_welcome [of nd env l "in_received i"] show ?thesis
    by (auto simp: run_task_def fits_def hosting_label_def)
next
  case (AcceptLoop listener)
  with assms have "nd' = snd (accept_turn listener (in_accepted i) nd)" by (simp add: run_task_def)
  then show ?thesis by (intro fits_unchanged) simp
next
  case (HandleIncoming l label)
  with assms have "nd' = snd (handle_incoming env l label nd)" by (simp add: run_task_def)
  then show ?thesis by (intro fits_unchanged) simp
next
  case (DialPeer info)
  with assms have "nd' = snd (dial_peer info nd)" by (simp add: run_task_def)
  then show ?thesis by (intro fits_unchanged) simp
next
  case (SendFileTo p path name fsize sha)
  with assms have "nd' = snd (send_offer env p path name fsize sha nd)" by (simp add: run_task_def)
  then show ?thesis by (intro fits_unchanged) simp
next
  case (OutWaiting p tid chan path name fsize)
  with assms have "nd' = snd (send_answered env p tid chan name fsize (in_opened i) nd)" by (simp add: run_task_def)
  then show ?thesis by (intro fits_unchanged) simp
next
  case (OutSending p tid name fsize prog)
  with assms have "nd' = snd (send_chunk env p tid name fsize prog nd)" by (simp add: run_task_def)
  then show ?thesis by (intro fits_unchanged) simp
qed

lemma node_step_refines:
  "node_step nd l nd' \<Longrightarrow> \<exists>ms. refines nd ms nd' \<and> fits nd l ms"
proof (induction rule: node_step.induct)
  case (user env a nd nd')
  then show ?case by (rule refines_perform)
next
  case (thread t nd env i k nd')
  from refines_thread [OF thread(2)] obtain ms where
    ms: "refines (take_task t nd) ms nd'" "fits (take_task t nd) (Thread env t i) ms" by blast
  have "refines nd ms (resume k nd')"
    using ms(1) by (simp add: refines_def)
  moreover have "fits nd (Thread env t i) ms" using ms(2) by (simp add: fits_def approvals_def)
  ultimately show ?case by blast
qed

section \<open>Runs of a node\<close>

text \<open>A run of the node with the ids the operator has approved so far.\<close>

definition admit_step :: "node \<times> peer_id list \<Rightarrow> label \<Rightarrow> node \<times> peer_id list \<Rightarrow> bool" where
  "admit_step s l s' \<longleftrightarrow> node_step (fst s) l (fst s') \<and> snd s' = snd s @ approvals (fst s) l"

definition follows :: "node \<Rightarrow> label list \<Rightarrow> node \<times> peer_id list \<Rightarrow> bool" where
  "follows nd0 ls s \<longleftrightarrow>
     (\<exists>ms. refines nd0 ms (fst s) \<and> parks ms \<le> length ls \<and>
        (list_all hosting_label ls \<longrightarrow>
           list_all hosting_mlabel ms \<and> set (approved_ids ms) \<subseteq> set (snd s)))"

lemma follows_step:
  assumes "admit_step s l s'" "follows nd0 ls s"
  shows "follows nd0 (ls @ [l]) s'"
proof -
  obtain ms where ms: "refines nd0 ms (fst s)" "parks ms \<le> length ls"
    "list_all hosting_label ls \<longrightarrow> list_all hosting_mlabel ms \<and> set (approved_ids ms) \<subseteq> set (snd s)"
    using assms(2) unfolding follows_def by blast
  obtain ks where ks: "refines (fst s) ks (fst s')" "fits (fst s) l ks"
    using node_step_refines assms(1) unfolding admit_step_def by blast
  have "refines nd0 (ms @ ks) (fst s')" by (rule refines_trans [OF ms(1) ks(1)])
  moreover have "parks (ms @ ks) \<le> length (ls @ [l])" using ms(2) ks(2) by (simp add: fits_def)
  moreover have "list_all hosting_mlabel (ms @ ks) \<and> set (approved_ids (ms @ ks)) \<subseteq> set (snd s')"
    if "list_all hosting_label (ls @ [l])"
    using that ms(3) ks(2) assms(1) by (auto simp: fits_def admit_step_def)
  ultimately show ?thesis unfolding follows_def by blast
qed

interpretation tracked: run_invariant admit_step "follows nd0" for nd0
  by unfold_locales (rule follows_step)

lemma follows_start: "follows nd0 [] (nd0, ids)"
  unfolding follows_def using refines_same [of nd0 nd0]
  by (intro exI [of _ "[]"]) (simp add: parks_def)

text \<open>A run of the node is a run with its approvals.\<close>

lemma runs_admit: "runs node_step nd0 ls nd \<Longrightarrow> \<exists>ids'. runs admit_step (nd0, ids) ls (nd, ids')"
proof (induction rule: runs.induct)
  case (run_start s)
  then show ?case by blast
next
  case (run_step s ls s' l s'')
  then obtain ids' where "runs admit_step (s, ids) ls (s', ids')" by blast
  moreover have "admit_step (s', ids') l (s'', ids' @ approvals s' l)"
    using run_step by (simp add: admit_step_def)
  ultimately show ?case by blast
qed

lemma runs_refine:
  assumes "runs node_step nd0 ls nd"
  obtains ms where "runs mstep (members nd0) ms (members nd)" "parks ms \<le> length ls"
proof -
  obtain ids where "runs admit_step (nd0, []) ls (nd, ids)" using runs_admit assms by blast
  then have "follows nd0 ls (nd, ids)" using tracked.holds_after follows_start by blast
  then show ?thesis using that by (auto simp: follows_def refines_def)
qed

lemma new_node_members:
  "membership_ok (members (node_new k fp name d))" "requests_ok [] (members (node_new k fp name d))"
  by (simp_all add: members_def node_new_def membership_ok_def requests_ok_def parks_def)

section \<open>The claims\<close>


definition sample_waiting_host :: node where
  "sample_waiting_host = sample_host\<lparr>st_peers := [], nd_transfers := transfers_default\<rparr>"

lemma sample_approval:
  "node_step sample_waiting_host (User sample_env (DoApprove (lit ''1'') True))
     (snd (approve sample_env (lit ''1'') True sample_waiting_host))"
  by (rule node_step.user) (simp add: perform_def)


text \<open>
  A host lets in only whom its operator approved.  In every run that starts with nobody
  registered and nobody on the roster, as long as the node only hosts and no member sends
  it a \<open>PeerJoined\<close> of its own, every registered peer has an id of which a request to join
  was approved in that run.
\<close>

theorem host_admits_only_the_approved:
  assumes "runs admit_step (nd0, []) ls (nd, ids)" "list_all hosting_label ls"
    and "st_peers nd0 = []" "st_roster nd0 = []"
    and "hm_get (st_peers nd) k = Some p"
  shows "k \<in> set ids"
proof -
  have "follows nd0 ls (nd, ids)" using tracked.holds_after [OF assms(1) follows_start] .
  then obtain ms where ms: "runs mstep (members nd0) ms (members nd)" "list_all hosting_mlabel ms"
    "set (approved_ids ms) \<subseteq> set ids"
    using assms(2) by (auto simp: follows_def refines_def)
  have "only_approved [] (members nd0)" using assms(3,4) by (simp add: only_approved_def members_def)
  with ms(1) have "only_approved ms (members nd)" by (rule admission.holds_after)
  with ms(2,3) assms(5) show ?thesis by (auto simp: only_approved_def members_def)
qed

theorem host_admits_only_the_approved_witness:
  "lit ''bo'' \<in> set [lit ''bo'']"
proof -
  let ?nd = "snd (approve sample_env (lit ''1'') True sample_waiting_host)"
  let ?l = "User sample_env (DoApprove (lit ''1'') True)"
  have "approvals sample_waiting_host ?l = [lit ''bo'']" by code_simp
  then have "admit_step (sample_waiting_host, []) ?l (?nd, [lit ''bo''])"
    using sample_approval by (simp add: admit_step_def)
  then have "runs admit_step (sample_waiting_host, []) [?l] (?nd, [lit ''bo''])" by (rule runs_one)
  moreover have "st_peers sample_waiting_host = []" "st_roster sample_waiting_host = []"
    "hm_get (st_peers ?nd) (lit ''bo'') = Some \<lparr>p_info = sample_info ''bo'', p_link = 9\<rparr>"
    by code_simp+
  ultimately show ?thesis
    by (intro host_admits_only_the_approved) (auto simp: hosting_label_def)
qed

end
