(* ===== verification/Node_Events.thy ===== *)
theory Node_Events
  imports Node_Refinement
begin

text \<open>
  What a node tells the user interface about its room: opened, joined, somebody asks to
  come in, the answer, closed.  Each handler either says nothing of the kind or exactly
  what it should; so, while a node hosts, every request that waits for the operator has
  been announced by an event and not been taken back.
\<close>

definition room_event :: "event \<Rightarrow> bool" where
  "room_event ev =
     (case ev of
        EvRoomOpened _ _ _ _ \<Rightarrow> True
      | EvJoined _ _ \<Rightarrow> True
      | EvJoinRequest _ _ _ _ \<Rightarrow> True
      | EvJoinResolved _ _ \<Rightarrow> True
      | EvRoomClosed _ \<Rightarrow> True
      | _ \<Rightarrow> False)"

definition said :: "node \<Rightarrow> event list" where
  "said nd = filter room_event (nd_events nd)"

lemma room_event_simps [simp]:
  "room_event (EvRoomOpened a b c u)" "room_event (EvJoined a b)" "room_event (EvJoinRequest a b c d)"
  "room_event (EvJoinResolved a r)" "room_event (EvRoomClosed a)" "\<not> room_event (EvStatus a)"
  "\<not> room_event (EvSystem a)" "\<not> room_event (EvPeer a b s c)" "\<not> room_event (EvChat a b t c r)"
  "\<not> room_event (EvFileOffer a b c u)" "\<not> room_event (EvFileProgress a b c u v r)"
  "\<not> room_event (EvFileFinished a b r q c)" "\<not> room_event (EvError a)"
  by (simp_all add: room_event_def)

lemma said_emit [simp]: "said (emit e nd) = said nd @ (if room_event e then [e] else [])"
  by (simp add: said_def)

section \<open>Handlers that say nothing\<close>

lemma said_prims [simp]:
  "said (record_line_to r nd) = said nd" "said (spawn t nd) = said nd" "said (close_link l nd) = said nd"
  "said (close_listener n nd) = said nd" "said (with_transfers f nd) = said nd"
  "said (channel_send n d nd) = said nd" "said (snd (new_channel nd)) = said nd"
  "said (snd (wire_send env l bs nd)) = said nd" "said (snd (control_send env l c nd)) = said nd"
  "said (snd (peer_send env p c nd)) = said nd" "said (reject env l reason nd) = said nd"
  "said (take_task t nd) = said nd" "said (resume k nd) = said nd"
  by (simp_all add: said_def node_ops reject_eq take_task_def resume_def split: option.splits)

lemma said_updates [simp]:
  "said (nd\<lparr>nd_disk := x1\<rparr>) = said nd" "said (nd\<lparr>nd_wire := x2\<rparr>) = said nd"
  "said (nd\<lparr>nd_running := x3\<rparr>) = said nd" "said (nd\<lparr>nd_req_seq := x4\<rparr>) = said nd"
  "said (nd\<lparr>nd_peer_state := x5\<rparr>) = said nd" "said (nd\<lparr>st_role := x6\<rparr>) = said nd"
  "said (nd\<lparr>st_kind := x7\<rparr>) = said nd" "said (nd\<lparr>st_room := x8\<rparr>) = said nd"
  "said (nd\<lparr>st_me := x9\<rparr>) = said nd" "said (nd\<lparr>st_listener := x10\<rparr>) = said nd"
  "said (nd\<lparr>st_peers := x11\<rparr>) = said nd" "said (nd\<lparr>st_roster := x12\<rparr>) = said nd"
  "said (nd\<lparr>st_pending := x13\<rparr>) = said nd" "said (nd\<lparr>st_history := x14\<rparr>) = said nd"
  "said (nd\<lparr>st_open_until := x15\<rparr>) = said nd" "said (nd\<lparr>st_limiter := x16\<rparr>) = said nd"
  by (simp_all add: said_def)

lemma said_send:
  "wire_send env l bs nd = (r, nd') \<Longrightarrow> said nd' = said nd"
  "control_send env l c nd = (r, nd') \<Longrightarrow> said nd' = said nd"
  "peer_send env p c nd = (r, nd') \<Longrightarrow> said nd' = said nd"
  "new_channel nd = (chan, nd') \<Longrightarrow> said nd' = said nd"
  using said_prims(7-10) by (metis snd_conv)+

lemma said_send_case [simp]:
  "said (case control_send env l c nd of (_, nd') \<Rightarrow> f nd') = said (f (snd (control_send env l c nd)))"
  "said (case peer_send env p c nd of (_, nd') \<Rightarrow> f nd') = said (f (snd (peer_send env p c nd)))"
  by (simp_all add: case_prod_unfold)

text \<open>A loop whose body says nothing says nothing.\<close>

locale silent_loop =
  fixes body :: "'x \<Rightarrow> node \<Rightarrow> node"
  assumes silent_body: "said (body x nd) = said nd"
begin

lemma said_fold [simp]: "said (fold body xs nd) = said nd"
  by (induction xs arbitrary: nd) (simp_all add: silent_body)

end

interpretation silent_announce: silent_loop "announce env info" for env info
  by unfold_locales
    (auto simp: announce_def dest: said_send split: prod.splits sum.splits)

interpretation silent_deliver: silent_loop "deliver_chat env msg" for env msg
  by unfold_locales
    (auto simp: deliver_chat_def dest: said_send split: prod.splits sum.splits)

interpretation silent_tell: silent_loop "tell_left env gone" for env gone
  by unfold_locales (simp add: tell_left_def)

interpretation silent_bye: silent_loop "say_bye env" for env
  by unfold_locales (simp add: say_bye_def)

interpretation silent_close: silent_loop close_link
  by unfold_locales simp

interpretation silent_cancel: silent_loop cancel_out
  by unfold_locales (simp add: cancel_out_def Let_def split: option.splits)

interpretation silent_roster: silent_loop add_to_roster
  by unfold_locales (simp add: add_to_roster_def)

interpretation silent_spawn: silent_loop "\<lambda>x. spawn (h x)" for h
  by unfold_locales simp

interpretation silent_finished: silent_loop
  "\<lambda>(transfer, name). emit (EvFileFinished transfer name r q detail)" for r q detail
  by unfold_locales (simp split: prod.splits)

lemma said_files [simp]:
  "said (finish_out tid h name ok detail nd) = said nd"
  "said (snd (send_file env path file_name meta opened nd)) = said nd"
  "said (snd (send_offer env p path name fsize sha nd)) = said nd"
  "said (snd (send_answered env p tid chan name fsize opened nd)) = said nd"
  "said (send_done env p tid name fsize nd) = said nd"
  "said (snd (send_chunk env p tid name fsize prog nd)) = said nd"
  "said (handle_chunk env p tid seq data nd) = said nd"
  "said (complete_incoming env transfer tid nd) = said nd"
  "said (abort_incoming transfer reason tid nd) = said nd"
  "said (store_offer p transfer name fsize sha tid nd) = said nd"
  "said (push_decision dec tid nd) = said nd"
  "said (cancel_transfers_with gone nd) = said nd"
proof -
  show fin [simp]: "said (finish_out tid h name ok detail nd) = said nd" for tid h name ok detail nd
    by (simp add: finish_out_def)
  show "said (snd (send_file env path file_name meta opened nd)) = said nd"
    by (auto simp: send_file_def Let_def split: sum.splits)
  show "said (snd (send_offer env p path name fsize sha nd)) = said nd"
    by (auto simp: send_offer_def Let_def dest!: said_send split: sum.splits prod.splits)
  show ended [simp]: "said (send_done env p tid name fsize nd) = said nd"
    by (simp add: send_done_def Let_def)
  show "said (snd (send_answered env p tid chan name fsize opened nd)) = said nd"
    by (auto simp: send_answered_def Let_def dest!: said_send
        split: sum.splits prod.splits option.splits decision.splits)
  show "said (snd (send_chunk env p tid name fsize prog nd)) = said nd"
    by (auto simp: send_chunk_def Let_def dest!: said_send split: sum.splits prod.splits)
  show "said (handle_chunk env p tid seq data nd) = said nd"
    by (auto simp: handle_chunk_def Let_def split: option.splits prod.splits chunk_outcome.splits)
  show "said (complete_incoming env transfer tid nd) = said nd"
    by (auto simp: complete_incoming_def Let_def split: option.splits)
  show "said (abort_incoming transfer reason tid nd) = said nd"
    by (auto simp: abort_incoming_def Let_def split: option.splits)
  show "said (store_offer p transfer name fsize sha tid nd) = said nd"
    by (simp add: store_offer_def Let_def)
  show "said (push_decision dec tid nd) = said nd"
    by (auto simp: push_decision_def split: option.splits)
  show "said (cancel_transfers_with gone nd) = said nd"
    by (simp add: cancel_transfers_with_def Let_def)
qed

lemma said_file_control: "handle_file_control env p c nd = Ret nd' \<Longrightarrow> said nd' = said nd"
  by (auto simp: handle_file_control_def split: control.splits elim!: with_transfer_id_cases)

lemma said_respond: "respond_offer env transfer save_to nd = Ret (r, nd') \<Longrightarrow> said nd' = said nd"
  by (auto simp: respond_offer_def Let_def dest!: said_send
      split: run.splits sum.splits option.splits prod.splits)

lemma said_links [simp]:
  "said (attach_peer env info l nd) = said nd" "said (peer_gone env p reason nd) = said nd"
  "said (snd (send_chat env text nd)) = said nd" "said (snd (reopen_joining env ttl nd)) = said nd"
  "said (set_display_name name nd) = said nd"
  "said (snd (export_history fmt json env path ext nd)) = said nd"
  "said (snd (accept_turn listener accepted nd)) = said nd"
  "said (snd (handle_incoming env l label nd)) = said nd"
  "said (snd (dial_peer info nd)) = said nd"
  "said (snd (on_mesh_hello env l version room peer nd)) = said nd"
  "said (close_all ls nd) = said nd" "said (close_taken n nd) = said nd"
  "said (shutdown_internal nd) = said nd"
proof -
  show att [simp]: "said (attach_peer env info l nd) = said nd" for env info l nd
    by (simp add: attach_peer_def Let_def)
  show "said (peer_gone env p reason nd) = said nd" by (simp add: peer_gone_def Let_def)
  show "said (snd (send_chat env text nd)) = said nd" by (simp add: send_chat_def Let_def)
  show "said (snd (reopen_joining env ttl nd)) = said nd" by (simp add: reopen_joining_def)
  show "said (set_display_name name nd) = said nd" by (simp add: set_display_name_def)
  show "said (snd (export_history fmt json env path ext nd)) = said nd"
    by (simp add: export_history_def split: prod.splits)
  show "said (snd (accept_turn listener accepted nd)) = said nd"
    by (auto simp: accept_turn_def split: sum.splits)
  show "said (snd (handle_incoming env l label nd)) = said nd"
    by (auto simp: handle_incoming_def Let_def split: prod.splits)
  show "said (snd (dial_peer info nd)) = said nd" by (auto simp: dial_peer_def split: option.splits)
  show "said (snd (on_mesh_hello env l version room peer nd)) = said nd"
    by (simp add: on_mesh_hello_def)
  show ca [simp]: "said (close_all ls nd) = said nd" for ls nd by (simp add: close_all_def)
  show ct [simp]: "said (close_taken n nd) = said nd" for n nd
    by (simp add: close_taken_def split: option.splits)
  show "said (shutdown_internal nd) = said nd" by (simp add: shutdown_internal_def Let_def)
qed

lemma said_control: "handle_control env p c nd = Ret nd' \<Longrightarrow> said nd' = said nd"
  by (auto simp: handle_control_def Let_def dest: said_file_control split: control.splits)

lemma said_reader: "reader_turn env p received nd = Ret (k, nd') \<Longrightarrow> said nd' = said nd"
  by (auto simp: reader_turn_def dest: said_control
      split: sum.splits frame.splits run.splits)

lemma said_mesh_call [simp]: "said (snd (mesh_call_turn env l peer deadline nd)) = said nd"
  by (auto simp: mesh_call_turn_def accept_mesh_call_def dest!: said_send
      split: option.splits sum.splits prod.splits)

section \<open>Handlers that speak of the room\<close>

lemma said_leave:
  "said (leave env nd) =
     said nd @ (if nd_running nd then [EvRoomClosed (lit ''you left the room'')] else [])"
  by (simp add: leave_def Let_def)

lemma said_host:
  "\<exists>evs. said (snd (host env kind ttl listened nd)) = said nd @ evs \<and>
     (evs = [] \<or> (\<exists>code dial n. evs = [EvRoomOpened code (kind_as_str kind) dial n]))"
  by (auto simp: host_def Let_def split: sum.splits prod.splits)

lemma said_on_hello:
  "said (on_hello env l version room peer source nd) = said nd @
     (if hello_welcome env version room peer nd
      then [EvJoinRequest (show_nat (unat (nd_req_seq nd))) (sanitize_name (pi_name peer))
             (if pi_addr peer = [] then source else pi_addr peer) (e_fingerprint env l)]
      else [])"
proof (cases "hello_welcome env version room peer nd")
  case True
  then show ?thesis by (simp add: on_hello_parked)
next
  case False
  then obtain reason where "on_hello env l version room peer source nd = reject env l reason nd"
    using on_hello_refused by blast
  with False show ?thesis by simp
qed

lemma said_approve:
  "said (snd (approve env req accept nd)) = said nd @
     (if hm_get (st_pending nd) req \<noteq> None \<and> fst (approve env req accept nd) = Inr ()
      then [EvJoinResolved req accept] else [])"
  by (auto simp: approve_def Let_def dest!: said_send split: option.splits sum.splits prod.splits)

section \<open>Every waiting request has been announced\<close>

text \<open>
  The list of requests that the events leave on the screen of the operator, by number and
  name: an answer takes one off, a closed room all of them.
\<close>

fun drop_asked :: "rstr \<Rightarrow> (rstr \<times> rstr) list \<Rightarrow> (rstr \<times> rstr) list" where
  "drop_asked req [] = []"
| "drop_asked req (x # xs) = (if fst x = req then xs else x # drop_asked req xs)"

definition ask :: "event \<Rightarrow> (rstr \<times> rstr) list \<Rightarrow> (rstr \<times> rstr) list" where
  "ask ev xs =
     (case ev of
        EvJoinRequest req name _ _ \<Rightarrow> xs @ [(req, name)]
      | EvJoinResolved req _ \<Rightarrow> drop_asked req xs
      | EvRoomClosed _ \<Rightarrow> []
      | _ \<Rightarrow> xs)"

lemma ask_silent: "\<not> room_event ev \<Longrightarrow> ask ev xs = xs"
  by (cases ev) (simp_all add: ask_def)

lemma asks_said: "fold ask (nd_events nd) xs = fold ask (said nd) xs"
proof -
  have "fold ask evs xs = fold ask (filter room_event evs) xs" for evs xs
    by (induction evs arbitrary: xs) (simp_all add: ask_silent)
  then show ?thesis by (simp add: said_def)
qed

lemma drop_asked_other: "fst x \<noteq> req \<Longrightarrow> x \<in> set (drop_asked req xs) \<longleftrightarrow> x \<in> set xs"
  by (induction xs) auto

definition announced :: "node \<Rightarrow> bool" where
  "announced nd \<longleftrightarrow>
     list_all (\<lambda>(req, pd). (req, pi_name (pd_info pd)) \<in> set (fold ask (said nd) [])) (st_pending nd)"

lemma announced_same:
  "announced nd \<Longrightarrow> said nd' = said nd \<Longrightarrow> st_pending nd' = st_pending nd \<Longrightarrow> announced nd'"
  by (simp add: announced_def)

lemma announced_empty: "st_pending nd = [] \<Longrightarrow> announced nd"
  by (simp add: announced_def)

lemma hm_insert_subset: "set (hm_insert k v m) \<subseteq> insert (k, v) (set m)"
  by (induction m) (auto simp: hm_insert_def)

lemma announced_on_hello:
  assumes "announced nd"
  shows "announced (on_hello env l version room peer source nd)"
proof (cases "hello_welcome env version room peer nd")
  case True
  define pd where "pd = \<lparr>pd_info = peer\<lparr>pi_name := sanitize_name (pi_name peer)\<rparr>, pd_link = l\<rparr>"
  define req where "req = show_nat (unat (nd_req_seq nd))"
  let ?nd' = "on_hello env l version room peer source nd"
  have p: "st_pending ?nd' = hm_insert req pd (st_pending nd)"
    using True by (simp add: on_hello_parked node_ops pd_def req_def)
  have "fold ask (said ?nd') [] = fold ask (said nd) [] @ [(req, pi_name (pd_info pd))]"
    using True by (simp add: said_on_hello ask_def pd_def req_def)
  moreover have "set (st_pending ?nd') \<subseteq> insert (req, pd) (set (st_pending nd))"
    unfolding p by (rule hm_insert_subset)
  ultimately show ?thesis using assms by (fastforce simp: announced_def list_all_iff)
next
  case False
  then obtain reason where "on_hello env l version room peer source nd = reject env l reason nd"
    using on_hello_refused by blast
  then show ?thesis using announced_same [OF assms] by (simp add: reject_eq said_def)
qed

lemma approve_pending:
  "st_pending (snd (approve env req accept nd)) = hm_remove req (st_pending nd)"
  by (auto simp: approve_def Let_def hm_remove_absent reject_eq node_ops
      dest!: control_send_eq split: option.splits sum.splits prod.splits)

lemma announced_approve:
  assumes "announced nd"
  shows "announced (snd (approve env req accept nd))"
proof -
  have "x \<in> set (fold ask (said (snd (approve env req accept nd))) [])"
    if "x \<in> set (fold ask (said nd) [])" "fst x \<noteq> req" for x
    using that by (simp add: said_approve ask_def drop_asked_other)
  with assms show ?thesis
    by (force simp: announced_def approve_pending hm_remove_def list_all_iff)
qed

lemma pending_control:
  assumes "handle_control env p c nd = Ret nd'"
  shows "st_pending nd' = st_pending nd"
proof -
  have quiet: "handle_file_control env p c nd = Ret nd' \<Longrightarrow> st_pending nd' = st_pending nd"
    using members_file_control by (simp add: members_def)
  show ?thesis
  proof (cases c)
    case Bye
    with assms show ?thesis by (auto simp: handle_control_def peer_gone_fields(3))
  qed (use assms quiet in \<open>auto simp: handle_control_def Let_def node_ops\<close>)
qed

lemma announced_reader:
  assumes "reader_turn env p received nd = Ret (k, nd')" "announced nd"
  shows "announced nd'"
proof -
  note control = pending_control
  have chunk: "st_pending (handle_chunk env p tid seq data nd) = st_pending nd" for tid seq data
    using members_files(6) [of env p tid seq data nd] by (simp add: members_def)
  have "st_pending nd' = st_pending nd"
    using assms(1)
    by (auto simp: reader_turn_def peer_gone_fields node_ops chunk dest: control
        split: sum.splits frame.splits run.splits)
  then show ?thesis using announced_same [OF assms(2) said_reader [OF assms(1)]] by simp
qed

lemma members_pending: "members nd' = members nd \<Longrightarrow> st_pending nd' = st_pending nd"
  by (simp add: members_def)

lemma announced_quietly:
  "announced nd \<Longrightarrow> said nd' = said nd \<Longrightarrow> members nd' = members nd \<Longrightarrow> announced nd'"
  by (erule announced_same) (auto dest: members_pending)

lemma greet_cases:
  fixes env l source shaken received nd
  defines "nd' \<equiv> snd (greet_incoming env l source shaken received nd)"
  obtains (hello) version room peer where "nd' = on_hello env l version room peer source nd"
    | (mesh) version room peer where "nd' = snd (on_mesh_hello env l version room peer nd)"
    | (closed) nd1 where "nd' = close_link l nd1" "members nd1 = members nd" "said nd1 = said nd"
proof -
  let ?rest = "close_link l (snd (wire_send env l
    (case encode_control (e_to_json env) (Rejected (lit ''unexpected first message'')) of
       Inl _ \<Rightarrow> [] | Inr bs \<Rightarrow> bs) nd))"
  consider (dead) "\<exists>nd1. nd' = close_link l nd1 \<and> members nd1 = members nd \<and> said nd1 = said nd"
    | (first) first where "shaken = Inr ()" "received = Inr first"
  proof (cases shaken; cases received)
    fix u first assume "shaken = Inr u" "received = Inr first"
    then show thesis using that(2) by simp
  next
    fix u e assume "shaken = Inr u" "received = Inl e"
    then have "nd' = close_link l nd" by (simp add: nd'_def greet_incoming_def)
    then show thesis using that(1) by blast
  qed (use that(1) in \<open>force simp: nd'_def greet_incoming_def\<close>)+
  then show ?thesis
  proof cases
    case dead
    then show ?thesis using closed by blast
  next
    case (first first)
    then have "nd' = ?rest \<or> (\<exists>v r p. nd' = on_hello env l v r p source nd) \<or>
        (\<exists>v r p. nd' = snd (on_mesh_hello env l v r p nd))"
      by (simp add: nd'_def greet_incoming_def Let_def split: sum.split frame.split control.split) blast
    moreover have "members (snd (wire_send env l bs nd)) = members nd"
      "said (snd (wire_send env l bs nd)) = said nd" for bs by simp_all
    ultimately show ?thesis using hello mesh closed by metis
  qed
qed

lemma announced_greet:
  assumes "announced nd"
  shows "announced (snd (greet_incoming env l source shaken received nd))"
proof (cases rule: greet_cases [of env l source shaken received nd])
  case (hello version room peer)
  then show ?thesis using announced_on_hello [OF assms] by simp
next
  case (mesh version room peer)
  then show ?thesis by (simp add: announced_quietly [OF assms])
next
  case (closed nd1)
  then show ?thesis by (simp add: announced_quietly [OF assms])
qed

lemma mesh_call_pending: "st_pending (snd (mesh_call_turn env l peer deadline nd)) = st_pending nd"
  by (auto simp: mesh_call_turn_def accept_mesh_call_def reject_eq node_ops dest!: wire_send_eq
      split: option.splits sum.splits prod.splits)

lemma announced_perform:
  assumes "perform env a nd = Ret nd'" "hosting_label (User env a)" "announced nd"
  shows "announced nd'"
proof (cases a)
  case (DoHost kind ttl listened)
  have "st_pending (snd (host env kind ttl listened nd)) = [] \<or>
      snd (host env kind ttl listened nd) = nd"
    by (auto simp: host_def Let_def node_ops split: sum.splits prod.splits)
  with assms DoHost show ?thesis by (auto simp: perform_def announced_empty)
next
  case (DoApprove req accept)
  with assms announced_approve show ?thesis by (auto simp: perform_def)
next
  case DoLeave
  have "st_pending (leave env nd) = [] \<or> leave env nd = nd"
    using leave_fields(4) by (cases "nd_running nd") (simp_all add: leave_def)
  with assms DoLeave show ?thesis by (auto simp: perform_def announced_empty)
next
  case (DoRespond transfer save_to)
  with assms obtain r where "respond_offer env transfer save_to nd = Ret (r, nd')"
    by (auto simp: perform_def split: run.splits)
  then show ?thesis using announced_quietly [OF assms(3)] said_respond members_respond by blast
next
  case (DoJoin kind code listened)
  with assms(2) show ?thesis by (simp add: hosting_label_def)
qed (use assms in \<open>auto simp: perform_def intro: announced_quietly\<close>)

lemma announced_task:
  assumes "run_task env t i nd = Ret (k, nd')" "hosting_label (Thread env t i)" "announced nd"
  shows "announced nd'"
proof (cases t)
  case (Reader p)
  with assms announced_reader show ?thesis by (auto simp: run_task_def)
next
  case (Greeting l source)
  then have "nd' = snd (greet_incoming env l source (in_shaken i) (in_received i) nd)"
    using assms by (simp add: run_task_def)
  then show ?thesis using announced_greet assms by simp
next
  case (MeshCall l peer deadline)
  then have "nd' = snd (mesh_call_turn env l peer deadline nd)"
    using assms by (simp add: run_task_def)
  then show ?thesis using announced_same [OF assms(3)] mesh_call_pending by simp
next
  case (AcceptLoop listener)
  then have "nd' = snd (accept_turn listener (in_accepted i) nd)" using assms by (simp add: run_task_def)
  then show ?thesis by (simp add: announced_quietly [OF assms(3)])
next
  case (HandleIncoming l label)
  then have "nd' = snd (handle_incoming env l label nd)" using assms by (simp add: run_task_def)
  then show ?thesis by (simp add: announced_quietly [OF assms(3)])
next
  case (SendFileTo p path name fsize sha)
  then have "nd' = snd (send_offer env p path name fsize sha nd)" using assms by (simp add: run_task_def)
  then show ?thesis by (simp add: announced_quietly [OF assms(3)])
next
  case (OutWaiting p tid chan path name fsize)
  then have "nd' = snd (send_answered env p tid chan name fsize (in_opened i) nd)"
    using assms by (simp add: run_task_def)
  then show ?thesis by (simp add: announced_quietly [OF assms(3)])
next
  case (OutSending p tid name fsize prog)
  then have "nd' = snd (send_chunk env p tid name fsize prog nd)" using assms by (simp add: run_task_def)
  then show ?thesis by (simp add: announced_quietly [OF assms(3)])
qed (use assms in \<open>simp_all add: hosting_label_def\<close>)

lemma announced_step:
  assumes "node_step nd l nd'" "hosting_label l" "announced nd"
  shows "announced nd'"
  using assms
proof cases
  case (user env a)
  then show ?thesis using announced_perform assms by blast
next
  case (thread t env i k nd1)
  have "announced (take_task t nd)" by (rule announced_quietly [OF assms(3)]) simp_all
  then have "announced nd1" using announced_task thread assms(2) by blast
  then show ?thesis using thread by (simp add: announced_quietly)
qed

interpretation announcing_node: run_invariant node_step
  "\<lambda>ls nd. list_all hosting_label ls \<longrightarrow> announced nd"
  by unfold_locales (auto intro: announced_step)

section \<open>A run\<close>

text \<open>
  A room is hosted, somebody connects, the handshake is done and a request to join comes
  in: four steps from the start of a node, with surroundings in which every payload parses
  as that request.
\<close>

definition calling_env :: env where
  "calling_env = sample_env\<lparr>e_from_json := \<lambda>_. Inr (Hello PROTOCOL_VERSION
     (lit ''l18000 0gfm0'') (sample_info ''bo''))\<rparr>"

definition calling_input :: task_input where
  "calling_input = \<lparr>in_accepted = Inr (5, lit ''10.0.0.7:41000''), in_connected = Inr 5,
     in_shaken = Inr (), in_received = Inr [KIND_CONTROL], in_opened = Inr []\<rparr>"

definition thread_result :: "task \<Rightarrow> (task option \<times> node) \<Rightarrow> node" where
  "thread_result t r = resume (fst r) (snd r)"

definition opened_node :: node where
  "opened_node = snd (host calling_env Lan (secs 600) (Inr (0, lit ''10.0.0.2:4000'')) sample_node)"

definition accepted_node :: node where
  "accepted_node = thread_result (AcceptLoop 0)
     (accept_turn 0 (in_accepted calling_input) (take_task (AcceptLoop 0) opened_node))"

definition counted_node :: node where
  "counted_node = thread_result (HandleIncoming 5 (lit ''10.0.0.7:41000''))
     (handle_incoming calling_env 5 (lit ''10.0.0.7:41000'')
       (take_task (HandleIncoming 5 (lit ''10.0.0.7:41000'')) accepted_node))"

definition asked_node :: node where
  "asked_node = thread_result (Greeting 5 (lit ''10.0.0.7''))
     (greet_incoming calling_env 5 (lit ''10.0.0.7'') (Inr ()) (Inr [KIND_CONTROL])
       (take_task (Greeting 5 (lit ''10.0.0.7'')) counted_node))"

definition hosting_run :: "label list" where
  "hosting_run =
     [User calling_env (DoHost Lan (secs 600) (Inr (0, lit ''10.0.0.2:4000''))),
      Thread calling_env (AcceptLoop 0) calling_input,
      Thread calling_env (HandleIncoming 5 (lit ''10.0.0.7:41000'')) calling_input,
      Thread calling_env (Greeting 5 (lit ''10.0.0.7'')) calling_input]"

lemma step_thread:
  "t \<in> set (nd_spawned nd) \<Longrightarrow> run_task env t i (take_task t nd) = Ret r \<Longrightarrow>
   node_step nd (Thread env t i) (thread_result t r)"
  by (cases r) (auto simp: thread_result_def intro: node_step.thread)

lemma hosting_run_runs: "runs node_step sample_node hosting_run asked_node"
proof -
  have "node_step sample_node (hosting_run ! 0) opened_node"
    unfolding hosting_run_def opened_node_def nth_Cons_0
    by (rule node_step.user) (simp add: perform_def)
  moreover have "node_step opened_node (hosting_run ! 1) accepted_node"
    unfolding hosting_run_def accepted_node_def nth_Cons_0 One_nat_def nth_Cons_Suc
    by (rule step_thread) (code_simp, simp add: run_task_def)
  moreover have "node_step accepted_node (hosting_run ! 2) counted_node"
    unfolding hosting_run_def counted_node_def numeral_2_eq_2 nth_Cons_0 nth_Cons_Suc
    by (rule step_thread) (code_simp, simp add: run_task_def)
  moreover have "node_step counted_node (hosting_run ! 3) asked_node"
    unfolding hosting_run_def asked_node_def numeral_3_eq_3 nth_Cons_0 nth_Cons_Suc
    by (rule step_thread) (code_simp, simp add: run_task_def calling_input_def)
  ultimately have "runs node_step sample_node
      ((([] @ [hosting_run ! 0]) @ [hosting_run ! 1]) @ [hosting_run ! 2] @ [hosting_run ! 3]) asked_node"
    by (simp only: append_assoc [symmetric])
      (intro runs.run_step [where step = node_step], rule runs.run_start, assumption+)
  then show ?thesis by (simp add: hosting_run_def numeral_2_eq_2 numeral_3_eq_3)
qed

lemma asked_node_facts:
  "list_all hosting_label hosting_run"
  "map (\<lambda>(req, pd). (req, pi_name (pd_info pd))) (st_pending asked_node) = [(lit ''1'', lit ''bo'')]"
  "length (nd_events asked_node) = 2"
  by (simp add: hosting_run_def hosting_label_def) code_simp+

definition joined_node :: node where
  "joined_node = snd (approve calling_env (lit ''1'') True asked_node)"

lemma joined_node_runs:
  "runs node_step sample_node (hosting_run @ [User calling_env (DoApprove (lit ''1'') True)]) joined_node"
  by (rule runs.run_step [OF hosting_run_runs], rule node_step.user) (simp add: perform_def joined_node_def)

section \<open>Runs from the start of a node\<close>

text \<open>
  C17. In every run of a node from its start, in any interleaving of calls and threads, the
  registry is well-formed: an id is registered at most once, always with the peer of that
  id, and a node that is not running has nobody registered.
\<close>

theorem registry_stays_well_formed:
  assumes "runs node_step (node_new k fp name d) ls nd"
  shows "distinct (hm_keys (st_peers nd)) \<and> list_all (\<lambda>(k, p). pi_id (p_info p) = k) (st_peers nd) \<and>
    (nd_running nd \<or> connected_peers nd = [])"
proof -
  obtain ms where "runs mstep (members (node_new k fp name d)) ms (members nd)"
    by (rule runs_refine [OF assms])
  then have "membership_ok (members nd)"
    using registry.holds_after new_node_members(1) by blast
  then show ?thesis
    by (auto simp: membership_ok_def members_def hm_ok_def hm_keys_def list_all_iff hm_get_def
        connected_peers_def hm_values_def)
qed

theorem registry_stays_well_formed_witness:
  "distinct (hm_keys (st_peers joined_node)) \<and>
    list_all (\<lambda>(k, p). pi_id (p_info p) = k) (st_peers joined_node) \<and>
    hm_keys (st_peers joined_node) = [lit ''bo'']"
proof -
  have "hm_keys (st_peers joined_node) = [lit ''bo'']" by code_simp
  with registry_stays_well_formed [OF joined_node_runs [unfolded sample_node_def]] show ?thesis by blast
qed

text \<open>
  C18. A request is never lost to another: in every run of fewer than \<open>2 ^ 64 - 1\<close> steps from
  the start of a node, the number the next request will get is not one that waits.
\<close>

theorem request_numbers_are_never_reused:
  assumes "runs node_step (node_new k fp name d) ls nd" "Suc (length ls) < 2 ^ 64"
  shows "hm_get (st_pending nd) (show_nat (unat (nd_req_seq nd))) = None"
proof -
  obtain ms where ms: "runs mstep (members (node_new k fp name d)) ms (members nd)"
    "parks ms \<le> length ls" by (rule runs_refine [OF assms(1)])
  have "requests_ok ms (members nd)" using requests.holds_after [OF ms(1)] new_node_members(2) .
  then show ?thesis
    using request_number_is_new [of ms "members nd"] ms(2) assms(2) by (simp add: members_def)
qed

theorem request_numbers_are_never_reused_witness:
  "hm_keys (st_pending asked_node) = [lit ''1''] \<and>
   hm_get (st_pending asked_node) (show_nat (unat (nd_req_seq asked_node))) = None"
proof
  show "hm_keys (st_pending asked_node) = [lit ''1'']" by code_simp
  show "hm_get (st_pending asked_node) (show_nat (unat (nd_req_seq asked_node))) = None"
    by (rule request_numbers_are_never_reused [OF hosting_run_runs [unfolded sample_node_def]])
      (simp add: hosting_run_def)
qed

end
