(* ===== verification/Ui_Requests.thy ===== *)
theory Ui_Requests
  imports Ui_Runs Node_Events
begin

text \<open>
  The front end and the node together: every event is shown in time, every request that
  waits on the node has its row, and what becomes of a joiner that the host declines.
\<close>

section \<open>Events are shown\<close>

text \<open>
  C29. No event is lost, whatever the burst: 256 events are handled per tick, so after
  enough ticks everything the node has emitted has been handled, and the transcript view
  shows the last 2000 of all the lines there were, in the order of the events.
\<close>

theorem no_event_is_lost:
  assumes "ap_ui_rx d = []" "length (ap_messages d) \<le> 2000"
    and "length (unread d) \<le> 256 * length envs"
  shows "unread (fold (pump clock) envs d) = [] \<and>
    map row_text (ap_messages (fold (pump clock) envs d)) =
      keep_last 2000 (map row_text (ap_messages d) @ concat (map event_lines (unread d)))"
  using transcript.ticks_view [of d envs clock] ticks_unread [of d envs clock]
    fold_add_lines [of "map row_text (ap_messages d)" "unread d"] assms
  by (simp add: MAX_VISIBLE_MESSAGES_def MAX_EVENTS_PER_TICK_def)

definition sample_desk :: "node \<Rightarrow> desk" where
  "sample_desk nd = (desk_start sample_disk)\<lparr>ds_nodes := [nd], ap_node := Some 0, ap_rx := Some (0, 0)\<rparr>"

theorem no_event_is_lost_witness:
  "map row_text (ap_messages (fold (pump (\<lambda>_. [])) [sample_env]
      (sample_desk (emit (EvSystem (lit ''hi'')) (emit (EvStatus (lit ''x'')) sample_node))))) =
     [([], lit ''hi'', False, True)]"
proof -
  let ?d = "sample_desk (emit (EvSystem (lit ''hi'')) (emit (EvStatus (lit ''x'')) sample_node))"
  have u: "unread ?d = [EvStatus (lit ''x''), EvSystem (lit ''hi'')]"
    "ap_ui_rx ?d = []" "ap_messages ?d = []"
    by (simp_all add: unread_def sample_desk_def sample_node_def node_new_def desk_start_def)
  then have "map row_text (ap_messages (fold (pump (\<lambda>_. [])) [sample_env] ?d)) =
      keep_last 2000 ([] @ concat (map event_lines (unread ?d)))"
    using no_event_is_lost [of ?d "[sample_env]" "\<lambda>_. []"] by (simp only: u) simp
  then show ?thesis by (simp add: u(1) event_lines_def keep_last_def)
qed

section \<open>Requests are shown\<close>

definition request_key :: "request_row \<Rightarrow> rstr \<times> rstr" where
  "request_key r = (rr_req r, rr_name r)"

lemma drop_request_asked:
  "map request_key (drop_request req rs) = drop_asked req (map request_key rs)"
  by (induction rs) (simp_all add: request_key_def)

interpretation requests: event_view "\<lambda>d. map request_key (ap_requests d)" ask "\<lambda>_. True"
proof
  fix clock env ev d b d'
  assume "handle_event clock env ev d = (b, d')"
  then show "map request_key (ap_requests d') = ask ev (map request_key (ap_requests d))"
    by (cases ev)
      (auto simp: handle_event_def ui_events ui_ops ask_def drop_request_asked request_key_def
        show_fingerprint_def show_next_offer_def split: if_splits option.splits list.splits)
qed (simp_all add: update_expiry_def Let_def)

text \<open>
  C30. The operator sees every request that waits: when a node has done nothing but host,
  in any interleaving of its threads, and the window, which had no row yet, has had the
  ticks to read its events, then each parked request has a row of its number that shows
  the name under which it would be let in.
\<close>

theorem every_waiting_request_is_shown:
  assumes "runs node_step (node_new pid fp name dk) ls nd" "list_all hosting_label ls"
    and "ds_nodes d ! n = nd" "ap_rx d = Some (n, 0)" "ap_requests d = []" "ap_ui_rx d = []"
    and "length (nd_events nd) \<le> 256 * length envs"
  shows "list_all (\<lambda>(req, pd). \<exists>row \<in> set (ap_requests (fold (pump clock) envs d)).
    rr_req row = req \<and> rr_name row = pi_name (pd_info pd)) (st_pending nd)"
proof -
  have "announced nd"
    using announcing_node.holds_after [OF assms(1)] assms(2)
    by (simp add: announced_empty node_new_def)
  moreover have u: "unread d = nd_events nd" using assms(3,4) by (simp add: unread_def)
  then have "map request_key (ap_requests (fold (pump clock) envs d)) = fold ask (said nd) []"
    using requests.ticks_view [of d envs clock] assms by (simp add: asks_said MAX_EVENTS_PER_TICK_def)
  then have "(req, m) \<in> set (fold ask (said nd) []) \<longleftrightarrow>
      (\<exists>row \<in> set (ap_requests (fold (pump clock) envs d)). rr_req row = req \<and> rr_name row = m)" for req m
    unfolding \<open>map request_key _ = _\<close> [symmetric] set_map image_iff
    by (auto simp: request_key_def)
  ultimately show ?thesis by (auto simp: announced_def list_all_iff)
qed

theorem every_waiting_request_is_shown_witness:
  "\<exists>row \<in> set (ap_requests (fold (pump (\<lambda>_. [])) [calling_env] (sample_desk asked_node))).
     rr_req row = lit ''1'' \<and> rr_name row = lit ''bo''"
proof -
  have "runs node_step (node_new (lit ''me'') (lit ''AB'') (lit ''Ann'') sample_disk) hosting_run asked_node"
    using hosting_run_runs by (simp add: sample_node_def)
  from every_waiting_request_is_shown [OF this asked_node_facts(1), of "sample_desk asked_node" 0
      "[calling_env]" "\<lambda>_. []"]
  have "list_all (\<lambda>(req, name). \<exists>row \<in> set (ap_requests (fold (pump (\<lambda>_. [])) [calling_env]
      (sample_desk asked_node))). rr_req row = req \<and> rr_name row = name)
      (map (\<lambda>(req, pd). (req, pi_name (pd_info pd))) (st_pending asked_node))"
    using asked_node_facts(3)
    by (simp add: sample_desk_def desk_start_def list.pred_map comp_def case_prod_unfold)
  then show ?thesis unfolding asked_node_facts(2) by simp
qed

section \<open>A declined joiner\<close>

text \<open>
  The window waits for a room that will not open: the setup screen with \<open>busy\<close> set, no
  report of a failed start under way, and no event left to come that opens a room.
\<close>

definition opens_room :: "event \<Rightarrow> bool" where
  "opens_room ev = (case ev of EvRoomOpened _ _ _ _ \<Rightarrow> True | EvJoined _ _ \<Rightarrow> True | _ \<Rightarrow> False)"

definition fails_start :: "ui_msg \<Rightarrow> bool" where
  "fails_start m = (case m of StartFailed _ \<Rightarrow> True | Note _ \<Rightarrow> False)"

definition waits_in_vain :: "desk \<Rightarrow> bool" where
  "waits_in_vain d \<longleftrightarrow>
     w_screen d = lit ''setup'' \<and> w_busy d \<and> list_all (\<lambda>m. \<not> fails_start m) (ap_ui_rx d) \<and>
     list_all (\<lambda>ev. \<not> opens_room ev) (unread d)"

text \<open>What the user can do: click, type, answer a dialog, and wait for ticks.\<close>

definition by_user :: "ui_env \<times> desk_label \<Rightarrow> bool" where
  "by_user l = (case snd l of Click _ \<Rightarrow> True | Tick \<Rightarrow> True | Answer _ _ \<Rightarrow> True | _ \<Rightarrow> False)"

lemma handle_event_waits:
  assumes "handle_event clock env ev d = (b, d')" "\<not> opens_room ev"
  shows "w_screen d' = w_screen d" "w_busy d' = w_busy d"
  using assms
  by (cases ev; auto simp: handle_event_def ui_events ui_ops opens_room_def split: if_splits)+

lemma pump_events_waits:
  "pump_events clock env m d = (b, d') \<Longrightarrow> waits_in_vain d \<Longrightarrow> waits_in_vain d'"
proof (induction m arbitrary: d b)
  case (Suc m)
  show ?case
  proof (cases "unread d")
    case (Cons ev evs)
    define d1 where "d1 = d\<lparr>ap_rx := map_option (\<lambda>(n, k). (n, Suc k)) (ap_rx d)\<rparr>"
    obtain b2 d2 where h: "handle_event clock env ev d1 = (b2, d2)" by fastforce
    note h' = handle_event_frame [OF h]
    obtain b3 where p: "pump_events clock env m d2 = (b3, d')"
      using Suc.prems(1) Cons h by (auto simp: next_event_unread d1_def [symmetric] split: prod.splits)
    have "unread d2 = evs"
      using unread_advance [of d] Cons h' by (simp add: unread_cong [of d2 d1] d1_def)
    moreover have "\<not> opens_room ev" using Suc.prems(2) Cons by (simp add: waits_in_vain_def)
    ultimately have "waits_in_vain d2"
      using Suc.prems(2) Cons h' handle_event_waits [OF h] by (simp add: waits_in_vain_def d1_def)
    then show ?thesis by (rule Suc.IH [OF p])
  qed (use Suc.prems in \<open>simp add: next_event_unread\<close>)
qed simp

lemma handle_notes_wait:
  "list_all (\<lambda>m. \<not> fails_start m) msgs \<Longrightarrow>
   \<exists>s. fold (handle_note env) msgs d = d\<lparr>w_status_line := s\<rparr>"
proof (induction msgs arbitrary: d)
  case Nil
  show ?case by (rule exI [of _ "w_status_line d"]) simp
next
  case (Cons m msgs)
  then obtain t where "m = Note t" by (cases m) (simp_all add: fails_start_def)
  moreover obtain s where "fold (handle_note env) msgs (d\<lparr>w_status_line := t\<rparr>) =
      d\<lparr>w_status_line := t, w_status_line := s\<rparr>"
    using Cons.IH Cons.prems by fastforce
  moreover have "handle_note env (Note t) d = d\<lparr>w_status_line := t\<rparr>" by (simp add: handle_note_def)
  ultimately show ?case by auto
qed

lemma pump_waits:
  assumes "waits_in_vain d"
  shows "waits_in_vain (pump clock env d)"
proof -
  obtain s where "pump_notes env d = d\<lparr>ap_ui_rx := [], w_status_line := s\<rparr>"
    using handle_notes_wait [of "ap_ui_rx d" env "d\<lparr>ap_ui_rx := []\<rparr>"] assms
    by (auto simp: pump_notes_def waits_in_vain_def)
  then have "waits_in_vain (pump_notes env d)"
    using assms unread_cong [of "pump_notes env d" d] by (simp add: waits_in_vain_def)
  obtain b d1 where p: "pump_events clock env MAX_EVENTS_PER_TICK (pump_notes env d) = (b, d1)" by fastforce
  have "waits_in_vain d1" by (rule pump_events_waits) fact+
  then show ?thesis
    using unread_cong [of "pump clock env d" d1]
    by (simp add: pump_def p update_expiry_def Let_def waits_in_vain_def)
qed

text \<open>A call that only adds events, none of them about the room, leaves it waiting.\<close>

lemma waits_node:
  assumes "waits_in_vain d" "said nd' = said (ds_nodes d ! n)"
    and "nd_events nd' = nd_events (ds_nodes d ! n) @ evs"
  shows "waits_in_vain (d\<lparr>ds_nodes := (ds_nodes d)[n := nd'], ds_disk := dk\<rparr>)"
proof -
  have "filter room_event evs = []" using assms(2,3) by (simp add: said_def)
  then have quiet: "list_all (\<lambda>ev. \<not> opens_room ev) (drop k evs)" for k
    by (auto simp: filter_empty_conv list_all_iff opens_room_def dest!: in_set_dropD split: event.splits)
  show ?thesis
  proof (cases "ap_rx d")
    case None
    then show ?thesis using assms(1) by (simp add: waits_in_vain_def unread_def)
  next
    case (Some mk)
    obtain m k where mk: "mk = (m, k)" by fastforce
    show ?thesis
    proof (cases "n = m \<and> m < length (ds_nodes d)")
      case True
      then show ?thesis using assms(1,3) quiet Some mk by (simp add: waits_in_vain_def unread_def)
    next
      case False
      then have "(ds_nodes d)[n := nd'] ! m = ds_nodes d ! m"
        by (cases "n = m") (simp_all add: list_update_beyond)
      then show ?thesis using assms(1) Some mk by (simp add: waits_in_vain_def unread_def)
    qed
  qed
qed

lemma events_grow:
  "\<exists>evs. nd_events (snd (send_file env path file_name meta opened nd)) = nd_events nd @ evs"
  "\<exists>evs. nd_events (snd (export_history fmt json env path ext nd)) = nd_events nd @ evs"
  "respond_offer env transfer save_to nd = Ret (r, nd') \<Longrightarrow> \<exists>evs. nd_events nd' = nd_events nd @ evs"
proof -
  have spawned: "nd_events (fold (\<lambda>p. spawn (h p)) ps nd) = nd_events nd" for ps h and nd :: node
    by (induction ps arbitrary: nd) (simp_all add: node_ops)
  show "\<exists>evs. nd_events (snd (send_file env path file_name meta opened nd)) = nd_events nd @ evs"
    by (auto simp: send_file_def Let_def spawned split: sum.splits)
  show "\<exists>evs. nd_events (snd (export_history fmt json env path ext nd)) = nd_events nd @ evs"
    by (simp add: export_history_def split: prod.splits)
  show "respond_offer env transfer save_to nd = Ret (r, nd') \<Longrightarrow> \<exists>evs. nd_events nd' = nd_events nd @ evs"
    by (auto simp: respond_offer_def Let_def peer_send_def node_ops dest!: control_send_eq
        split: run.splits sum.splits option.splits prod.splits)
qed

lemma waits_frame [simp]:
  "waits_in_vain (d\<lparr>w_error_line := x1\<rparr>) = waits_in_vain d"
  "waits_in_vain (d\<lparr>w_status_line := x2\<rparr>) = waits_in_vain d"
  "waits_in_vain (d\<lparr>ds_jobs := x3\<rparr>) = waits_in_vain d"
  "waits_in_vain (d\<lparr>ds_dialogs := x4\<rparr>) = waits_in_vain d"
  "waits_in_vain (d\<lparr>ap_offers := x5\<rparr>) = waits_in_vain d"
  "waits_in_vain (d\<lparr>ap_requests := x6\<rparr>) = waits_in_vain d"
  "waits_in_vain (d\<lparr>w_display_name := x7\<rparr>) = waits_in_vain d"
  "waits_in_vain (d\<lparr>w_join_code := x8\<rparr>) = waits_in_vain d"
  "waits_in_vain (d\<lparr>w_mode := x9\<rparr>) = waits_in_vain d"
  "waits_in_vain (show_next_offer d) = waits_in_vain d"
  by (simp_all add: waits_in_vain_def unread_def show_next_offer_def split: option.splits list.splits)

lemma waits_on_node:
  assumes "waits_in_vain d" "on_node n f d = (r, d')"
    and "\<And>nd. said (snd (f nd)) = said nd" "\<And>nd. \<exists>evs. nd_events (snd (f nd)) = nd_events nd @ evs"
  shows "waits_in_vain d'"
proof -
  let ?nd = "(ds_nodes d ! n)\<lparr>nd_disk := ds_disk d\<rparr>"
  obtain evs where "nd_events (snd (f ?nd)) = nd_events ?nd @ evs" using assms(4) by blast
  moreover have "said (snd (f ?nd)) = said (ds_nodes d ! n)" using assms(3) [of ?nd] by simp
  ultimately have "waits_in_vain (d\<lparr>ds_nodes := (ds_nodes d)[n := snd (f ?nd)],
      ds_disk := nd_disk (snd (f ?nd))\<rparr>)"
    using waits_node [OF assms(1)] by simp
  with assms(2) show ?thesis by (auto simp: on_node_def split: prod.splits)
qed

lemma waits_finish_offer:
  assumes "waits_in_vain d" "finish_offer env n transfer save_to d = Ret d'"
  shows "waits_in_vain d'"
proof -
  let ?d1 = "show_next_offer (d\<lparr>ap_offers := filter (\<lambda>(i, _). i \<noteq> transfer) (ap_offers d)\<rparr>)"
  let ?nd = "(ds_nodes ?d1 ! n)\<lparr>nd_disk := ds_disk ?d1\<rparr>"
  obtain r nd where r: "respond_offer env transfer save_to ?nd = Ret (r, nd)"
    using assms(2) by (auto simp: finish_offer_def Let_def split: run.splits)
  obtain evs where "nd_events nd = nd_events ?nd @ evs" using events_grow(3) [OF r] by blast
  moreover have "said nd = said (ds_nodes ?d1 ! n)" using said_respond [OF r] by simp
  moreover have "waits_in_vain ?d1" using assms(1) by simp
  ultimately have "waits_in_vain (?d1\<lparr>ds_nodes := (ds_nodes ?d1)[n := nd], ds_disk := nd_disk nd\<rparr>)"
    using waits_node [of ?d1] by simp
  with assms(2) r show ?thesis
    by (auto simp: finish_offer_def Let_def simp del: show_next_offer_fields split: sum.splits)
qed

lemma setup_is_not_room: "lit ''setup'' \<noteq> lit ''room''"
  by code_simp

lemma waits_click:
  assumes "waits_in_vain d" "active d c" "on_click env c d = Ret d'"
  shows "waits_in_vain d'"
proof -
  have s: "w_screen d = lit ''setup''" "w_busy d" using assms(1) by (simp_all add: waits_in_vain_def)
  show ?thesis
  proof (cases c)
    case (ClickOffer accept)
    with assms waits_finish_offer show ?thesis
      by (auto simp: on_click_def click_offer_def open_dialog_def split: option.splits if_splits)
  qed (use assms s setup_is_not_room in \<open>auto simp: active_def on_click_def click_approve_def
         click_export_def start_job_def open_dialog_def remove_request_def Let_def
         split: option.splits\<close>)
qed

lemma waits_answer:
  assumes "waits_in_vain d" "on_answer u g a d = Ret d'"
  shows "waits_in_vain d'"
proof (cases g)
  case (PickFile n)
  show ?thesis
  proof (cases "an_picked a")
    case (Some path)
    obtain r d1 where o: "on_node n (send_file (ue_env u) path (an_name a) (an_meta a) (an_opened a)) d = (r, d1)"
      by fastforce
    have "waits_in_vain d1" by (rule waits_on_node [OF assms(1) o]) (simp_all add: events_grow)
    with assms(2) PickFile Some o show ?thesis
      by (auto simp: on_answer_def file_picked_def error_or_clear_def)
  qed (use assms PickFile in \<open>auto simp: on_answer_def file_picked_def\<close>)
next
  case (SaveOffer n transfer)
  with assms waits_finish_offer show ?thesis
    by (auto simp: on_answer_def offer_saved_def split: option.splits)
next
  case (SaveTranscript n)
  show ?thesis
  proof (cases "an_picked a")
    case (Some path)
    obtain r d1 where o: "on_node n (export_history (ue_fmt u) (ue_json u) (ue_env u) path (an_name a)) d = (r, d1)"
      by fastforce
    have "waits_in_vain d1" by (rule waits_on_node [OF assms(1) o]) (simp_all add: events_grow)
    with assms(2) SaveTranscript Some o show ?thesis
      by (auto simp: on_answer_def transcript_saved_def split: sum.splits)
  qed (use assms SaveTranscript in \<open>auto simp: on_answer_def transcript_saved_def\<close>)
qed

interpretation vain: run_invariant desk_step
  "\<lambda>ls d. list_all by_user ls \<longrightarrow> waits_in_vain d"
proof
  fix d l d' ls
  assume step: "desk_step d l d'" and inv: "list_all by_user ls \<longrightarrow> waits_in_vain d"
  show "list_all by_user (ls @ [l]) \<longrightarrow> waits_in_vain d'"
  proof
    assume user: "list_all by_user (ls @ [l])"
    then have w: "waits_in_vain d" using inv by simp
    from step show "waits_in_vain d'"
    proof cases
      case (click c u)
      then show ?thesis using waits_click [OF w] by blast
    next
      case (tick u)
      then show ?thesis using pump_waits [OF w] by simp
    next
      case (answer g u a)
      moreover have "waits_in_vain (d\<lparr>ds_dialogs := remove1 g (ds_dialogs d)\<rparr>)" using w by simp
      ultimately show ?thesis using waits_answer by blast
    qed (use user in \<open>simp_all add: by_user_def\<close>)
  qed
qed



end
