(* ===== verification/Network_Voice.thy ===== *)
theory Network_Voice
  imports Node_Events
begin

text \<open>
  What a node says to other nodes about itself and about others: the messages that carry an
  identity or a line of chat, the calls it holds, and the chat lines it shows.  Every handler
  but the few that are meant to leaves all of it alone.
\<close>

section \<open>The voice of a node\<close>

definition heavy :: "control \<Rightarrow> bool" where
  "heavy c =
     (case c of
        Hello _ _ _ \<Rightarrow> True
      | MeshHello _ _ _ \<Rightarrow> True
      | Welcome _ _ _ \<Rightarrow> True
      | MeshAck _ \<Rightarrow> True
      | PeerJoined _ \<Rightarrow> True
      | Chat _ _ _ _ _ \<Rightarrow> True
      | _ \<Rightarrow> False)"

definition weighty :: "from_json \<Rightarrow> bytes \<Rightarrow> bool" where
  "weighty fj bs = (case decode_frame fj bs of Inr (Control c) \<Rightarrow> heavy c | _ \<Rightarrow> False)"

definition is_call :: "task \<Rightarrow> bool" where
  "is_call t = (case t of MeshCall _ _ _ \<Rightarrow> True | Joining _ _ \<Rightarrow> True | _ \<Rightarrow> False)"

definition is_chat :: "event \<Rightarrow> bool" where
  "is_chat ev = (case ev of EvChat _ _ _ _ _ \<Rightarrow> True | _ \<Rightarrow> False)"

record voice =
  vc_id :: peer_id
  vc_name :: rstr
  vc_said :: "(link_id \<times> bytes) list"
  vc_calls :: "task list"
  vc_chats :: "event list"

definition voice_of :: "from_json \<Rightarrow> node \<Rightarrow> voice" where
  "voice_of fj nd =
     \<lparr>vc_id = pi_id (st_me nd), vc_name = pi_name (st_me nd),
      vc_said = filter (\<lambda>(_, bs). weighty fj bs) (nd_wire nd),
      vc_calls = filter is_call (nd_spawned nd), vc_chats = filter is_chat (nd_events nd)\<rparr>"

lemma heavy_simps [simp]:
  "heavy (Hello v r p1)" "heavy (MeshHello v r p2)" "heavy (Welcome r p3 ps)" "heavy (MeshAck p4)"
  "heavy (PeerJoined p5)" "heavy (Chat i k n t b)" "\<not> heavy (Rejected r)" "\<not> heavy (PeerLeft k n)"
  "\<not> heavy (FileOffer i n z h)" "\<not> heavy (FileAccept i)" "\<not> heavy (FileDecline i r)"
  "\<not> heavy (FileDone i)" "\<not> heavy (FileAbort i r)" "\<not> heavy Bye"
  by (simp_all add: heavy_def)

lemma is_call_simps [simp]:
  "is_call (MeshCall l p d)" "is_call (Joining p2 r)" "\<not> is_call (AcceptLoop n)" "\<not> is_call (HandleIncoming l s)"
  "\<not> is_call (Greeting l s)" "\<not> is_call (Reader q)" "\<not> is_call (DialPeer i)"
  "\<not> is_call (Dialling i k a s)" "\<not> is_call (Called i k a l)" "\<not> is_call (AwaitWelcome l)"
  "\<not> is_call (SendFileTo q s s2 u h)" "\<not> is_call (OutWaiting q b n s s2 u)"
  "\<not> is_call (OutSending q b s u g)"
  by (simp_all add: is_call_def)

lemma is_chat_simps [simp]:
  "is_chat (EvChat a b t c r)" "\<not> is_chat (EvRoomOpened a b c u)" "\<not> is_chat (EvJoined a b)"
  "\<not> is_chat (EvJoinRequest a b c d)" "\<not> is_chat (EvJoinResolved a r)" "\<not> is_chat (EvRoomClosed a)"
  "\<not> is_chat (EvStatus a)" "\<not> is_chat (EvSystem a)" "\<not> is_chat (EvPeer a b s c)"
  "\<not> is_chat (EvFileOffer a b c u)" "\<not> is_chat (EvFileProgress a b c u v r)"
  "\<not> is_chat (EvFileFinished a b r q c)" "\<not> is_chat (EvError a)"
  by (simp_all add: is_chat_def)

section \<open>Primitives\<close>

lemma voice_prims [simp]:
  "voice_of fj (record_line_to r nd) = voice_of fj nd" "voice_of fj (close_link l nd) = voice_of fj nd"
  "voice_of fj (close_listener n nd) = voice_of fj nd" "voice_of fj (with_transfers f nd) = voice_of fj nd"
  "voice_of fj (channel_send n d nd) = voice_of fj nd" "voice_of fj (snd (new_channel nd)) = voice_of fj nd"
  "\<not> is_chat e \<Longrightarrow> voice_of fj (emit e nd) = voice_of fj nd"
  "\<not> is_call t \<Longrightarrow> voice_of fj (spawn t nd) = voice_of fj nd"
  by (simp_all add: voice_of_def node_ops)

lemma voice_updates [simp]:
  "voice_of fj (nd\<lparr>nd_disk := x1\<rparr>) = voice_of fj nd" "voice_of fj (nd\<lparr>nd_running := x3\<rparr>) = voice_of fj nd"
  "voice_of fj (nd\<lparr>nd_req_seq := x4\<rparr>) = voice_of fj nd" "voice_of fj (nd\<lparr>nd_peer_state := x5\<rparr>) = voice_of fj nd"
  "voice_of fj (nd\<lparr>st_role := x6\<rparr>) = voice_of fj nd" "voice_of fj (nd\<lparr>st_kind := x7\<rparr>) = voice_of fj nd"
  "voice_of fj (nd\<lparr>st_room := x8\<rparr>) = voice_of fj nd" "voice_of fj (nd\<lparr>st_listener := x10\<rparr>) = voice_of fj nd"
  "voice_of fj (nd\<lparr>st_peers := x11\<rparr>) = voice_of fj nd" "voice_of fj (nd\<lparr>st_roster := x12\<rparr>) = voice_of fj nd"
  "voice_of fj (nd\<lparr>st_pending := x13\<rparr>) = voice_of fj nd" "voice_of fj (nd\<lparr>st_history := x14\<rparr>) = voice_of fj nd"
  "voice_of fj (nd\<lparr>st_open_until := x15\<rparr>) = voice_of fj nd" "voice_of fj (nd\<lparr>st_limiter := x16\<rparr>) = voice_of fj nd"
  "voice_of fj (nd\<lparr>st_me := (st_me nd)\<lparr>pi_addr := a\<rparr>\<rparr>) = voice_of fj nd"
  by (simp_all add: voice_of_def)

lemma voice_fold: "(\<And>x nd. voice_of fj (body x nd) = voice_of fj nd) \<Longrightarrow>
    voice_of fj (fold body xs nd) = voice_of fj nd"
  by (induction xs arbitrary: nd) simp_all

lemma voice_new_channel: "new_channel nd = (chan, nd') \<Longrightarrow> voice_of fj nd' = voice_of fj nd"
  by (metis voice_prims(6) snd_conv)

lemma not_weighty [simp]: "\<not> weighty fj []" "\<not> weighty fj (encode_chunk tid seq data)"
  by (simp_all add: weighty_def decode_frame_def encode_chunk_def KIND_CONTROL_def KIND_CHUNK_def
      split: sum.splits)

text \<open>The only chat line a sender shows is its own.\<close>

lemma deliver_chat_events:
  "ev \<in> set (nd_events (fold (deliver_chat env msg) ps nd)) \<Longrightarrow>
     ev \<in> set (nd_events nd) \<or> \<not> is_chat ev"
proof (induction ps arbitrary: nd)
  case (Cons p ps)
  have "ev \<in> set (nd_events (deliver_chat env msg p nd)) \<Longrightarrow> ev \<in> set (nd_events nd) \<or> \<not> is_chat ev"
    by (auto simp: deliver_chat_def peer_send_def node_ops dest!: control_send_eq
        split: prod.splits sum.splits)
  with Cons show ?case by fastforce
qed simp

lemma send_chat_events:
  "ev \<in> set (nd_events (snd (send_chat env text nd))) \<Longrightarrow>
     ev \<in> set (nd_events nd) \<or> \<not> is_chat ev \<or>
     ev = EvChat (pi_id (st_me nd)) (pi_name (st_me nd)) (e_ts env) (trim text) True"
  by (auto simp: send_chat_def Let_def node_ops dest!: deliver_chat_events split: if_splits)

text \<open>
  The surroundings of a step, in which the JSON library reads what it writes.
\<close>

locale fluent =
  fixes env :: env and fj :: from_json
  assumes reads: "e_from_json env = fj"
    and parses: "e_to_json env c = Inr bs \<Longrightarrow> fj bs = Inr c"
begin

lemma decode_encoded: "encode_control (e_to_json env) c = Inr bs \<Longrightarrow> decode_frame fj bs = Inr (Control c)"
  using parses by (auto simp: encode_control_def decode_frame_def res_bind_def from_json_error_def
      split: sum.splits)

lemma weighty_encoded: "encode_control (e_to_json env) c = Inr bs \<Longrightarrow> weighty fj bs = heavy c"
  by (simp add: weighty_def decode_encoded)

lemma said_delivered [simp]:
  "filter (\<lambda>(_, bs). weighty fj bs) (delivered env l c) = (if heavy c then delivered env l c else [])"
  by (auto simp: delivered_def weighty_encoded split: sum.splits)

lemma voice_control [simp]:
  "\<not> heavy c \<Longrightarrow> voice_of fj (snd (control_send env l c nd)) = voice_of fj nd"
  "\<not> heavy c \<Longrightarrow> voice_of fj (snd (peer_send env p c nd)) = voice_of fj nd"
  "voice_of fj (reject env l reason nd) = voice_of fj nd"
  by (simp_all add: voice_of_def send_results reject_eq)

lemma voice_wire [simp]: "\<not> weighty fj bs \<Longrightarrow> voice_of fj (snd (wire_send env l bs nd)) = voice_of fj nd"
  by (simp add: voice_of_def wire_send_result)

lemma voice_send:
  "peer_send env p c nd = (r, nd') \<Longrightarrow> \<not> heavy c \<Longrightarrow> voice_of fj nd' = voice_of fj nd"
  "wire_send env l bs nd = (r, nd') \<Longrightarrow> \<not> weighty fj bs \<Longrightarrow> voice_of fj nd' = voice_of fj nd"
  using voice_control(2) voice_wire by (metis snd_conv)+

lemma voice_send_case [simp]:
  "voice_of fj (case control_send env l c nd of (_, nd') \<Rightarrow> f nd') = voice_of fj (f (snd (control_send env l c nd)))"
  "voice_of fj (case peer_send env p c nd of (_, nd') \<Rightarrow> f nd') = voice_of fj (f (snd (peer_send env p c nd)))"
  by (simp_all add: case_prod_unfold)

section \<open>Handlers that say nothing of weight\<close>

lemma voice_files [simp]:
  "voice_of fj (finish_out tid h name ok detail nd) = voice_of fj nd"
  "voice_of fj (snd (send_file env path file_name meta opened nd)) = voice_of fj nd"
  "voice_of fj (snd (send_offer env p path name fsize sha nd)) = voice_of fj nd"
  "voice_of fj (snd (send_answered env p tid chan name fsize opened nd)) = voice_of fj nd"
  "voice_of fj (send_done env p tid name fsize nd) = voice_of fj nd"
  "voice_of fj (snd (send_chunk env p tid name fsize prog nd)) = voice_of fj nd"
  "voice_of fj (handle_chunk env p tid seq data nd) = voice_of fj nd"
  "voice_of fj (complete_incoming env transfer tid nd) = voice_of fj nd"
  "voice_of fj (abort_incoming transfer reason tid nd) = voice_of fj nd"
  "voice_of fj (store_offer p transfer name fsize sha tid nd) = voice_of fj nd"
  "voice_of fj (push_decision dec tid nd) = voice_of fj nd"
  "voice_of fj (cancel_transfers_with gone nd) = voice_of fj nd"
proof -
  show fin [simp]: "voice_of fj (finish_out tid h name ok detail nd) = voice_of fj nd"
    for tid h name ok detail nd by (simp add: finish_out_def)
  show "voice_of fj (snd (send_file env path file_name meta opened nd)) = voice_of fj nd"
    by (auto simp: send_file_def Let_def voice_fold split: sum.splits)
  show "voice_of fj (snd (send_offer env p path name fsize sha nd)) = voice_of fj nd"
    by (auto simp: send_offer_def Let_def dest!: voice_send(1) voice_new_channel [where fj = fj]
        split: sum.splits prod.splits)
  show ended [simp]: "voice_of fj (send_done env p tid name fsize nd) = voice_of fj nd"
    by (simp add: send_done_def Let_def)
  show "voice_of fj (snd (send_answered env p tid chan name fsize opened nd)) = voice_of fj nd"
    by (auto simp: send_answered_def Let_def dest!: voice_send(1)
        split: sum.splits prod.splits option.splits decision.splits)
  show "voice_of fj (snd (send_chunk env p tid name fsize prog nd)) = voice_of fj nd"
    by (auto simp: send_chunk_def Let_def dest!: voice_send split: sum.splits prod.splits)
  show "voice_of fj (handle_chunk env p tid seq data nd) = voice_of fj nd"
    by (auto simp: handle_chunk_def Let_def split: option.splits prod.splits chunk_outcome.splits)
  show "voice_of fj (complete_incoming env transfer tid nd) = voice_of fj nd"
    by (auto simp: complete_incoming_def Let_def split: option.splits)
  show "voice_of fj (abort_incoming transfer reason tid nd) = voice_of fj nd"
    by (auto simp: abort_incoming_def Let_def split: option.splits)
  show "voice_of fj (store_offer p transfer name fsize sha tid nd) = voice_of fj nd"
    by (simp add: store_offer_def Let_def)
  show "voice_of fj (push_decision dec tid nd) = voice_of fj nd"
    by (auto simp: push_decision_def split: option.splits)
  have [simp]: "voice_of fj (cancel_out k n) = voice_of fj n" for k n
    by (simp add: cancel_out_def Let_def split: option.splits)
  have [simp]: "voice_of fj (fold (\<lambda>(t, n). emit (EvFileFinished t n r q detail)) xs m) = voice_of fj m"
    for r q detail xs m by (rule voice_fold) (simp split: prod.splits)
  show "voice_of fj (cancel_transfers_with gone nd) = voice_of fj nd"
    by (simp add: cancel_transfers_with_def Let_def voice_fold)
qed

lemma voice_file_control: "handle_file_control env p c nd = Ret nd' \<Longrightarrow> voice_of fj nd' = voice_of fj nd"
  by (auto simp: handle_file_control_def split: control.splits elim!: with_transfer_id_cases)

lemma voice_respond: "respond_offer env transfer save_to nd = Ret (r, nd') \<Longrightarrow> voice_of fj nd' = voice_of fj nd"
  by (auto simp: respond_offer_def Let_def dest!: voice_send(1)
      split: run.splits sum.splits option.splits prod.splits)

lemma voice_links [simp]:
  "voice_of fj (attach_peer env info l nd) = voice_of fj nd" "voice_of fj (peer_gone env p reason nd) = voice_of fj nd"
  "voice_of fj (snd (reopen_joining env ttl nd)) = voice_of fj nd"
  "voice_of fj (snd (export_history fmt json env path ext nd)) = voice_of fj nd"
  "voice_of fj (snd (accept_turn listener accepted nd)) = voice_of fj nd"
  "voice_of fj (snd (handle_incoming env l label nd)) = voice_of fj nd"
  "voice_of fj (snd (dial_peer info nd)) = voice_of fj nd"
  "voice_of fj (snd (dial_reply env l received nd)) = voice_of fj nd"
  "voice_of fj (close_all ls nd) = voice_of fj nd" "voice_of fj (close_taken n nd) = voice_of fj nd"
  "voice_of fj (shutdown_internal nd) = voice_of fj nd" "voice_of fj (leave env nd) = voice_of fj nd"
  "voice_of fj (on_hello env l version room peer source nd) = voice_of fj nd"
  "voice_of fj (await_welcome env l received nd) = voice_of fj nd"
  "voice_of fj (snd (host env kind ttl listened nd)) = voice_of fj nd"
proof -
  show att [simp]: "voice_of fj (attach_peer env info l nd) = voice_of fj nd" for info l nd
    by (simp add: attach_peer_def Let_def)
  show "voice_of fj (peer_gone env p reason nd) = voice_of fj nd"
    by (simp add: peer_gone_def tell_left_def Let_def voice_fold)
  show "voice_of fj (snd (reopen_joining env ttl nd)) = voice_of fj nd" by (simp add: reopen_joining_def)
  show "voice_of fj (snd (export_history fmt json env path ext nd)) = voice_of fj nd"
    by (simp add: export_history_def split: prod.splits)
  show "voice_of fj (snd (accept_turn listener accepted nd)) = voice_of fj nd"
    by (auto simp: accept_turn_def split: sum.splits)
  show "voice_of fj (snd (handle_incoming env l label nd)) = voice_of fj nd"
    by (auto simp: handle_incoming_def Let_def split: prod.splits)
  show "voice_of fj (snd (dial_peer info nd)) = voice_of fj nd"
    by (auto simp: dial_peer_def split: option.splits)
  show "voice_of fj (snd (dial_reply env l received nd)) = voice_of fj nd"
    by (auto simp: dial_reply_def split: sum.splits frame.splits control.splits)
  show ca [simp]: "voice_of fj (close_all ls nd) = voice_of fj nd" for ls nd
    by (simp add: close_all_def voice_fold)
  show ct [simp]: "voice_of fj (close_taken n nd) = voice_of fj nd" for n nd
    by (simp add: close_taken_def split: option.splits)
  show sd [simp]: "voice_of fj (shutdown_internal nd) = voice_of fj nd" for nd
    by (simp add: shutdown_internal_def Let_def)
  show "voice_of fj (leave env nd) = voice_of fj nd"
    by (simp add: leave_def say_bye_def Let_def voice_fold)
  show "voice_of fj (on_hello env l version room peer source nd) = voice_of fj nd"
    by (simp add: on_hello_def Let_def)
  have [simp]: "voice_of fj (add_to_roster i n) = voice_of fj n" for i n by (simp add: add_to_roster_def)
  show "voice_of fj (await_welcome env l received nd) = voice_of fj nd"
    by (auto simp: await_welcome_def Let_def voice_fold split: sum.splits frame.splits control.splits)
  have me: "nd\<lparr>st_role := a1, st_kind := a2, st_room := a3, st_me := (st_me nd)\<lparr>pi_addr := a4\<rparr>\<rparr> =
      nd\<lparr>st_me := (st_me nd)\<lparr>pi_addr := a4\<rparr>, st_role := a1, st_kind := a2, st_room := a3\<rparr>"
    for a1 a2 a3 a4 by simp
  show "voice_of fj (snd (host env kind ttl listened nd)) = voice_of fj nd"
    by (auto simp: host_def Let_def me split: sum.splits)
qed

end

text \<open>
  Any surroundings are fluent once their printer refuses what their parser would not read
  back; and they are those very surroundings where the library keeps its promise.
\<close>

definition checked :: "env \<Rightarrow> env" where
  "checked env = env\<lparr>e_to_json := \<lambda>c.
     (case e_to_json env c of
        Inl e \<Rightarrow> Inl e
      | Inr bs \<Rightarrow> if e_from_json env bs = Inr c then Inr bs else Inl (lit ''not readable''))\<rparr>"

interpretation checked: fluent "checked env" "e_from_json env" for env
  by unfold_locales (auto simp: checked_def split: sum.splits if_splits)

definition json_ok :: "to_json \<Rightarrow> from_json \<Rightarrow> bool" where
  "json_ok tj fj \<longleftrightarrow> (\<forall>c bs. tj c = Inr bs \<longrightarrow> fj bs = Inr c)"

lemma checked_same: "json_ok (e_to_json env) (e_from_json env) \<Longrightarrow> checked env = env"
proof -
  assume "json_ok (e_to_json env) (e_from_json env)"
  then have "e_to_json (checked env) = e_to_json env"
    by (intro ext) (auto simp: checked_def json_ok_def split: sum.splits)
  then show "checked env = env" by (simp add: checked_def)
qed

lemma fluent_json: "json_ok (e_to_json env) (e_from_json env) \<Longrightarrow> fluent env (e_from_json env)"
  using checked.fluent_axioms [of env] checked_same by simp

end
