(* ===== verification/Network.thy ===== *)
theory Network
  imports Network_Voice
begin

text \<open>
  Any number of machines that run the program, and the links between them.  A machine takes
  the steps of \<open>Node_System\<close>; what a thread of it receives on a link is the next payload
  the machine at the far end has sent on it (\<open>Secure_Link\<close> shows that the encrypted links
  deliver in order), or an error, at any time.
\<close>

section \<open>Machines and links\<close>

text \<open>One end of a link: the machine, and the number of the link there.\<close>

type_synonym endpoint = "nat \<times> link_id"

record network =
  nw_node :: "nat \<Rightarrow> node"
  nw_read :: "endpoint \<Rightarrow> nat"

definition sent_on :: "network \<Rightarrow> endpoint \<Rightarrow> bytes list" where
  "sent_on nw e = map snd (filter (\<lambda>(l, _). l = snd e) (nd_wire (nw_node nw (fst e))))"

text \<open>The payload a step receives, and the link it comes on.\<close>

definition receives :: "label \<Rightarrow> (link_id \<times> bytes) option" where
  "receives lb =
     (case lb of
        User env a \<Rightarrow> None
      | Thread env t i \<Rightarrow>
          (let got = (\<lambda>l. case in_received i of Inl _ \<Rightarrow> None | Inr bs \<Rightarrow> Some (l, bs)) in
           case t of
             Greeting l _ \<Rightarrow> (case in_shaken i of Inl _ \<Rightarrow> None | Inr _ \<Rightarrow> got l)
           | Reader p \<Rightarrow> got (p_link p)
           | Called _ _ _ l \<Rightarrow> got l
           | AwaitWelcome l \<Rightarrow> got l
           | _ \<Rightarrow> None))"

definition label_env :: "label \<Rightarrow> env" where
  "label_env lb = (case lb of User env a \<Rightarrow> env | Thread env t i \<Rightarrow> env)"

text \<open>
  \<open>far e\<close> is the other end of the link that ends in \<open>e\<close>.  All machines use one JSON library,
  \<open>tj\<close> and \<open>fj\<close>.
\<close>

inductive net_step ::
  "(endpoint \<Rightarrow> endpoint) \<Rightarrow> to_json \<Rightarrow> from_json \<Rightarrow> network \<Rightarrow> nat \<times> label \<Rightarrow> network \<Rightarrow> bool"
  for far tj fj where
  inward: "node_step (nw_node nw m) lb nd \<Longrightarrow> e_to_json (label_env lb) = tj \<Longrightarrow>
    e_from_json (label_env lb) = fj \<Longrightarrow> receives lb = None \<Longrightarrow>
    net_step far tj fj nw (m, lb) (nw\<lparr>nw_node := (nw_node nw)(m := nd)\<rparr>)"
| arrival: "node_step (nw_node nw m) lb nd \<Longrightarrow> e_to_json (label_env lb) = tj \<Longrightarrow>
    e_from_json (label_env lb) = fj \<Longrightarrow> receives lb = Some (l, bs) \<Longrightarrow>
    nw_read nw (m, l) < length (sent_on nw (far (m, l))) \<Longrightarrow>
    bs = sent_on nw (far (m, l)) ! nw_read nw (m, l) \<Longrightarrow>
    net_step far tj fj nw (m, lb)
      (nw\<lparr>nw_node := (nw_node nw)(m := nd),
         nw_read := (nw_read nw)((m, l) := Suc (nw_read nw (m, l)))\<rparr>)"

inductive_cases net_stepE: "net_step far tj fj nw (m, lb) nw'"

text \<open>The start: every machine has a fresh node.\<close>

definition network_start :: "(nat \<Rightarrow> node) \<Rightarrow> network" where
  "network_start nodes = \<lparr>nw_node = nodes, nw_read = \<lambda>_. 0\<rparr>"

definition fresh_node :: "node \<Rightarrow> bool" where
  "fresh_node nd \<longleftrightarrow> (\<exists>k fp name d. nd = node_new k fp name d)"

section \<open>What a step of the network is for a machine\<close>

lemma received_was_sent:
  assumes "bs = sent_on nw e ! n" "n < length (sent_on nw e)"
  shows "(snd e, bs) \<in> set (nd_wire (nw_node nw (fst e)))"
  using nth_mem [OF assms(2)] assms(1) by (auto simp: sent_on_def)

lemma net_step_node:
  assumes "net_step far tj fj nw (m, lb) nw'"
  shows "node_step (nw_node nw m) lb (nw_node nw' m)"
    "\<And>m'. m' \<noteq> m \<Longrightarrow> nw_node nw' m' = nw_node nw m'"
    "e_to_json (label_env lb) = tj" "e_from_json (label_env lb) = fj"
    "\<And>l bs. receives lb = Some (l, bs) \<Longrightarrow>
       (snd (far (m, l)), bs) \<in> set (nd_wire (nw_node nw (fst (far (m, l)))))"
  using assms by (auto elim!: net_stepE intro: received_was_sent [OF refl])

section \<open>Execution\<close>

text \<open>The same steps as a function, to run a network on concrete labels.\<close>

definition node_exec :: "node \<Rightarrow> label \<Rightarrow> node option" where
  "node_exec nd lb =
     (case lb of
        User env a \<Rightarrow> (case perform env a nd of Panic \<Rightarrow> None | Ret nd' \<Rightarrow> Some nd')
      | Thread env t i \<Rightarrow>
          if t \<in> set (nd_spawned nd)
          then (case run_task env t i (take_task t nd) of
                  Panic \<Rightarrow> None | Ret (k, nd') \<Rightarrow> Some (resume k nd'))
          else None)"

definition net_exec :: "(endpoint \<Rightarrow> endpoint) \<Rightarrow> network \<Rightarrow> nat \<times> label \<Rightarrow> network option" where
  "net_exec far nw ml =
     (case ml of (m, lb) \<Rightarrow>
       (case node_exec (nw_node nw m) lb of
          None \<Rightarrow> None
        | Some nd \<Rightarrow>
            (case receives lb of
               None \<Rightarrow> Some (nw\<lparr>nw_node := (nw_node nw)(m := nd)\<rparr>)
             | Some (l, bs) \<Rightarrow>
                 if nw_read nw (m, l) < length (sent_on nw (far (m, l))) \<and>
                    bs = sent_on nw (far (m, l)) ! nw_read nw (m, l)
                 then Some (nw\<lparr>nw_node := (nw_node nw)(m := nd),
                       nw_read := (nw_read nw)((m, l) := Suc (nw_read nw (m, l)))\<rparr>)
                 else None)))"

lemma node_exec_step: "node_exec nd lb = Some nd' \<Longrightarrow> node_step nd lb nd'"
  by (auto simp: node_exec_def intro: node_step.intros
      split: label.splits run.splits prod.splits if_splits)

lemma net_exec_step:
  assumes "net_exec far nw ml = Some nw'" "e_to_json (label_env (snd ml)) = tj"
    "e_from_json (label_env (snd ml)) = fj"
  shows "net_step far tj fj nw ml nw'"
  using assms
  by (auto simp: net_exec_def intro!: net_step.intros dest: node_exec_step
      split: prod.splits option.splits if_splits)

end
