(* ===== verification/Threads.thy ===== *)
theory Threads
  imports Node_System
begin

text \<open>
  The life of a thread of the node: which of them serve for as long as the room is open, and
  that all others end.
\<close>

section \<open>The next position of a thread\<close>

text \<open>
  The three that serve: the accept loop, a reader, and a held mesh call, which polls the roster
  until its deadline.
\<close>

definition serves :: "task \<Rightarrow> bool" where
  "serves t =
     (case t of AcceptLoop _ \<Rightarrow> True | Reader _ \<Rightarrow> True | MeshCall _ _ _ \<Rightarrow> True | _ \<Rightarrow> False)"

definition continues :: "task \<Rightarrow> task \<Rightarrow> bool" where
  "continues t t' \<longleftrightarrow> (\<exists>env i nd nd'. run_task env t i nd = Ret (Some t', nd'))"

text \<open>Which position a turn of each thread leads to, if it goes on at all.\<close>

definition follow_on :: "task \<Rightarrow> task \<Rightarrow> bool" where
  "follow_on t t' \<longleftrightarrow>
     (case t of
        HandleIncoming l _ \<Rightarrow> \<exists>source. t' = Greeting l source
      | Greeting l _ \<Rightarrow> \<exists>p deadline. t' = MeshCall l p deadline
      | DialPeer info \<Rightarrow> \<exists>kind e. t' = Dialling info kind 0 e
      | Dialling info kind attempt _ \<Rightarrow> attempt < DIAL_ATTEMPTS \<and>
          ((\<exists>e. t' = Dialling info kind (Suc attempt) e) \<or> (\<exists>l. t' = Called info kind attempt l))
      | Called info kind attempt _ \<Rightarrow> \<exists>e. t' = Dialling info kind (Suc attempt) e
      | Joining _ _ \<Rightarrow> False
      | AwaitWelcome _ \<Rightarrow> False
      | SendFileTo p path name fsize _ \<Rightarrow> \<exists>tid chan. t' = OutWaiting p tid chan path name fsize
      | OutWaiting p tid _ _ name fsize \<Rightarrow> \<exists>prog. t' = OutSending p tid name fsize prog
      | OutSending p tid name fsize prog \<Rightarrow>
          \<exists>prog'. t' = OutSending p tid name fsize prog' \<and> src_size (op_src prog') < src_size (op_src prog)
      | _ \<Rightarrow> t' = t)"

lemma run_task_follow_on:
  assumes "run_task env t i nd = Ret (Some t', nd')"
  shows "follow_on t t'"
proof (cases t)
  case (Reader p)
  with assms show ?thesis
    by (auto simp: run_task_def reader_turn_def follow_on_def split: sum.splits frame.splits run.splits)
next
  case (Greeting l source)
  with assms show ?thesis
    by (auto simp: run_task_def greet_incoming_def on_mesh_hello_def Let_def follow_on_def
        split: sum.splits frame.splits control.splits if_splits)
next
  case (SendFileTo p path name fsize sha)
  with assms show ?thesis
    by (auto simp: run_task_def send_offer_def Let_def follow_on_def split: sum.splits prod.splits)
next
  case (OutWaiting p tid chan path name fsize)
  with assms show ?thesis
    by (auto simp: run_task_def send_answered_def Let_def follow_on_def
        split: sum.splits prod.splits option.splits decision.splits)
next
  case (OutSending p tid name fsize prog)
  with assms show ?thesis
    by (auto simp: run_task_def send_chunk_def Let_def follow_on_def CHUNK_SIZE_def
        dest: stream_read_src_size split: sum.splits prod.splits if_splits)
next
  case (HandleIncoming l label)
  with assms show ?thesis
    by (auto simp: run_task_def handle_incoming_def Let_def follow_on_def split: if_splits prod.splits)
qed (use assms in \<open>auto simp: run_task_def accept_turn_def dial_peer_def dial_turn_def called_turn_def
      mesh_call_turn_def follow_on_def split: if_splits sum.splits option.splits prod.splits\<close>)

lemma continues_follow_on: "continues t t' \<Longrightarrow> follow_on t t'"
  using run_task_follow_on by (auto simp: continues_def)

section \<open>Ranks\<close>

text \<open>How far a thread is from its end: its stage, and within the last the data still to send.\<close>

definition task_rank :: "task \<Rightarrow> nat \<times> nat" where
  "task_rank t =
     (case t of
        HandleIncoming _ _ \<Rightarrow> (2, 0)
      | Greeting _ _ \<Rightarrow> (1, 0)
      | DialPeer _ \<Rightarrow> (2 * DIAL_ATTEMPTS + 2, 0)
      | Dialling _ _ attempt _ \<Rightarrow> (2 * (DIAL_ATTEMPTS - attempt) + 1, 0)
      | Called _ _ attempt _ \<Rightarrow> (2 * (DIAL_ATTEMPTS - attempt), 0)
      | SendFileTo _ _ _ _ _ \<Rightarrow> (2, 0)
      | OutWaiting _ _ _ _ _ _ \<Rightarrow> (1, 0)
      | OutSending _ _ _ _ prog \<Rightarrow> (0, src_size (op_src prog))
      | _ \<Rightarrow> (0, 0))"

text \<open>A thread that has called has attempts left.\<close>

definition dialable :: "task \<Rightarrow> bool" where
  "dialable t = (case t of Called _ _ attempt _ \<Rightarrow> attempt < DIAL_ATTEMPTS | _ \<Rightarrow> True)"

lemma follow_on_dialable: "follow_on t t' \<Longrightarrow> dialable t \<Longrightarrow> dialable t'"
  by (auto simp: follow_on_def dialable_def split: task.splits)

lemma follow_on_rank:
  "follow_on t t' \<Longrightarrow> \<not> serves t \<Longrightarrow> \<not> serves t' \<Longrightarrow> dialable t \<Longrightarrow>
   (task_rank t', task_rank t) \<in> less_than <*lex*> less_than"
  by (cases t) (auto simp: follow_on_def serves_def dialable_def task_rank_def)

section \<open>The claim\<close>


end
