(* ===== verification/Network_Trust.thy ===== *)
theory Network_Trust
  imports Network Threads
begin

text \<open>
  Who may be known to whom in a network: the invariant of a machine that keeps the ids it
  knows to those of hosts and of approved newcomers, and the registered links to the machines
  they are registered for.
\<close>

section \<open>What a machine may say\<close>

text \<open>
  What the users of the machines have done: opened a room, approved a request, typed a line of
  chat, each with the id it concerns.  An id is vouched for when a room was opened under it or
  a host approved it.
\<close>

datatype deed = Hosted peer_id | Approved peer_id | Typed peer_id rstr i64 rstr

definition vouched :: "deed set \<Rightarrow> peer_id \<Rightarrow> bool" where
  "vouched T k \<longleftrightarrow> Hosted k \<in> T \<or> Approved k \<in> T"

lemma vouched_mono: "vouched T k \<Longrightarrow> T \<subseteq> U \<Longrightarrow> vouched U k"
  by (auto simp: vouched_def)

text \<open>
  \<open>T\<close> is the set of deeds, \<open>me\<close> the id of the machine, \<open>other\<close> the id of the machine at the
  far end of the link.
\<close>

definition honest :: "deed set \<Rightarrow> peer_id \<Rightarrow> peer_id \<Rightarrow> control \<Rightarrow> bool" where
  "honest T me other c \<longleftrightarrow>
     (case c of
        Hello _ _ p \<Rightarrow> pi_id p = me
      | MeshHello _ _ p \<Rightarrow> pi_id p = me
      | Welcome _ h ps \<Rightarrow>
          pi_id h = me \<and> vouched T me \<and> vouched T other \<and> (\<forall>p \<in> set ps. vouched T (pi_id p))
      | MeshAck p \<Rightarrow> pi_id p = me \<and> vouched T me \<and> vouched T other
      | PeerJoined p \<Rightarrow> vouched T (pi_id p) \<and> vouched T other
      | Chat _ sender name ts body \<Rightarrow>
          sender = me \<and> sanitize_name name = name \<and> Typed sender name ts body \<in> T
      | _ \<Rightarrow> True)"

definition honest_payload :: "from_json \<Rightarrow> deed set \<Rightarrow> peer_id \<Rightarrow> peer_id \<Rightarrow> bytes \<Rightarrow> bool" where
  "honest_payload fj T me other bs \<longleftrightarrow>
     (case decode_frame fj bs of Inr (Control c) \<Rightarrow> honest T me other c | _ \<Rightarrow> True)"

definition honest_call :: "peer_id \<Rightarrow> (link_id \<Rightarrow> peer_id) \<Rightarrow> task \<Rightarrow> bool" where
  "honest_call me fid t \<longleftrightarrow> (case t of MeshCall l p _ \<Rightarrow> pi_id p = fid l | Joining p _ \<Rightarrow> pi_id p = me | _ \<Rightarrow> True)"

text \<open>A chat line that is shown as somebody else's was typed.\<close>

definition honest_line :: "deed set \<Rightarrow> event \<Rightarrow> bool" where
  "honest_line T ev \<longleftrightarrow>
     (case ev of EvChat sender name ts body False \<Rightarrow> Typed sender name ts body \<in> T | _ \<Rightarrow> True)"

text \<open>\<open>fid l\<close> is the id of the machine at the far end of the link \<open>l\<close>.\<close>

definition trusted_members ::
  "deed set \<Rightarrow> peer_id \<Rightarrow> (link_id \<Rightarrow> peer_id) \<Rightarrow> membership \<Rightarrow> bool" where
  "trusted_members T me fid mb \<longleftrightarrow>
     (\<forall>(k, _) \<in> set (m_roster mb). vouched T k \<and> vouched T me) \<and>
     (\<forall>(k, p) \<in> set (m_peers mb). vouched T k \<and> vouched T me \<and> pi_id (p_info p) = k \<and> fid (p_link p) = k) \<and>
     (\<forall>(_, pd) \<in> set (m_pending mb). vouched T me \<and> pi_id (pd_info pd) = fid (pd_link pd)) \<and>
     (m_role mb = Some Host \<longrightarrow> vouched T me)"

definition trusted_voice ::
  "from_json \<Rightarrow> deed set \<Rightarrow> peer_id \<Rightarrow> (link_id \<Rightarrow> peer_id) \<Rightarrow> voice \<Rightarrow> bool" where
  "trusted_voice fj T me fid vc \<longleftrightarrow>
     vc_id vc = me \<and> (\<forall>(l, bs) \<in> set (vc_said vc). honest_payload fj T me (fid l) bs) \<and>
     (\<forall>t \<in> set (vc_calls vc). honest_call me fid t) \<and>
     (\<forall>ev \<in> set (vc_chats vc). honest_line T ev) \<and> sanitize_name (vc_name vc) = vc_name vc"

definition trusted ::
  "from_json \<Rightarrow> deed set \<Rightarrow> peer_id \<Rightarrow> (link_id \<Rightarrow> peer_id) \<Rightarrow> node \<Rightarrow> bool" where
  "trusted fj T me fid nd \<longleftrightarrow>
     trusted_members T me fid (members nd) \<and> trusted_voice fj T me fid (voice_of fj nd)"

lemma trusted_same:
  "trusted fj T me fid nd \<Longrightarrow> members nd' = members nd \<Longrightarrow> voice_of fj nd' = voice_of fj nd \<Longrightarrow>
   trusted fj T me fid nd'"
  by (simp add: trusted_def)

text \<open>The invariant only grows more permissive with the ids.\<close>

lemma honest_mono: "honest T me other c \<Longrightarrow> T \<subseteq> U \<Longrightarrow> honest U me other c"
  by (auto simp: honest_def intro: vouched_mono [of T _ U] split: control.splits)

lemma honest_line_mono: "honest_line T ev \<Longrightarrow> T \<subseteq> U \<Longrightarrow> honest_line U ev"
  by (auto simp: honest_line_def split: event.splits bool.splits)

lemma honest_payload_mono: "honest_payload fj T me other bs \<Longrightarrow> T \<subseteq> U \<Longrightarrow> honest_payload fj U me other bs"
  by (auto simp: honest_payload_def intro: honest_mono split: sum.splits frame.splits)

lemma trusted_mono:
  assumes "trusted fj T me fid nd" "T \<subseteq> U"
  shows "trusted fj U me fid nd"
proof -
  note mono = vouched_mono [OF _ assms(2)] honest_payload_mono [OF _ assms(2)] honest_line_mono [OF _ assms(2)]
  have "trusted_members U me fid (members nd)"
    using assms(1) by (auto simp: trusted_def trusted_members_def intro: mono(1))
  moreover have "trusted_voice fj U me fid (voice_of fj nd)"
    using assms(1) by (auto simp: trusted_def trusted_voice_def intro: mono(2,3))
  ultimately show ?thesis by (simp add: trusted_def)
qed

lemma light_payload: "\<not> weighty fj bs \<Longrightarrow> honest_payload fj T me other bs"
  by (auto simp: weighty_def heavy_def honest_payload_def honest_def
      split: sum.splits frame.splits control.splits)

text \<open>What is on the wire of a trusted machine is honest, weighty or not.\<close>

lemma trusted_wire:
  assumes "trusted fj T me fid nd" "(l, bs) \<in> set (nd_wire nd)"
  shows "honest_payload fj T me (fid l) bs"
  using assms light_payload [of fj bs T me "fid l"]
  by (auto simp: trusted_def trusted_voice_def voice_of_def)

section \<open>Changes a handler makes\<close>

lemma trusted_roster:
  assumes "trusted fj T me fid nd" "vouched T (pi_id info)" "vouched T me"
  shows "trusted fj T me fid (nd\<lparr>st_roster := hm_insert (pi_id info) info (st_roster nd)\<rparr>)"
  using assms hm_insert_subset [of "pi_id info" info "st_roster nd"]
  by (auto simp: trusted_def trusted_members_def members_def)

lemma trusted_fewer:
  assumes "trusted fj T me fid nd" "voice_of fj nd' = voice_of fj nd"
    and "set (st_roster nd') \<subseteq> set (st_roster nd)" "set (st_peers nd') \<subseteq> set (st_peers nd)"
    and "set (st_pending nd') \<subseteq> set (st_pending nd)" "st_role nd' = Some Host \<Longrightarrow> st_role nd = Some Host"
  shows "trusted fj T me fid nd'"
  using assms unfolding trusted_def trusted_members_def members_def by (auto 4 4)

lemma hm_remove_subset: "set (hm_remove k m) \<subseteq> set m"
  by (auto simp: hm_remove_def)

lemma trusted_attach:
  assumes "trusted fj T me fid nd" "vouched T (pi_id info)" "vouched T me" "fid l = pi_id info"
  shows "trusted fj T me fid (attach_peer env info l nd)"
proof (cases "nd_running nd")
  case True
  have voice: "voice_of fj (attach_peer env info l nd) = voice_of fj nd"
    by (simp add: attach_peer_def Let_def)
  have "trusted_members T me fid (members (attach_peer env info l nd))"
    using assms True hm_insert_subset [of "pi_id info" info "st_roster nd"]
      hm_insert_subset [of "pi_id info" "\<lparr>p_info = info, p_link = l\<rparr>" "st_peers nd"]
    by (auto simp: trusted_def trusted_members_def members_def attach_running)
  with assms(1) voice show ?thesis by (simp add: trusted_def)
next
  case False
  with assms(1) show ?thesis by (intro trusted_same [OF assms(1)]) (simp_all add: attach_stopped)
qed

context fluent
begin

lemma delivered_decodes:
  "(k, bs) \<in> set (delivered env l c) \<Longrightarrow> k = l \<and> decode_frame fj bs = Inr (Control c)"
  by (auto simp: delivered_def decode_encoded split: sum.splits if_splits)

lemma trusted_control:
  assumes "trusted fj T me fid nd" "honest T me (fid l) c"
  shows "trusted fj T me fid (snd (control_send env l c nd))"
proof -
  have "voice_of fj (snd (control_send env l c nd)) =
      voice_of fj nd\<lparr>vc_said := vc_said (voice_of fj nd) @ (if heavy c then delivered env l c else [])\<rparr>"
    by (simp add: voice_of_def control_send_result)
  moreover have "honest_payload fj T me (fid k) bs" if "(k, bs) \<in> set (delivered env l c)" for k bs
    using delivered_decodes [OF that] assms(2) by (simp add: honest_payload_def)
  ultimately show ?thesis
    using assms(1) by (auto simp: trusted_def trusted_voice_def)
qed

lemma trusted_wire_send:
  assumes "trusted fj T me fid nd" "encode_control (e_to_json env) c = Inr bs" "honest T me (fid l) c"
  shows "trusted fj T me fid (snd (wire_send env l bs nd))"
  using trusted_control [OF assms(1,3)] assms(2) by (simp add: control_send_def)

lemma trusted_announce:
  assumes "trusted fj T me fid nd" "vouched T (pi_id info)" "vouched T (fid (p_link p))"
  shows "trusted fj T me fid (announce env info p nd)"
proof -
  have "trusted fj T me fid (snd (control_send env (p_link p) (PeerJoined info) nd))"
    by (rule trusted_control [OF assms(1)]) (use assms in \<open>simp add: honest_def\<close>)
  then show ?thesis
    by (auto simp: announce_def peer_send_def intro: trusted_same
        split: prod.splits sum.splits dest: arg_cong [of _ _ snd])
qed

lemma trusted_announces:
  assumes "trusted fj T me fid nd" "vouched T (pi_id info)" "\<forall>p \<in> set ps. vouched T (fid (p_link p))"
  shows "trusted fj T me fid (fold (announce env info) ps nd)"
  using assms by (induction ps arbitrary: nd) (simp_all add: trusted_announce)

lemma trusted_peers:
  assumes "trusted fj T me fid nd" "p \<in> set (connected_peers nd)"
  shows "vouched T (pi_id (p_info p))" "vouched T (fid (p_link p))"
  using assms by (auto simp: trusted_def trusted_members_def members_def connected_peers_def hm_values_def)

lemma trusted_pending:
  assumes "trusted fj T me fid nd" "hm_get (st_pending nd) req = Some pd"
  shows "vouched T me" "pi_id (pd_info pd) = fid (pd_link pd)"
  using assms hm_get_in [OF assms(2)] by (auto simp: trusted_def trusted_members_def members_def)

lemma trusted_id: "trusted fj T me fid nd \<Longrightarrow> pi_id (st_me nd) = me"
  by (simp add: trusted_def trusted_voice_def voice_of_def)

lemma trusted_on_hello:
  assumes "trusted fj T me fid nd" "pi_id peer = fid l"
  shows "trusted fj T me fid (on_hello env l version room peer source nd)"
proof (cases "hello_welcome env version room peer nd")
  case True
  have host: "vouched T me" using assms(1) True
    by (simp add: trusted_def trusted_members_def members_def hello_welcome_def is_host_def)
  let ?pd = "\<lparr>pd_info = peer\<lparr>pi_name := sanitize_name (pi_name peer)\<rparr>, pd_link = l\<rparr>"
  have "trusted_members T me fid (members (on_hello env l version room peer source nd))"
    using assms host hm_insert_subset [of "show_nat (unat (nd_req_seq nd))" ?pd "st_pending nd"]
    by (auto simp: on_hello_parked [OF True] trusted_def trusted_members_def members_def node_ops)
  with assms(1) show ?thesis by (simp add: trusted_def)
next
  case False
  then obtain reason where "on_hello env l version room peer source nd = reject env l reason nd"
    using on_hello_refused by blast
  then show ?thesis by (intro trusted_same [OF assms(1)]) simp_all
qed

lemma trusted_approve:
  assumes "trusted fj T me fid nd" "\<forall>k \<in> set (approval_of nd req accept). vouched T k"
  shows "trusted fj T me fid (snd (approve env req accept nd))"
proof (cases "hm_get (st_pending nd) req")
  case None
  then show ?thesis using assms(1) by (simp add: approve_def)
next
  case (Some pd)
  let ?nd1 = "nd\<lparr>st_pending := hm_remove req (st_pending nd)\<rparr>" and ?info = "pd_info pd"
  have 1: "trusted fj T me fid ?nd1"
    by (rule trusted_fewer [OF assms(1)]) (simp_all add: hm_remove_subset)
  show ?thesis
  proof (cases accept)
    case False
    then show ?thesis
      by (intro trusted_same [OF 1]) (simp_all add: approve_def Some Let_def)
  next
    case True
    have ids: "vouched T (pi_id ?info)" "vouched T me" "pi_id ?info = fid (pd_link pd)"
      using assms(2) True trusted_pending [OF assms(1) Some] by (simp_all add: approval_of_def Some)
    define nd2 where "nd2 = fold (announce env ?info) (connected_peers ?nd1) ?nd1"
    define nd3 where "nd3 = nd2\<lparr>st_roster := hm_insert (pi_id ?info) ?info (st_roster nd2)\<rparr>"
    have 2: "trusted fj T me fid nd2"
      unfolding nd2_def by (rule trusted_announces [OF 1 ids(1)]) (use trusted_peers(2) [OF 1] in blast)
    have 3: "trusted fj T me fid nd3"
      unfolding nd3_def by (rule trusted_roster [OF 2 ids(1,2)])
    define c where "c = Welcome (st_room nd3) (st_me nd3) (map p_info (connected_peers ?nd1))"
    have "honest T me (fid (pd_link pd)) c"
      using ids trusted_id [OF 3] trusted_peers(1) [OF 1] by (auto simp: honest_def c_def)
    then have 4: "trusted fj T me fid (snd (control_send env (pd_link pd) c nd3))"
      by (rule trusted_control [OF 3])
    obtain r nd4 where r: "control_send env (pd_link pd) c nd3 = (r, nd4)" by fastforce
    have 5: "trusted fj T me fid (emit (EvJoinResolved req True) nd4)"
      by (rule trusted_same [OF 4]) (simp_all add: r)
    have "snd (approve env req accept nd) =
        (case r of Inl _ \<Rightarrow> nd4
         | Inr _ \<Rightarrow> attach_peer env ?info (pd_link pd) (emit (EvJoinResolved req True) nd4))"
      using r True by (simp add: approve_def Some Let_def nd2_def nd3_def c_def split: sum.splits)
    with 4 r trusted_attach [OF 5 ids(1,2) ids(3) [symmetric]] show ?thesis
      by (simp split: sum.splits)
  qed
qed

end

context fluent
begin

lemma trusted_peer_gone:
  assumes "trusted fj T me fid nd"
  shows "trusted fj T me fid (peer_gone env p reason nd)"
  by (rule trusted_fewer [OF assms]) (auto simp: peer_gone_fields hm_remove_def)

lemma trusted_leave:
  assumes "trusted fj T me fid nd"
  shows "trusted fj T me fid (leave env nd)"
proof (cases "nd_running nd")
  case True
  then show ?thesis by (intro trusted_fewer [OF assms]) (simp_all add: leave_fields)
next
  case False
  then show ?thesis using assms by (simp add: leave_def)
qed

lemma trusted_shutdown:
  assumes "trusted fj T me fid nd"
  shows "trusted fj T me fid (shutdown_internal nd)"
  by (rule trusted_fewer [OF assms]) (simp_all add: shutdown_fields)

lemma trusted_host:
  assumes "trusted fj T me fid nd" "vouched T me"
  shows "trusted fj T me fid (snd (host env kind ttl listened nd))"
proof -
  have "members (snd (host env kind ttl listened nd)) = members nd \<or>
      st_role (snd (host env kind ttl listened nd)) = Some Host \<and>
      st_peers (snd (host env kind ttl listened nd)) = [] \<and>
      st_roster (snd (host env kind ttl listened nd)) = [] \<and>
      st_pending (snd (host env kind ttl listened nd)) = []"
    by (auto simp: host_def Let_def node_ops split: sum.splits)
  then show ?thesis
  proof
    assume "members (snd (host env kind ttl listened nd)) = members nd"
    then show ?thesis by (intro trusted_same [OF assms(1)]) simp_all
  next
    assume "st_role (snd (host env kind ttl listened nd)) = Some Host \<and>
      st_peers (snd (host env kind ttl listened nd)) = [] \<and>
      st_roster (snd (host env kind ttl listened nd)) = [] \<and>
      st_pending (snd (host env kind ttl listened nd)) = []"
    then show ?thesis using assms by (simp add: trusted_def trusted_members_def members_def)
  qed
qed

text \<open>Joining: the room is opened, and the request is sent in the name of this machine.\<close>

lemma trusted_join_open:
  assumes "trusted fj T me fid nd"
  shows "trusted fj T me fid (snd (join_open kind code listened nd))"
    "fst (join_open kind code listened nd) = Inr (p, room) \<Longrightarrow> pi_id p = me"
proof -
  have "trusted fj T me fid (snd (join_open kind code listened nd))" if "\<not> (\<exists>r. fst (join_open kind code listened nd) = Inr r)"
    using that assms by (auto simp: join_open_def Let_def split: sum.splits prod.splits if_splits)
  moreover have "trusted fj T me fid (snd (join_open kind code listened nd))" if "fst (join_open kind code listened nd) = Inr r" for r
    by (rule trusted_fewer [OF assms])
      (use that in \<open>auto simp: join_open_def Let_def node_ops voice_of_def split: sum.splits prod.splits if_splits\<close>)
  ultimately show "trusted fj T me fid (snd (join_open kind code listened nd))" by blast
  show "pi_id p = me" if "fst (join_open kind code listened nd) = Inr (p, room)"
    using that trusted_id [OF assms]
    by (auto simp: join_open_def Let_def node_ops split: sum.splits prod.splits if_splits)
qed

lemma trusted_join_call:
  assumes "trusted fj T me fid nd" "pi_id p = me"
  shows "trusted fj T me fid (snd (join_call env p room connected shaken nd))"
proof -
  have sent: "trusted fj T me fid nd1"
    if "encode_control (e_to_json env) (Hello PROTOCOL_VERSION room p) = Inr bs"
      "wire_send env l bs nd = (r, nd1)" for bs l r nd1
    using trusted_wire_send [OF assms(1) that(1), of l] that(2) assms(2) by (simp add: honest_def)
  have same: "trusted fj T me fid (spawn (AwaitWelcome l) (emit (EvStatus s) n))"
    if "trusted fj T me fid n" for l s n
    by (rule trusted_same [OF that]) simp_all
  show ?thesis
    using assms(1) sent
    by (auto simp: join_call_def intro: trusted_shutdown same split: sum.splits prod.splits)
qed

lemma trusted_welcome:
  assumes "trusted fj T me fid nd" "\<And>bs. received = Inr bs \<Longrightarrow> honest_payload fj T (fid l) me bs"
  shows "trusted fj T me fid (await_welcome env l received nd)"
proof (cases "\<exists>bs room h peers. received = Inr bs \<and> decode_frame fj bs = Inr (Control (Welcome room h peers))")
  case True
  then obtain bs room h peers where r: "received = Inr bs"
    "decode_frame fj bs = Inr (Control (Welcome room h peers))" by blast
  have ids: "pi_id h = fid l" "vouched T (pi_id h)" "vouched T me" "\<forall>p \<in> set peers. vouched T (pi_id p)"
    using assms(2) [OF r(1)] r(2) by (auto simp: honest_payload_def honest_def)
  have 1: "trusted fj T me fid (nd\<lparr>st_room := room\<rparr>)"
    by (rule trusted_same [OF assms(1)]) (simp_all add: members_def)
  have add: "trusted fj T me fid (add_to_roster i n)" if "trusted fj T me fid n" "vouched T (pi_id i)" for i n
    unfolding add_to_roster_def by (rule trusted_roster [OF that ids(3)])
  have "trusted fj T me fid (fold add_to_roster peers (add_to_roster h (nd\<lparr>st_room := room\<rparr>)))"
    using ids(4) add [OF 1 ids(2)] by (induction peers rule: rev_induct) (auto intro: add)
  then have "trusted fj T me fid (attach_peer env h l (record_line_to rec
      (fold add_to_roster peers (add_to_roster h (nd\<lparr>st_room := room\<rparr>)))))" for rec
    by (intro trusted_attach ids ids(1) [symmetric]) (erule trusted_same, simp_all)
  then have "trusted fj T me fid (fold (\<lambda>p. spawn (DialPeer p)) peers (emit e (attach_peer env h l
      (record_line_to rec (fold add_to_roster peers (add_to_roster h (nd\<lparr>st_room := room\<rparr>)))))))"
    if "\<not> is_chat e" for rec e
    by (rule trusted_same) (simp_all add: members_fold_emit voice_fold that)
  then show ?thesis using r by (simp add: await_welcome_def reads Let_def)
next
  case False
  have "trusted fj T me fid (shutdown_internal (emit (EvRoomClosed s) nd))"
    "trusted fj T me fid (shutdown_internal (emit (EvRoomClosed s) (close_link l nd)))" for s
    by (intro trusted_shutdown; rule trusted_same [OF assms(1)]; simp)+
  with False show ?thesis
    by (auto simp: await_welcome_def reads split: sum.splits frame.splits control.splits)
qed

lemma trusted_dial_turn:
  assumes "trusted fj T me fid nd"
  shows "trusted fj T me fid (snd (dial_turn env info kind attempt last_error connected shaken nd))"
proof -
  have "trusted fj T me fid (snd (control_send env l (MeshHello PROTOCOL_VERSION (st_room nd) (st_me nd)) nd))"
    for l by (rule trusted_control [OF assms]) (use trusted_id [OF assms] in \<open>simp add: honest_def\<close>)
  then have "trusted fj T me fid nd1"
    if "control_send env l (MeshHello PROTOCOL_VERSION (st_room nd) (st_me nd)) nd = (r, nd1)" for l r nd1
    using that by (metis snd_conv)
  then show ?thesis
    using assms trusted_same [OF assms, of "emit (EvPeer (pi_id info) (pi_name info) Failed last_error) nd"]
    by (auto simp: dial_turn_def dial_call_def split: sum.splits prod.splits if_splits)
qed

lemma trusted_dial_reply:
  assumes "trusted fj T me fid nd" "\<And>bs. received = Inr bs \<Longrightarrow> honest_payload fj T (fid l) me bs"
  shows "trusted fj T me fid (snd (dial_reply env l received nd))"
proof (cases "\<exists>bs p. received = Inr bs \<and> decode_frame fj bs = Inr (Control (MeshAck p))")
  case True
  then obtain bs p where r: "received = Inr bs" "decode_frame fj bs = Inr (Control (MeshAck p))" by blast
  have "pi_id p = fid l" "vouched T (pi_id p)" "vouched T me"
    using assms(2) [OF r(1)] r(2) by (auto simp: honest_payload_def honest_def)
  then show ?thesis using r trusted_attach [OF assms(1)] by (simp add: dial_reply_def reads)
next
  case False
  have "trusted fj T me fid (close_link l nd)" by (rule trusted_same [OF assms(1)]) simp_all
  with False assms(1) show ?thesis
    by (auto simp: dial_reply_def reads split: sum.splits frame.splits control.splits)
qed

lemma trusted_mesh_call:
  assumes "trusted fj T me fid nd" "pi_id peer = fid l"
  shows "trusted fj T me fid (snd (mesh_call_turn env l peer deadline nd))"
proof -
  have rej: "trusted fj T me fid (reject env l reason nd)" for reason
    by (rule trusted_same [OF assms(1)]) simp_all
  have acc: "trusted fj T me fid (accept_mesh_call env l peer nd)" if there: "hm_contains (st_roster nd) (pi_id peer)"
  proof -
    obtain info where "(pi_id peer, info) \<in> set (st_roster nd)"
      using there by (auto simp: hm_contains_iff dest: hm_get_in)
    then have ids: "vouched T (pi_id peer)" "vouched T me"
      using assms(1) by (auto simp: trusted_def trusted_members_def members_def)
    have sent: "trusted fj T me fid nd1"
      if "encode_control (e_to_json env) (MeshAck (st_me nd)) = Inr bs" "wire_send env l bs nd = (r, nd1)"
      for bs r nd1
      using trusted_wire_send [OF assms(1) that(1), of l] that(2) trusted_id [OF assms(1)] ids assms(2)
      by (simp add: honest_def)
    have shut: "trusted fj T me fid (close_link l n)" if "trusted fj T me fid n" for n
      by (rule trusted_same [OF that]) simp_all
    show ?thesis
      using rej sent assms ids
      by (auto simp: accept_mesh_call_def intro: trusted_attach shut split: option.splits sum.splits prod.splits)
  qed
  show ?thesis using acc rej assms(1) by (simp add: mesh_call_turn_def)
qed

end

section \<open>Steps of a machine\<close>

lemma trusted_calls:
  assumes "trusted fj T me fid nd"
  shows "trusted fj T me fid (take_task t nd)"
    "honest_call me fid t' \<Longrightarrow> trusted fj T me fid (spawn t' nd)"
    "t \<in> set (nd_spawned nd) \<Longrightarrow> honest_call me fid t"
proof -
  have "voice_of fj (take_task t nd) = voice_of fj nd\<lparr>vc_calls := filter is_call (remove1 t (nd_spawned nd))\<rparr>"
    by (simp add: voice_of_def take_task_def)
  then show "trusted fj T me fid (take_task t nd)"
    using assms set_remove1_subset [of t "nd_spawned nd"]
    by (auto simp: trusted_def trusted_voice_def voice_of_def)
  have "voice_of fj (spawn t' nd) = voice_of fj nd\<lparr>vc_calls := filter is_call (nd_spawned nd @ [t'])\<rparr>"
    by (simp add: voice_of_def node_ops)
  then show "trusted fj T me fid (spawn t' nd)" if "honest_call me fid t'"
    using assms that by (auto simp: trusted_def trusted_voice_def voice_of_def)
  show "honest_call me fid t" if "t \<in> set (nd_spawned nd)"
    using assms that by (cases t) (auto simp: trusted_def trusted_voice_def voice_of_def honest_call_def)
qed

lemma honest_line_simps [simp]:
  "honest_line T (EvChat sender name ts body own) \<longleftrightarrow> own \<or> Typed sender name ts body \<in> T"
  "\<not> is_chat ev \<Longrightarrow> honest_line T ev"
  by (auto simp: honest_line_def is_chat_def split: event.splits bool.splits)

lemma trusted_speech:
  assumes "trusted fj T me fid nd" "members nd' = members nd" "pi_id (st_me nd') = pi_id (st_me nd)"
    "nd_spawned nd' = nd_spawned nd" "sanitize_name (pi_name (st_me nd')) = pi_name (st_me nd')"
    and "\<And>l bs. (l, bs) \<in> set (nd_wire nd') \<Longrightarrow> (l, bs) \<in> set (nd_wire nd) \<or> honest_payload fj T me (fid l) bs"
    and "\<And>ev. ev \<in> set (nd_events nd') \<Longrightarrow> ev \<in> set (nd_events nd) \<or> honest_line T ev"
  shows "trusted fj T me fid nd'"
proof -
  have "honest_payload fj T me (fid l) bs" if "(l, bs) \<in> set (nd_wire nd')" for l bs
    using assms(6) [OF that] trusted_wire [OF assms(1)] by blast
  moreover have "honest_line T ev" if "ev \<in> set (nd_events nd')" for ev
    using assms(7) [OF that] assms(1)
    by (cases "is_chat ev") (auto simp: trusted_def trusted_voice_def voice_of_def)
  ultimately show ?thesis using assms(1-5) by (auto simp: trusted_def trusted_voice_def voice_of_def)
qed

lemma trusted_name: "trusted fj T me fid nd \<Longrightarrow> sanitize_name (pi_name (st_me nd)) = pi_name (st_me nd)"
  by (simp add: trusted_def trusted_voice_def voice_of_def)

lemma honest_call_simps [simp]:
  "honest_call me fid (MeshCall l p d) \<longleftrightarrow> pi_id p = fid l"
  "honest_call me fid (Joining p2 r) \<longleftrightarrow> pi_id p2 = me" "\<not> is_call t \<Longrightarrow> honest_call me fid t"
  by (auto simp: honest_call_def is_call_def split: task.splits)

context fluent
begin

lemma trusted_handle_control:
  assumes "trusted fj T me fid nd" "handle_control env p c nd = Ret nd'"
    and "honest T (fid (p_link p)) me c"
  shows "trusted fj T me fid nd'"
proof (cases c)
  case (PeerJoined info)
  have 1: "trusted fj T me fid (nd\<lparr>st_roster := hm_insert (pi_id info) info (st_roster nd)\<rparr>)"
    using assms(3) PeerJoined by (intro trusted_roster [OF assms(1)]) (simp_all add: honest_def)
  have "trusted fj T me fid (emit (EvSystem s) (nd\<lparr>st_roster := hm_insert (pi_id info) info (st_roster nd)\<rparr>))" for s
    by (rule trusted_same [OF 1]) simp_all
  with assms(2) PeerJoined show ?thesis by (auto simp: handle_control_def)
next
  case (PeerLeft k name)
  have 1: "trusted fj T me fid (nd\<lparr>st_roster := hm_remove k (st_roster nd)\<rparr>)"
    by (rule trusted_fewer [OF assms(1)]) (simp_all add: hm_remove_subset)
  have "trusted fj T me fid (emit (EvSystem s) (nd\<lparr>st_roster := hm_remove k (st_roster nd)\<rparr>))" for s
    by (rule trusted_same [OF 1]) simp_all
  with assms(2) PeerLeft show ?thesis by (auto simp: handle_control_def)
next
  case Bye
  with assms(2) trusted_peer_gone [OF assms(1)] show ?thesis by (auto simp: handle_control_def)
next
  case (Chat mid sender name ts body)
  have "trusted fj T me fid (emit (EvChat sender (sanitize_name name) ts body False)
      (record_line_to (record_message (sanitize_name name) sender ts body) nd))"
    by (rule trusted_speech [OF assms(1)])
      (use assms(3) Chat trusted_name [OF assms(1)] in \<open>auto simp: node_ops members_def honest_def\<close>)
  with assms(2) Chat show ?thesis by (auto simp: handle_control_def Let_def)
qed (use assms(2) in \<open>auto simp: handle_control_def intro: trusted_same [OF assms(1)] assms(1)
      dest: voice_file_control members_file_control\<close>)

lemma trusted_reader:
  assumes "trusted fj T me fid nd" "reader_turn env p received nd = Ret (k, nd')"
    and "\<And>bs. received = Inr bs \<Longrightarrow> honest_payload fj T (fid (p_link p)) me bs"
  shows "trusted fj T me fid nd'"
proof -
  have control: "trusted fj T me fid nd1"
    if "received = Inr bs" "decode_frame fj bs = Inr (Control c)" "handle_control env p c nd = Ret nd1" for bs c nd1
    using trusted_handle_control [OF assms(1) that(3)] assms(3) [OF that(1)] that(2)
    by (simp add: honest_payload_def)
  have same: "trusted fj T me fid (emit (EvError s) nd)" "trusted fj T me fid (handle_chunk env p tid seq data nd)"
    for s tid seq data by (rule trusted_same [OF assms(1)]; simp)+
  show ?thesis
    using assms(2) control same trusted_peer_gone [OF assms(1)]
    by (auto simp: reader_turn_def reads split: sum.splits frame.splits run.splits)
qed

lemma trusted_greet:
  assumes "trusted fj T me fid nd"
    and "\<And>x bs. shaken = Inr x \<Longrightarrow> received = Inr bs \<Longrightarrow> honest_payload fj T (fid l) me bs"
  shows "trusted fj T me fid (snd (greet_incoming env l source shaken received nd))"
    "fst (greet_incoming env l source shaken received nd) = Some t \<Longrightarrow> honest_call me fid t"
proof -
  have hello: "pi_id peer = fid l"
    if "shaken = Inr x" "received = Inr bs" "decode_frame fj bs = Inr (Control (Hello v r peer)) \<or>
      decode_frame fj bs = Inr (Control (MeshHello v r peer))" for x bs v r peer
    using assms(2) [OF that(1,2)] that(3) by (auto simp: honest_payload_def honest_def)
  have shut: "trusted fj T me fid (close_link l n)" if "trusted fj T me fid n" for n
    by (rule trusted_same [OF that]) simp_all
  have emitted: "trusted fj T me fid (emit (EvStatus s) nd)" for s
    by (rule trusted_same [OF assms(1)]) simp_all
  have refused: "trusted fj T me fid (close_link l (snd (wire_send env l [] nd)))"
    "encode_control (e_to_json env) (Rejected r) = Inr bs \<Longrightarrow>
       trusted fj T me fid (close_link l (snd (wire_send env l bs nd)))" for r bs
    by (rule shut, rule trusted_same [OF assms(1)], simp_all add: weighty_encoded)+
  have mesh: "trusted fj T me fid (snd (on_mesh_hello env l v r peer nd))"
    "fst (on_mesh_hello env l v r peer nd) = Some t \<Longrightarrow> pi_id peer = fid l \<Longrightarrow> honest_call me fid t" for v r peer t
    by (auto simp: on_mesh_hello_def intro: assms(1) trusted_same [OF assms(1)] split: if_splits)
  show "trusted fj T me fid (snd (greet_incoming env l source shaken received nd))"
    using assms(1) hello shut [OF emitted] shut [OF assms(1)] refused mesh(1)
    by (auto simp: greet_incoming_def reads Let_def intro: trusted_on_hello
        split: sum.splits frame.splits control.splits)
  show "honest_call me fid t" if "fst (greet_incoming env l source shaken received nd) = Some t"
    using that hello mesh(2)
    by (auto simp: greet_incoming_def reads Let_def split: sum.splits frame.splits control.splits)
qed

end

context fluent
begin

lemma trusted_task:
  assumes "trusted fj T me fid nd" "run_task env t i nd = Ret (k, nd')" "honest_call me fid t"
    and "\<And>l bs. receives (Thread env t i) = Some (l, bs) \<Longrightarrow> honest_payload fj T (fid l) me bs"
  shows "trusted fj T me fid nd'"
proof -
  note got = assms(4) [unfolded receives_def Let_def]
  have same: "trusted fj T me fid (snd r)" if "members (snd r) = members nd"
      "voice_of fj (snd r) = voice_of fj nd" for r :: "task option \<times> node"
    using trusted_same [OF assms(1)] that by simp
  have snd_of: "r = (k, nd') \<Longrightarrow> nd' = snd r" for r :: "task option \<times> node" by simp
  show ?thesis
  proof (cases t)
    case (Greeting l source)
    have "honest_payload fj T (fid l) me bs" if "in_shaken i = Inr x" "in_received i = Inr bs" for x bs
      using got [of l bs] that Greeting by simp
    moreover have "nd' = snd (greet_incoming env l source (in_shaken i) (in_received i) nd)"
      using Greeting assms(2) by (simp add: run_task_def)
    ultimately show ?thesis using trusted_greet(1) [OF assms(1)] by simp
  next
    case (MeshCall l peer deadline)
    with trusted_mesh_call [OF assms(1), of peer l deadline] assms(2,3) show ?thesis
      by (simp add: run_task_def)
  next
    case (Reader p)
    then have "honest_payload fj T (fid (p_link p)) me bs" if "in_received i = Inr bs" for bs
      using got [of "p_link p" bs] that by simp
    with trusted_reader [OF assms(1)] Reader assms(2) show ?thesis by (simp add: run_task_def)
  next
    case (Dialling info kind attempt last_error)
    with trusted_dial_turn [OF assms(1)] assms(2) show ?thesis by (simp add: run_task_def) (metis snd_conv)
  next
    case (Called info kind attempt l)
    then have "honest_payload fj T (fid l) me bs" if "in_received i = Inr bs" for bs
      using got [of l bs] that by simp
    with trusted_dial_reply [OF assms(1)] Called assms(2) show ?thesis
      by (simp add: run_task_def) (metis called_turn_node snd_conv)
  next
    case (Joining p room)
    with trusted_join_call [OF assms(1)] assms(2,3) show ?thesis by (auto simp: run_task_def)
  next
    case (AwaitWelcome l)
    then have "honest_payload fj T (fid l) me bs" if "in_received i = Inr bs" for bs
      using got [of l bs] that by simp
    with trusted_welcome [OF assms(1)] AwaitWelcome assms(2) show ?thesis by (auto simp: run_task_def)
  qed (use assms(2) in \<open>auto simp: run_task_def intro!: same dest!: snd_of\<close>)
qed

end

text \<open>The deeds of a step.\<close>

definition deeds :: "node \<Rightarrow> label \<Rightarrow> deed list" where
  "deeds nd lb = map Approved (approvals nd lb) @
     (case lb of
        User env a \<Rightarrow>
          (case a of
             DoHost _ _ _ \<Rightarrow> [Hosted (pi_id (st_me nd))]
           | DoSendChat body \<Rightarrow> [Typed (pi_id (st_me nd)) (pi_name (st_me nd)) (e_ts env) (trim body)]
           | _ \<Rightarrow> [])
      | Thread env t i \<Rightarrow> [])"

context fluent
begin

lemma trusted_send_chat:
  assumes "trusted fj T me fid nd" "Typed me (pi_name (st_me nd)) (e_ts env) (trim text) \<in> T"
  shows "trusted fj T me fid (snd (send_chat env text nd))"
proof (rule trusted_speech [OF assms(1)])
  show "members (snd (send_chat env text nd)) = members nd" by simp
  show "pi_id (st_me (snd (send_chat env text nd))) = pi_id (st_me nd)"
    "nd_spawned (snd (send_chat env text nd)) = nd_spawned nd"
    "sanitize_name (pi_name (st_me (snd (send_chat env text nd)))) = pi_name (st_me (snd (send_chat env text nd)))"
    using trusted_name [OF assms(1)] by (simp_all add: send_chat_def Let_def node_ops)
next
  fix l bs
  assume "(l, bs) \<in> set (nd_wire (snd (send_chat env text nd)))"
  then show "(l, bs) \<in> set (nd_wire nd) \<or> honest_payload fj T me (fid l) bs"
    using assms(2) trusted_id [OF assms(1)] trusted_name [OF assms(1)]
    by (auto simp: send_chat_def Let_def node_ops honest_payload_def honest_def
        dest: delivered_decodes split: if_splits)
next
  fix ev
  assume "ev \<in> set (nd_events (snd (send_chat env text nd)))"
  then show "ev \<in> set (nd_events nd) \<or> honest_line T ev"
    by (auto dest!: send_chat_events)
qed

lemma trusted_perform:
  assumes "trusted fj T me fid nd" "perform env a nd = Ret nd'" "set (deeds nd (User env a)) \<subseteq> T"
  shows "trusted fj T me fid nd'"
proof (cases a)
  case (DoHost kind ttl listened)
  with assms trusted_id [OF assms(1)] trusted_host [OF assms(1)] show ?thesis
    by (auto simp: perform_def deeds_def vouched_def)
next
  case (DoJoin kind code listened)
  then have "nd' = resume (joining (fst (join_open kind code listened nd))) (snd (join_open kind code listened nd))"
    using assms(2) by (simp add: perform_join)
  then show ?thesis
    using trusted_join_open [OF assms(1), of kind code listened] trusted_calls(2)
    by (auto simp: resume_def joining_def split: sum.splits)
next
  case (DoApprove req accept)
  with assms(3) have "\<forall>k \<in> set (approval_of nd req accept). vouched T k"
    by (auto simp: deeds_def approvals_def vouched_def)
  with DoApprove assms(2) trusted_approve [OF assms(1)] show ?thesis by (auto simp: perform_def)
next
  case DoLeave
  with assms(2) trusted_leave [OF assms(1)] show ?thesis by (auto simp: perform_def)
next
  case (DoSendChat body)
  with assms(2,3) trusted_send_chat [OF assms(1)] trusted_id [OF assms(1)] show ?thesis
    by (auto simp: perform_def deeds_def)
next
  case (DoSetName name)
  have "trusted fj T me fid (set_display_name name nd)"
    by (rule trusted_speech [OF assms(1)])
      (simp_all add: set_display_name_def members_def sanitize_name_twice)
  with DoSetName assms(2) show ?thesis by (auto simp: perform_def)
next
  case (DoRespond transfer save_to)
  with assms(2) show ?thesis
    by (auto simp: perform_def intro: trusted_same [OF assms(1)] members_respond voice_respond split: run.splits)
qed (use assms(2) in \<open>auto simp: perform_def intro: trusted_same [OF assms(1)]\<close>)

lemma trusted_node_step:
  assumes "trusted fj T me fid nd" "node_step nd lb nd'" "label_env lb = env" "set (deeds nd lb) \<subseteq> T"
    and "\<And>l bs. receives lb = Some (l, bs) \<Longrightarrow> honest_payload fj T (fid l) me bs"
  shows "trusted fj T me fid nd'"
  using assms(2)
proof cases
  case (user env' a)
  then show ?thesis using trusted_perform [OF assms(1)] assms(3,4) by (simp add: label_env_def)
next
  case (thread t env' i k nd1)
  have call: "honest_call me fid t" using trusted_calls(3) [OF assms(1)] thread by blast
  have r: "run_task env t i (take_task t nd) = Ret (k, nd1)"
    using thread assms(3) by (simp add: label_env_def)
  have "trusted fj T me fid nd1"
    by (rule trusted_task [OF trusted_calls(1) [OF assms(1)] r call])
      (use assms(5) thread in \<open>simp add: receives_def\<close>)
  moreover have "honest_call me fid t'" if k: "k = Some t'" for t'
  proof (cases "is_call t'")
    case False
    then show ?thesis by simp
  next
    case True
    from run_task_follow_on r k have "follow_on t t'" by blast
    then consider "t' = t" | l source where "t = Greeting l source"
      using True by (auto simp: follow_on_def split: task.splits)
    then show ?thesis
    proof cases
      case 2
      with r k have "fst (greet_incoming env l source (in_shaken i) (in_received i) (take_task t nd)) = Some t'"
        by (auto simp: run_task_def)
      moreover have "honest_payload fj T (fid l) me bs" if "in_shaken i = Inr x" "in_received i = Inr bs" for x bs
        using assms(5) [of l bs] thread 2 that by (simp add: receives_def)
      ultimately show ?thesis using trusted_greet(2) [OF trusted_calls(1) [OF assms(1)]] by blast
    qed (use call in simp)
  qed
  ultimately show ?thesis using trusted_calls(2) thread by (auto simp: resume_def split: option.splits)
qed

end

section \<open>The network\<close>

definition net_trusted :: "(endpoint \<Rightarrow> endpoint) \<Rightarrow> from_json \<Rightarrow> deed set \<Rightarrow> network \<Rightarrow> bool" where
  "net_trusted far fj T nw \<longleftrightarrow>
     (\<forall>m. trusted fj T (pi_id (st_me (nw_node nw m)))
        (\<lambda>l. pi_id (st_me (nw_node nw (fst (far (m, l)))))) (nw_node nw m))"

text \<open>A step of the network, with the deeds so far.\<close>

definition room_step ::
  "(endpoint \<Rightarrow> endpoint) \<Rightarrow> to_json \<Rightarrow> from_json \<Rightarrow> network \<times> deed list \<Rightarrow> nat \<times> label \<Rightarrow>
   network \<times> deed list \<Rightarrow> bool" where
  "room_step far tj fj s ml s' \<longleftrightarrow>
     net_step far tj fj (fst s) ml (fst s') \<and>
     snd s' = snd s @ deeds (nw_node (fst s) (fst ml)) (snd ml)"

text \<open>Links have two ends, and the JSON library reads what it writes.\<close>

definition sound_net :: "(endpoint \<Rightarrow> endpoint) \<Rightarrow> to_json \<Rightarrow> from_json \<Rightarrow> bool" where
  "sound_net far tj fj \<longleftrightarrow> (\<forall>e. far (far e) = e) \<and> json_ok tj fj"

lemma net_trusted_step:
  assumes "room_step far tj fj s ml s'" "sound_net far tj fj" "net_trusted far fj (set (snd s)) (fst s)"
  shows "net_trusted far fj (set (snd s')) (fst s')"
    "pi_id (st_me (nw_node (fst s') m1)) = pi_id (st_me (nw_node (fst s) m1))"
proof -
  obtain m lb where ml: "ml = (m, lb)" by fastforce
  define T where "T = set (snd s')"
  have net: "net_step far tj fj (fst s) (m, lb) (fst s')" and T: "set (snd s) \<subseteq> T"
      "set (deeds (nw_node (fst s) m) lb) \<subseteq> T"
    using assms(1) by (auto simp: room_step_def ml T_def)
  note st = net_step_node [OF net]
  define idof where "idof m' = pi_id (st_me (nw_node (fst s) m'))" for m'
  define fid where "fid m' l = idof (fst (far (m', l)))" for m' l
  have before: "trusted fj T (idof m') (fid m') (nw_node (fst s) m')" for m'
    using assms(3) T(1) trusted_mono unfolding net_trusted_def idof_def fid_def by blast
  have fl: "fluent (label_env lb) fj"
    using fluent_json [of "label_env lb"] assms(2) st(3,4) by (simp add: sound_net_def)
  have heard: "honest_payload fj T (fid m l) (idof m) bs" if "receives lb = Some (l, bs)" for l bs
  proof -
    obtain m2 l2 where far: "far (m, l) = (m2, l2)" by fastforce
    have "far (m2, l2) = (m, l)" using assms(2) far by (metis sound_net_def)
    then show ?thesis
      using trusted_wire [OF before, of l2 bs m2] st(5) [OF that] far by (simp add: fid_def)
  qed
  have here: "trusted fj T (idof m) (fid m) (nw_node (fst s') m)"
    by (rule fluent.trusted_node_step [OF fl before st(1) refl T(2) heard])
  then have after: "trusted fj T (idof m') (fid m') (nw_node (fst s') m')" for m'
    using before [of m'] st(2) [of m'] by (cases "m' = m") simp_all
  have ids: "pi_id (st_me (nw_node (fst s') m')) = idof m'" for m'
    using after [of m'] by (simp add: trusted_def trusted_voice_def voice_of_def)
  show "net_trusted far fj (set (snd s')) (fst s')"
    using after unfolding net_trusted_def ids fid_def T_def by simp
  show "pi_id (st_me (nw_node (fst s') m1)) = pi_id (st_me (nw_node (fst s) m1))"
    using ids by (simp add: idof_def)
qed

text \<open>Every deed is a call that a user made, under the id of that user's machine.\<close>

definition opens_room :: "label \<Rightarrow> bool" where
  "opens_room lb = (case lb of User _ (DoHost _ _ _) \<Rightarrow> True | _ \<Rightarrow> False)"

definition approves :: "label \<Rightarrow> bool" where
  "approves lb = (case lb of User _ (DoApprove _ accept) \<Rightarrow> accept | _ \<Rightarrow> False)"

definition types_line :: "label \<Rightarrow> i64 \<Rightarrow> rstr \<Rightarrow> bool" where
  "types_line lb ts body =
     (case lb of User env (DoSendChat text) \<Rightarrow> trim text = body \<and> e_ts env = ts | _ \<Rightarrow> False)"

definition deed_done :: "(nat \<Rightarrow> node) \<Rightarrow> (nat \<times> label) list \<Rightarrow> deed \<Rightarrow> bool" where
  "deed_done nodes ls d \<longleftrightarrow>
     (case d of
        Hosted k \<Rightarrow> \<exists>(m, lb) \<in> set ls. opens_room lb \<and> pi_id (st_me (nodes m)) = k
      | Approved k \<Rightarrow> \<exists>(m, lb) \<in> set ls. approves lb
      | Typed k name ts body \<Rightarrow>
          \<exists>(m, lb) \<in> set ls. types_line lb ts body \<and> pi_id (st_me (nodes m)) = k)"

lemma deed_done_more: "deed_done nodes ls d \<Longrightarrow> deed_done nodes (ls @ [ml]) d"
  by (auto simp: deed_done_def split: deed.splits)

lemma deeds_done:
  assumes "d \<in> set (deeds nd lb)" "pi_id (st_me nd) = pi_id (st_me (nodes m))"
  shows "deed_done nodes (ls @ [(m, lb)]) d"
proof (cases lb)
  case (User env a)
  then show ?thesis
    using assms
    by (cases a) (auto simp: deeds_def approvals_def approval_of_def deed_done_def
        opens_room_def approves_def types_line_def split: option.splits if_splits)
next
  case (Thread env t i)
  with assms show ?thesis by (simp add: deeds_def approvals_def)
qed

definition accounted ::
  "(endpoint \<Rightarrow> endpoint) \<Rightarrow> from_json \<Rightarrow> (nat \<Rightarrow> node) \<Rightarrow> (nat \<times> label) list \<Rightarrow>
   network \<times> deed list \<Rightarrow> bool" where
  "accounted far fj nodes ls s \<longleftrightarrow>
     net_trusted far fj (set (snd s)) (fst s) \<and>
     (\<forall>m. pi_id (st_me (nw_node (fst s) m)) = pi_id (st_me (nodes m))) \<and>
     (\<forall>d \<in> set (snd s). deed_done nodes ls d)"

lemma accounted_step:
  assumes "room_step far tj fj s ml s'" "sound_net far tj fj" "accounted far fj nodes ls s"
  shows "accounted far fj nodes (ls @ [ml]) s'"
proof -
  have old: "net_trusted far fj (set (snd s)) (fst s)" and
    ids: "\<And>m. pi_id (st_me (nw_node (fst s) m)) = pi_id (st_me (nodes m))"
    using assms(3) by (simp_all add: accounted_def)
  obtain m lb where ml: "ml = (m, lb)" by fastforce
  have "deed_done nodes (ls @ [ml]) d" if "d \<in> set (snd s')" for d
    using that assms(1,3) deed_done_more [of nodes ls d ml] deeds_done [of d "nw_node (fst s) m" lb nodes m ls] ids [of m] ml
    by (auto simp: room_step_def accounted_def)
  then show ?thesis
    using net_trusted_step [OF assms(1,2) old] ids by (simp add: accounted_def)
qed

interpretation accounting: run_invariant "room_step far tj fj"
  "\<lambda>ls s. sound_net far tj fj \<longrightarrow> accounted far fj nodes ls s" for far tj fj nodes
  by unfold_locales (blast intro: accounted_step)

lemma fresh_trusted:
  assumes "\<And>m. fresh_node (nodes m)"
  shows "net_trusted far fj T (network_start nodes)"
proof -
  have "trusted fj T (pi_id (st_me (nodes m))) fid (nodes m)" for m fid
    using assms [of m]
    by (auto simp: fresh_node_def trusted_def trusted_members_def trusted_voice_def members_def
        voice_of_def node_new_def sanitize_name_twice)
  then show ?thesis by (simp add: net_trusted_def network_start_def)
qed

lemma fresh_accounted:
  assumes "runs (room_step far tj fj) (network_start nodes, []) ls (nw, ds)" "sound_net far tj fj"
    and "\<And>m. fresh_node (nodes m)"
  shows "accounted far fj nodes ls (nw, ds)"
proof -
  have "accounted far fj nodes [] (network_start nodes, [])"
    using fresh_trusted [OF assms(3)] by (simp add: accounted_def network_start_def)
  then show ?thesis using accounting.holds_after [OF assms(1)] assms(2) by blast
qed

end
