(* ===== verification/Network_Claims.thy ===== *)
theory Network_Claims
  imports Network_Trust
begin

text \<open>
  What holds in every network of machines that run the program, whatever their users do and
  however their threads and messages interleave: who is known to whom, and who wrote what.
\<close>

section \<open>A room of two machines\<close>

text \<open>A network run on concrete labels, with its deeds.\<close>

fun net_run :: "(endpoint \<Rightarrow> endpoint) \<Rightarrow> network \<times> deed list \<Rightarrow> (nat \<times> label) list \<Rightarrow>
    (network \<times> deed list) option" where
  "net_run far s [] = Some s"
| "net_run far s (ml # ls) =
     (case net_exec far (fst s) ml of
        None \<Rightarrow> None
      | Some nw \<Rightarrow> net_run far (nw, snd s @ deeds (nw_node (fst s) (fst ml)) (snd ml)) ls)"

lemma net_run_runs:
  assumes "net_run far s ls = Some s'"
    and "list_all (\<lambda>ml. e_to_json (label_env (snd ml)) = tj \<and> e_from_json (label_env (snd ml)) = fj) ls"
  shows "runs (room_step far tj fj) s ls s'"
  using assms
proof (induction far s ls rule: net_run.induct)
  case (1 far s)
  then show ?case by auto
next
  case (2 far s ml ls)
  then obtain nw where nw: "net_exec far (fst s) ml = Some nw" by (auto split: option.splits)
  have "room_step far tj fj s ml (nw, snd s @ deeds (nw_node (fst s) (fst ml)) (snd ml))"
    using net_exec_step [OF nw] 2(3) by (simp add: room_step_def)
  then have "runs (room_step far tj fj) s [ml] (nw, snd s @ deeds (nw_node (fst s) (fst ml)) (snd ml))"
    by (rule runs_one)
  from runs_append [OF this 2(1) [OF nw]] 2(2,3) nw show ?case by simp
qed

text \<open>The messages of the run, and a JSON library that knows just these.\<close>

definition room_code_text :: rstr where
  "room_code_text = lit ''L-18000-0GFM0''"

definition ann :: peer_info where
  "ann = \<lparr>pi_id = lit ''al'', pi_name = lit ''Ann'', pi_addr = lit ''10.0.0.2:4000'', pi_fingerprint = lit ''AA''\<rparr>"

definition bob :: peer_info where
  "bob = \<lparr>pi_id = lit ''bo'', pi_name = lit ''Bob'', pi_addr = lit ''10.0.0.7:4001'', pi_fingerprint = lit ''BB''\<rparr>"

definition talk :: "control list" where
  "talk = [Hello PROTOCOL_VERSION room_code_text bob, Welcome room_code_text ann [],
     Chat (new_id (replicate 8 1)) (lit ''bo'') (lit ''Bob'') 7 (lit ''hi''),
     MeshHello PROTOCOL_VERSION room_code_text bob, MeshAck ann]"

fun place_of :: "control \<Rightarrow> control list \<Rightarrow> nat option" where
  "place_of c [] = None"
| "place_of c (d # ds) = (if c = d then Some 0 else map_option Suc (place_of c ds))"

definition talk_to_json :: to_json where
  "talk_to_json c = (case place_of c talk of None \<Rightarrow> Inl (lit ''unsupported'') | Some n \<Rightarrow> Inr [of_nat n])"

definition talk_from_json :: from_json where
  "talk_from_json bs =
     (case bs of
        [b] \<Rightarrow> if unat b < length talk then Inr (talk ! unat b) else Inl (lit ''unknown'')
      | _ \<Rightarrow> Inl (lit ''unknown''))"

definition talk_far :: "endpoint \<Rightarrow> endpoint" where
  "talk_far e = (if e = (0, 5) then (1, 7) else if e = (1, 7) then (0, 5) else e)"

lemma place_of_nth: "place_of c ds = Some n \<Longrightarrow> n < length ds \<and> ds ! n = c"
  by (induction ds arbitrary: n) (auto split: if_splits)

lemma talk_sound: "sound_net talk_far talk_to_json talk_from_json"
proof -
  have "talk_from_json bs = Inr c" if "talk_to_json c = Inr bs" for c bs
  proof -
    from that obtain n where n: "place_of c talk = Some n" "bs = [of_nat n]"
      by (auto simp: talk_to_json_def split: option.splits)
    from place_of_nth [OF n(1)] have 1: "n < 5" "talk ! n = c" by (auto simp: talk_def)
    then have "unat (of_nat n :: byte) = n" by (simp add: unat_of_nat)
    with n 1 show ?thesis by (simp add: talk_from_json_def talk_def)
  qed
  then show ?thesis by (auto simp: sound_net_def json_ok_def talk_far_def split: if_splits)
qed

definition talk_nodes :: "nat \<Rightarrow> node" where
  "talk_nodes m =
     (if m = 0 then node_new (lit ''al'') (lit ''AA'') (lit ''Ann'') sample_disk
      else node_new (lit ''bo'') (lit ''BB'') (lit ''Bob'') sample_disk)"

definition talk_env :: env where
  "talk_env = sample_env\<lparr>e_to_json := talk_to_json, e_from_json := talk_from_json\<rparr>"

definition talk_input :: "byte \<Rightarrow> task_input" where
  "talk_input b = \<lparr>in_accepted = Inr (5, lit ''10.0.0.7:41000''), in_connected = Inr 7,
     in_shaken = Inr (), in_received = Inr [KIND_CONTROL, b], in_opened = Inr []\<rparr>"

text \<open>
  Ann hosts, Bob joins with her code; her node accepts the connection and parks his request;
  she approves it; he is let in and says hi; she reads it.
\<close>

definition talk_run :: "(nat \<times> label) list" where
  "talk_run =
     [(0, User talk_env (DoHost Lan (secs 600) (Inr (0, lit ''10.0.0.2:4000'')))),
      (1, User talk_env (DoJoin Lan room_code_text (Inr (0, lit ''10.0.0.7:4001'')))),
      (1, Thread talk_env (Joining bob room_code_text) (talk_input 0)),
      (0, Thread talk_env (AcceptLoop 0) (talk_input 0)),
      (0, Thread talk_env (HandleIncoming 5 (lit ''10.0.0.7:41000'')) (talk_input 0)),
      (0, Thread talk_env (Greeting 5 (lit ''10.0.0.7'')) (talk_input 0)),
      (0, User talk_env (DoApprove (lit ''1'') True)),
      (1, Thread talk_env (AwaitWelcome 7) (talk_input 1)),
      (1, User talk_env (DoSendChat (lit ''hi''))),
      (0, Thread talk_env (Reader \<lparr>p_info = bob, p_link = 5\<rparr>) (talk_input 2))]"

lemma talk_happens:
  "case net_run talk_far (network_start talk_nodes, []) talk_run of
     None \<Rightarrow> False
   | Some (nw, ds) \<Rightarrow>
       hm_get (st_peers (nw_node nw 0)) (lit ''bo'') = Some \<lparr>p_info = bob, p_link = 5\<rparr> \<and>
       EvChat (lit ''bo'') (lit ''Bob'') 7 (lit ''hi'') False \<in> set (nd_events (nw_node nw 0))"
  by code_simp

lemma talk_runs:
  obtains nw ds where
    "runs (room_step talk_far talk_to_json talk_from_json) (network_start talk_nodes, []) talk_run (nw, ds)"
    "hm_get (st_peers (nw_node nw 0)) (lit ''bo'') = Some \<lparr>p_info = bob, p_link = 5\<rparr>"
    "EvChat (lit ''bo'') (lit ''Bob'') 7 (lit ''hi'') False \<in> set (nd_events (nw_node nw 0))"
proof -
  obtain nw ds where n: "net_run talk_far (network_start talk_nodes, []) talk_run = Some (nw, ds)"
    using talk_happens by (auto split: option.splits)
  have "runs (room_step talk_far talk_to_json talk_from_json) (network_start talk_nodes, []) talk_run (nw, ds)"
    by (rule net_run_runs [OF n]) (simp add: talk_run_def label_env_def talk_env_def)
  then show ?thesis using that talk_happens n by simp
qed

lemma talk_fresh: "fresh_node (talk_nodes m)"
  unfolding fresh_node_def talk_nodes_def by (cases "m = 0") auto

section \<open>The claims\<close>

text \<open>
  C1. No stranger gets into the mesh.  In every run of any number of machines from their
  start, in any interleaving, with messages delayed at will and links failing at any time: a
  peer that is registered anywhere under an id is connected over a link whose far end is the
  machine of that id, and that machine, like the one it is registered on, either hosted a room
  or was approved by the operator of a host.
\<close>

theorem mesh_admits_only_the_approved:
  assumes "runs (room_step far tj fj) (network_start nodes, []) ls (nw, ds)" "sound_net far tj fj"
    and "\<And>m. fresh_node (nodes m)" "hm_get (st_peers (nw_node nw m)) k = Some p"
  shows "pi_id (st_me (nodes (fst (far (m, p_link p))))) = k \<and>
    (\<forall>x \<in> {k, pi_id (st_me (nodes m))}.
       Approved x \<in> set ds \<or> (\<exists>(h, lb) \<in> set ls. opens_room lb \<and> pi_id (st_me (nodes h)) = x))"
proof -
  have acc: "accounted far fj nodes ls (nw, ds)" by (rule fresh_accounted [OF assms(1-3)])
  have "(k, p) \<in> set (m_peers (members (nw_node nw m)))"
    using hm_get_in [OF assms(4)] by (simp add: members_def)
  then have "vouched (set ds) k" "vouched (set ds) (pi_id (st_me (nodes m)))"
    "pi_id (st_me (nodes (fst (far (m, p_link p))))) = k"
    using acc unfolding accounted_def net_trusted_def trusted_def trusted_members_def by fastforce+
  moreover have "\<exists>(h, lb) \<in> set ls. opens_room lb \<and> pi_id (st_me (nodes h)) = x" if "Hosted x \<in> set ds" for x
    using acc that by (auto simp: accounted_def deed_done_def)
  ultimately show ?thesis unfolding vouched_def by blast
qed

theorem mesh_admits_only_the_approved_witness:
  "\<exists>ds. pi_id (st_me (talk_nodes (fst (talk_far (0, 5))))) = lit ''bo'' \<and>
    (\<forall>x \<in> {lit ''bo'', pi_id (st_me (talk_nodes 0))}.
       Approved x \<in> set ds \<or>
       (\<exists>(h, lb) \<in> set talk_run. opens_room lb \<and> pi_id (st_me (talk_nodes h)) = x))"
proof -
  obtain nw ds where r:
    "runs (room_step talk_far talk_to_json talk_from_json) (network_start talk_nodes, []) talk_run (nw, ds)"
    "hm_get (st_peers (nw_node nw 0)) (lit ''bo'') = Some \<lparr>p_info = bob, p_link = 5\<rparr>"
    by (rule talk_runs)
  show ?thesis
    using mesh_admits_only_the_approved [OF r(1) talk_sound talk_fresh r(2)] by (intro exI [of _ ds]) simp
qed

text \<open>
  C2. Nobody puts words into another's mouth.  In every such run, a chat line that is shown on
  a machine as somebody else's was typed: a user of the machine whose id the line carries
  sent that very text, and the time it shows is the time of that machine.
\<close>

theorem every_line_was_typed_by_its_author:
  assumes "runs (room_step far tj fj) (network_start nodes, []) ls (nw, ds)" "sound_net far tj fj"
    and "\<And>m. fresh_node (nodes m)"
    and "EvChat sender name ts body False \<in> set (nd_events (nw_node nw m))"
  shows "\<exists>(a, lb) \<in> set ls. types_line lb ts body \<and> pi_id (st_me (nodes a)) = sender"
proof -
  have acc: "accounted far fj nodes ls (nw, ds)" by (rule fresh_accounted [OF assms(1-3)])
  have "EvChat sender name ts body False \<in> set (vc_chats (voice_of fj (nw_node nw m)))"
    using assms(4) by (simp add: voice_of_def)
  then have "Typed sender name ts body \<in> set ds"
    using acc unfolding accounted_def net_trusted_def trusted_def trusted_voice_def by fastforce
  then show ?thesis using acc by (auto simp: accounted_def deed_done_def)
qed

theorem every_line_was_typed_by_its_author_witness:
  "\<exists>(a, lb) \<in> set talk_run. types_line lb 7 (lit ''hi'') \<and> pi_id (st_me (talk_nodes a)) = lit ''bo''"
proof -
  obtain nw ds where r:
    "runs (room_step talk_far talk_to_json talk_from_json) (network_start talk_nodes, []) talk_run (nw, ds)"
    "EvChat (lit ''bo'') (lit ''Bob'') 7 (lit ''hi'') False \<in> set (nd_events (nw_node nw 0))"
    by (rule talk_runs)
  show ?thesis by (rule every_line_was_typed_by_its_author [OF r(1) talk_sound talk_fresh r(2)])
qed

end
