(* ===== verification/Ui_Admission.thy ===== *)
theory Ui_Admission
  imports Ui_Requests Network_Claims
begin

text \<open>
  From the click to the registry: every step of the program, be it a click, a tick, a worker, a
  dialog or a thread of a node, is for each node a run of the membership protocol, and what an
  approval enrols goes back to a click on \<open>Accept\<close>.
\<close>

section \<open>What a step of the program is for its nodes\<close>

text \<open>
  The membership at a position of the list of nodes; where no node was started yet, that of a
  new one, so that starting a node changes nothing.
\<close>

definition fresh_members :: membership where
  "fresh_members = \<lparr>m_role = None, m_running = False, m_peers = [], m_roster = [], m_pending = [], m_seq = 1\<rparr>"

definition members_at :: "desk \<Rightarrow> nat \<Rightarrow> membership" where
  "members_at d n = (if n < length (ds_nodes d) then members (ds_nodes d ! n) else fresh_members)"

lemma members_at_same: "ds_nodes d' = ds_nodes d \<Longrightarrow> members_at d' = members_at d"
  by (simp add: members_at_def fun_eq_iff)

lemma members_node_new [simp]: "members (node_new pid fp name dk) = fresh_members"
  by (simp add: members_def node_new_def fresh_members_def)

lemma members_disk [simp]: "members (nd\<lparr>nd_disk := dk\<rparr>) = members nd"
  by (simp add: members_def)

text \<open>
  Every node takes steps of the membership protocol; where \<open>only\<close> holds it behaves as a host,
  and enrols nobody but \<open>ids\<close>.
\<close>

definition moves :: "(nat \<Rightarrow> bool) \<Rightarrow> (nat \<Rightarrow> peer_id set) \<Rightarrow> desk \<Rightarrow> desk \<Rightarrow> bool" where
  "moves only ids d d' \<longleftrightarrow>
     (\<forall>n. \<exists>ms. runs mstep (members_at d n) ms (members_at d' n) \<and>
        (only n \<longrightarrow> list_all hosting_mlabel ms \<and> set (approved_ids ms) \<subseteq> ids n))"

abbreviation calm :: "desk \<Rightarrow> desk \<Rightarrow> bool" where
  "calm \<equiv> moves (\<lambda>_. True) (\<lambda>_. {})"

lemma calm_same: "members_at d' = members_at d \<Longrightarrow> moves only ids d d'"
  by (auto simp: moves_def intro!: exI [of _ "[]"])

lemma calm_nodes: "ds_nodes d' = ds_nodes d \<Longrightarrow> moves only ids d d'"
  by (rule calm_same [OF members_at_same])

lemma moves_trans: "moves only ids d d1 \<Longrightarrow> moves only ids d1 d' \<Longrightarrow> moves only ids d d'"
  unfolding moves_def
proof
  fix n
  assume a: "\<forall>n. \<exists>ms. runs mstep (members_at d n) ms (members_at d1 n) \<and>
      (only n \<longrightarrow> list_all hosting_mlabel ms \<and> set (approved_ids ms) \<subseteq> ids n)"
    and b: "\<forall>n. \<exists>ms. runs mstep (members_at d1 n) ms (members_at d' n) \<and>
      (only n \<longrightarrow> list_all hosting_mlabel ms \<and> set (approved_ids ms) \<subseteq> ids n)"
  obtain ms where ms: "runs mstep (members_at d n) ms (members_at d1 n)"
    "only n \<longrightarrow> list_all hosting_mlabel ms \<and> set (approved_ids ms) \<subseteq> ids n" using a by blast
  obtain ks where ks: "runs mstep (members_at d1 n) ks (members_at d' n)"
    "only n \<longrightarrow> list_all hosting_mlabel ks \<and> set (approved_ids ks) \<subseteq> ids n" using b by blast
  show "\<exists>ms. runs mstep (members_at d n) ms (members_at d' n) \<and>
      (only n \<longrightarrow> list_all hosting_mlabel ms \<and> set (approved_ids ms) \<subseteq> ids n)"
    by (rule exI [of _ "ms @ ks"]) (use runs_append [OF ms(1) ks(1)] ms(2) ks(2) in auto)
qed

lemma moves_weaken: "calm d d' \<Longrightarrow> moves only ids d d'"
  unfolding moves_def by (metis empty_subsetI order_trans)

lemma moves_then_same: "moves only ids d d1 \<Longrightarrow> ds_nodes d' = ds_nodes d1 \<Longrightarrow> moves only ids d d'"
  by (simp add: moves_def members_at_same [of d' d1])

lemma moves_after_same: "ds_nodes d1 = ds_nodes d \<Longrightarrow> moves only ids d1 d' \<Longrightarrow> moves only ids d d'"
  by (simp add: moves_def members_at_same [of d1 d])

lemma moves_at_node:
  assumes "\<exists>ms. refines (ds_nodes d ! n) ms nd \<and>
      (only n \<longrightarrow> list_all hosting_mlabel ms \<and> set (approved_ids ms) \<subseteq> ids n)"
    and "ds_nodes d' = (ds_nodes d)[n := nd]"
  shows "moves only ids d d'"
  unfolding moves_def
proof
  fix m
  show "\<exists>ms. runs mstep (members_at d m) ms (members_at d' m) \<and>
      (only m \<longrightarrow> list_all hosting_mlabel ms \<and> set (approved_ids ms) \<subseteq> ids m)"
  proof (cases "m = n \<and> n < length (ds_nodes d)")
    case True
    with assms show ?thesis by (auto simp: members_at_def refines_def)
  next
    case False
    then have "members_at d' m = members_at d m"
      using assms(2) by (auto simp: members_at_def nth_list_update_neq list_update_beyond)
    then show ?thesis by (intro exI [of _ "[]"]) (auto intro: runs.run_start)
  qed
qed

lemma moves_on_node:
  assumes "on_node n f d = (r, d')"
    and "\<And>dk. \<exists>ms. refines (ds_nodes d ! n) ms (snd (f ((ds_nodes d ! n)\<lparr>nd_disk := dk\<rparr>))) \<and>
      (only n \<longrightarrow> list_all hosting_mlabel ms \<and> set (approved_ids ms) \<subseteq> ids n)"
  shows "moves only ids d d'"
proof (rule moves_at_node)
  show "ds_nodes d' = (ds_nodes d)[n := snd (f ((ds_nodes d ! n)\<lparr>nd_disk := ds_disk d\<rparr>))]"
    using assms(1) by (auto simp: on_node_def split: prod.splits)
qed (rule assms(2))

text \<open>Operations of a node that leave the membership alone, and leaving.\<close>

lemma calm_on_node:
  assumes "on_node n f d = (r, d')" "\<And>nd. members (snd (f nd)) = members nd"
  shows "calm d d'"
proof (rule moves_on_node [OF assms(1)])
  fix dk
  show "\<exists>ms. refines (ds_nodes d ! n) ms (snd (f ((ds_nodes d ! n)\<lparr>nd_disk := dk\<rparr>))) \<and>
      (True \<longrightarrow> list_all hosting_mlabel ms \<and> set (approved_ids ms) \<subseteq> {})"
    by (rule exI [of _ "[]"]) (simp add: refines_same assms(2))
qed

lemma refines_disk: "refines (nd\<lparr>nd_disk := dk\<rparr>) ms nd' = refines nd ms nd'"
  by (simp add: refines_def)

lemma calm_leave: "calm d (node_leave env n d)"
proof -
  obtain r d' where o: "on_node n (\<lambda>nd. ((), leave env nd)) d = (r, d')" by (rule prod.exhaust)
  have "calm d d'"
  proof (rule moves_on_node [OF o])
    fix dk
    show "\<exists>ms. refines (ds_nodes d ! n) ms (snd ((), leave env ((ds_nodes d ! n)\<lparr>nd_disk := dk\<rparr>))) \<and>
      (True \<longrightarrow> list_all hosting_mlabel ms \<and> set (approved_ids ms) \<subseteq> {})"
      using refines_leave [of "(ds_nodes d ! n)\<lparr>nd_disk := dk\<rparr>" env] by (auto simp: refines_disk)
  qed
  then show ?thesis by (simp add: node_leave_def o)
qed

lemma calm_leave_current: "calm d (leave_current env d)"
  by (auto simp: leave_current_def calm_same intro: moves_then_same [OF calm_leave] split: option.splits)

lemma calm_report: "calm d (snd r) \<Longrightarrow> calm d (report msg r)"
  by (auto simp: report_def intro: moves_then_same split: prod.splits sum.splits)

section \<open>The parts of the program\<close>

lemma calm_handle_note: "calm d (handle_note env msg d)"
  by (auto simp: handle_note_def reset_models_ok intro: calm_nodes moves_then_same [OF calm_leave_current]
      split: ui_msg.splits)

lemma calm_pump_notes: "calm d (pump_notes env d)"
proof -
  have "calm d (fold (handle_note env) msgs d)" for msgs and d :: desk
    by (induction msgs arbitrary: d) (auto intro: calm_nodes moves_trans [OF calm_handle_note])
  from moves_after_same [OF _ this, of "d\<lparr>ap_ui_rx := []\<rparr>" d "ap_ui_rx d"] show ?thesis
    by (simp add: pump_notes_def)
qed

lemma pump_events_nodes: "pump_events clock env m d = (b, d') \<Longrightarrow> ds_nodes d' = ds_nodes d \<and> ds_jobs d' = ds_jobs d"
proof (induction m arbitrary: d b)
  case (Suc m)
  show ?case
  proof (cases "next_event d")
    case (Some e)
    obtain ev d1 where e: "e = (ev, d1)" by fastforce
    obtain b2 d2 where h: "handle_event clock env ev d1 = (b2, d2)" by fastforce
    obtain b3 where "pump_events clock env m d2 = (b3, d')"
      using Suc.prems Some e h by (auto split: prod.splits)
    moreover have "ds_nodes d1 = ds_nodes d \<and> ds_jobs d1 = ds_jobs d"
      using Some e by (auto simp: next_event_def split: option.splits if_splits)
    ultimately show ?thesis using Suc.IH handle_event_frame(3,5) [OF h] by simp
  qed (use Suc.prems in simp)
qed simp

lemma calm_pump: "calm d (pump clock env d)"
proof -
  obtain b d1 where p: "pump_events clock env MAX_EVENTS_PER_TICK (pump_notes env d) = (b, d1)" by fastforce
  show ?thesis
    by (rule moves_then_same [OF calm_pump_notes [where env = env]])
      (simp add: pump_def p update_expiry_def Let_def pump_events_nodes [OF p])
qed

text \<open>A new node, before it has done anything, is a fresh one.\<close>

lemma calm_start_node:
  assumes "start_node env created d = (n, d')"
  shows "calm d d'"
proof (cases "ds_nodes d' = ds_nodes d")
  case True
  then show ?thesis by (rule calm_same [OF members_at_same])
next
  case False
  then obtain pid fp where d': "ds_nodes d' = ds_nodes (leave_current env
      (d\<lparr>ds_nodes := ds_nodes d @ [node_new pid fp (trim (w_display_name d)) (ds_disk d)]\<rparr>))"
    using assms by (auto simp: start_node_def Let_def reset_models_ok split: if_splits sum.splits)
  let ?d1 = "d\<lparr>ds_nodes := ds_nodes d @ [node_new pid fp (trim (w_display_name d)) (ds_disk d)]\<rparr>"
  have "members_at ?d1 = members_at d"
    by (auto simp: members_at_def fun_eq_iff nth_append less_Suc_eq)
  then have "calm d ?d1" by (rule calm_same)
  then show ?thesis by (rule moves_trans) (rule moves_then_same [OF calm_leave_current d'])
qed

lemma calm_click_start: "calm d (click_host env created d)" "calm d (click_join env created d)"
proof -
  obtain k d1 where m: "mode_of d = (k, d1)" by fastforce
  obtain n d2 where s: "start_node env created d1 = (n, d2)" by fastforce
  have nodes: "ds_nodes d1 = ds_nodes d" using m by (auto simp: mode_of_def split: option.splits)
  then have "calm d d2" using moves_after_same [OF _ calm_start_node [OF s]] by simp
  then have "ds_nodes d' = ds_nodes d \<or> ds_nodes d' = ds_nodes d2 \<Longrightarrow> calm d d'" for d'
    using calm_nodes moves_then_same by blast
  note this [intro!]
  show "calm d (click_host env created d)"
    by (auto simp: click_host_def start_job_def m s nodes split: option.splits)
  show "calm d (click_join env created d)"
    by (auto simp: click_join_def start_job_def Let_def m s nodes split: option.splits)
qed

lemma calm_finish_offer:
  assumes "finish_offer env n transfer save_to d = Ret d'"
  shows "calm d d'"
proof -
  let ?d1 = "show_next_offer (d\<lparr>ap_offers := filter (\<lambda>(i, _). i \<noteq> transfer) (ap_offers d)\<rparr>)"
  obtain r nd where r: "respond_offer env transfer save_to ((ds_nodes ?d1 ! n)\<lparr>nd_disk := ds_disk ?d1\<rparr>) = Ret (r, nd)"
    "ds_nodes d' = (ds_nodes ?d1)[n := nd]"
    using assms by (auto simp: finish_offer_def Let_def split: run.splits sum.splits)
  show ?thesis
  proof (rule moves_at_node)
    have "members nd = members (ds_nodes d ! n)" using members_respond [OF r(1)] by simp
    then show "\<exists>ms. refines (ds_nodes d ! n) ms nd \<and>
        (True \<longrightarrow> list_all hosting_mlabel ms \<and> set (approved_ids ms) \<subseteq> {})"
      by (intro exI [of _ "[]"]) (simp add: refines_same)
  qed (use r(2) in simp)
qed

lemma calm_click:
  assumes "on_click env c d = Ret d'"
  shows "calm d d'"
proof (cases c)
  case (ClickHost created)
  with assms calm_click_start(1) show ?thesis by (auto simp: on_click_def)
next
  case (ClickJoin created)
  with assms calm_click_start(2) show ?thesis by (auto simp: on_click_def)
next
  case ClickSend
  with assms show ?thesis
    by (auto simp: on_click_def click_send_def Let_def
        intro: calm_nodes moves_then_same [OF calm_on_node]
        split: option.splits sum.splits prod.splits if_splits)
next
  case (ClickOffer accept)
  with assms show ?thesis
    by (auto simp: on_click_def click_offer_def open_dialog_def intro: calm_nodes calm_finish_offer
        split: option.splits if_splits)
next
  case ClickReopen
  with assms show ?thesis
    by (auto simp: on_click_def click_reopen_def
        intro: calm_nodes moves_then_same [OF calm_on_node]
        split: option.splits sum.splits prod.splits)
next
  case ClickLeave
  have "ds_nodes (click_leave env d) = ds_nodes (leave_current env d)"
    by (simp add: click_leave_def reset_models_ok)
  with ClickLeave assms show ?thesis by (auto simp: on_click_def intro: moves_then_same [OF calm_leave_current])
qed (use assms in \<open>auto simp: on_click_def ui_ops click_approve_def
       click_send_file_def click_export_def click_copy_def intro!: calm_nodes
       split: option.splits sum.splits if_splits\<close>)

lemma calm_answer:
  assumes "on_answer u g a d = Ret d'"
  shows "calm d d'"
proof (cases g)
  case (SaveOffer n transfer)
  with assms show ?thesis
    by (auto simp: on_answer_def offer_saved_def intro: calm_nodes calm_finish_offer split: option.splits)
next
  case (PickFile n)
  with assms show ?thesis
    by (auto simp: on_answer_def file_picked_def error_or_clear_def
        intro: calm_nodes moves_then_same [OF calm_on_node] split: option.splits prod.splits)
next
  case (SaveTranscript n)
  with assms show ?thesis
    by (auto simp: on_answer_def transcript_saved_def
        intro: calm_nodes moves_then_same [OF calm_on_node] split: option.splits prod.splits sum.splits)
qed

section \<open>A step of the program\<close>

text \<open>
  The labels under which the node at position \<open>n\<close> only hosts: no join runs on it, and its
  threads get no announcement from a member.
\<close>

definition hosts_only :: "nat \<Rightarrow> ui_env \<times> desk_label \<Rightarrow> bool" where
  "hosts_only n l \<longleftrightarrow>
     (case snd l of
        Worker j i \<Rightarrow>
          (case j of JobJoin m _ _ \<Rightarrow> m \<noteq> n | JobJoining m _ _ \<Rightarrow> m \<noteq> n | _ \<Rightarrow> True)
      | Engine m lb \<Rightarrow> m = n \<longrightarrow> hosting_label lb
      | _ \<Rightarrow> True)"

definition admissions :: "desk \<Rightarrow> desk_label \<Rightarrow> nat \<Rightarrow> peer_id set" where
  "admissions d lb n =
     (case lb of
        Worker (JobApprove m req accept) i \<Rightarrow>
          if m = n then set (approval_of (ds_nodes d ! n) req accept) else {}
      | _ \<Rightarrow> {})"

lemma approval_of_disk [simp]: "approval_of (nd\<lparr>nd_disk := dk\<rparr>) req accept = approval_of nd req accept"
  by (simp add: approval_of_def)

lemma moves_report: "moves only ids d (snd r) \<Longrightarrow> moves only ids d (report msg r)"
  by (auto simp: report_def intro: moves_then_same split: prod.splits sum.splits)

lemma moves_job:
  "moves (\<lambda>n. hosts_only n (u, Worker j i)) (admissions d (Worker j i)) d (run_job env i j d)"
proof (cases j)
  case (JobHost n kind)
  obtain r d' where o: "on_node n (host env kind DEFAULT_CODE_TTL (ji_listened i)) d = (r, d')" by fastforce
  have "calm d d'"
  proof (rule moves_on_node [OF o])
    fix dk
    show "\<exists>ms. refines (ds_nodes d ! n) ms (snd (host env kind DEFAULT_CODE_TTL (ji_listened i) ((ds_nodes d ! n)\<lparr>nd_disk := dk\<rparr>))) \<and>
      (True \<longrightarrow> list_all hosting_mlabel ms \<and> set (approved_ids ms) \<subseteq> {})"
      using refines_host [of "(ds_nodes d ! n)\<lparr>nd_disk := dk\<rparr>" env kind DEFAULT_CODE_TTL "ji_listened i"]
      by (auto simp: refines_disk)
  qed
  then show ?thesis by (simp add: run_job_def JobHost o moves_report moves_weaken)
next
  case (JobJoin n kind code)
  obtain r d' where o: "on_node n (join_open kind code (ji_listened i)) d = (r, d')" by fastforce
  have "moves (\<lambda>n. hosts_only n (u, Worker j i)) (admissions d (Worker j i)) d d'"
    by (rule moves_on_node [OF o])
      (use refines_join_open [of "(ds_nodes d ! n)\<lparr>nd_disk := dk\<rparr>" kind code "ji_listened i" for dk]
        in \<open>auto simp: refines_disk hosts_only_def JobJoin\<close>)
  then show ?thesis
    by (auto simp: run_job_def JobJoin o start_job_def report_def intro: moves_then_same split: sum.splits)
next
  case (JobJoining n me room)
  obtain r d' where o: "on_node n (join_call env me room (ji_connected i) (ji_shaken i)) d = (r, d')" by fastforce
  have "moves (\<lambda>n. hosts_only n (u, Worker j i)) (admissions d (Worker j i)) d d'"
    by (rule moves_on_node [OF o])
      (use refines_join_call [of "(ds_nodes d ! n)\<lparr>nd_disk := dk\<rparr>" env me room "ji_connected i" "ji_shaken i" for dk]
        in \<open>auto simp: refines_disk hosts_only_def JobJoining\<close>)
  then show ?thesis by (simp add: run_job_def JobJoining o moves_report)
next
  case (JobApprove n req accept)
  obtain r d' where o: "on_node n (approve env req accept) d = (r, d')" by fastforce
  have "moves (\<lambda>n. hosts_only n (u, Worker j i)) (admissions d (Worker j i)) d d'"
    by (rule moves_on_node [OF o])
      (use refines_approve [of "(ds_nodes d ! n)\<lparr>nd_disk := dk\<rparr>" env req accept for dk]
        in \<open>auto simp: refines_disk admissions_def JobApprove\<close>)
  then show ?thesis by (simp add: run_job_def JobApprove o moves_report)
qed

lemma moves_step:
  assumes "desk_step d l d'"
  shows "moves (\<lambda>n. hosts_only n l) (admissions d (snd l)) d d'"
  using assms
proof cases
  case (click c u)
  then show ?thesis by (auto intro: moves_weaken calm_click)
next
  case (tick u)
  then show ?thesis by (auto intro: moves_weaken calm_pump)
next
  case (worker j u i)
  then have "moves (\<lambda>n. hosts_only n l) (admissions (d\<lparr>ds_jobs := remove1 j (ds_jobs d)\<rparr>) (snd l))
      (d\<lparr>ds_jobs := remove1 j (ds_jobs d)\<rparr>) d'"
    by (simp add: moves_job)
  moreover have "admissions (d\<lparr>ds_jobs := remove1 j (ds_jobs d)\<rparr>) = admissions d"
    by (auto simp: admissions_def fun_eq_iff split: desk_label.splits job.splits)
  ultimately show ?thesis using moves_after_same [of "d\<lparr>ds_jobs := remove1 j (ds_jobs d)\<rparr>" d] by simp
next
  case (answer g u a)
  then have "calm (d\<lparr>ds_dialogs := remove1 g (ds_dialogs d)\<rparr>) d'" by (auto intro: calm_answer)
  from moves_weaken [OF moves_after_same [OF _ this]] show ?thesis by simp
next
  case (engine n env t i nd u)
  from node_step_refines [OF engine(4)] obtain ms where
    ms: "refines (ds_nodes d ! n) ms nd" "fits ((ds_nodes d ! n)\<lparr>nd_disk := ds_disk d\<rparr>) (Thread env t i) ms"
    by (auto simp: refines_disk)
  show ?thesis
    by (rule moves_at_node [where n = n and nd = nd])
      (use ms engine in \<open>auto simp: fits_def approvals_def hosts_only_def\<close>)
qed

section \<open>Approvals come from clicks\<close>

lemma jobs_frame:
  "ds_jobs (report msg r) = ds_jobs (snd r)" "on_node n f d = (x, d') \<Longrightarrow> ds_jobs d' = ds_jobs d"
  "ds_jobs (node_leave env n d) = ds_jobs d" "mode_of d = (k, d1) \<Longrightarrow> ds_jobs d1 = ds_jobs d"
  "start_node env created d = (m, d2) \<Longrightarrow> ds_jobs d2 = ds_jobs d"
proof -
  show on: "on_node n f d = (x, d') \<Longrightarrow> ds_jobs d' = ds_jobs d" for n f x d' and d :: desk
    by (auto simp: on_node_def split: prod.splits)
  show "ds_jobs (node_leave env n d) = ds_jobs d"
    by (simp add: node_leave_def on_node_def)
  show "ds_jobs (report msg r) = ds_jobs (snd r)"
    by (auto simp: report_def split: prod.splits sum.splits)
  show "mode_of d = (k, d1) \<Longrightarrow> ds_jobs d1 = ds_jobs d"
    by (auto simp: mode_of_def split: option.splits)
  show "start_node env created d = (m, d2) \<Longrightarrow> ds_jobs d2 = ds_jobs d"
    by (auto simp: start_node_def Let_def reset_models_ok leave_current_ok split: if_splits sum.splits)
qed

lemma on_node_jobs [simp]: "ds_jobs (snd (on_node n f d)) = ds_jobs d"
  by (simp add: on_node_def split: prod.splits)

lemma pump_jobs: "ds_jobs (pump clock env d) = ds_jobs d"
proof -
  have "ds_jobs (handle_note env msg d) = ds_jobs d" for msg and d :: desk
    by (simp add: handle_note_def reset_models_ok leave_current_ok split: ui_msg.splits)
  then have "ds_jobs (fold (handle_note env) msgs d) = ds_jobs d" for msgs and d :: desk
    by (induction msgs arbitrary: d) simp_all
  then have told: "ds_jobs (pump_notes env d) = ds_jobs d" by (simp add: pump_notes_def)
  obtain b d1 where p: "pump_events clock env MAX_EVENTS_PER_TICK (pump_notes env d) = (b, d1)" by fastforce
  show ?thesis by (simp add: pump_def p update_expiry_def Let_def pump_events_nodes [OF p] told)
qed

lemma finish_offer_jobs: "finish_offer env n transfer save_to d = Ret d' \<Longrightarrow> ds_jobs d' = ds_jobs d"
  by (auto simp: finish_offer_def Let_def split: run.splits sum.splits)

lemma click_jobs:
  assumes "on_click env c d = Ret d'" "JobApprove n req accept \<in> set (ds_jobs d')"
  shows "JobApprove n req accept \<in> set (ds_jobs d) \<or> c = ClickApprove req accept \<and> ap_node d = Some n"
proof (cases c)
  case (ClickHost created)
  obtain k d1 where m: "mode_of d = (k, d1)" by fastforce
  obtain n' d2 where s: "start_node env created d1 = (n', d2)" by fastforce
  from ClickHost assms jobs_frame(4) [OF m] jobs_frame(5) [OF s] show ?thesis
    by (auto simp: on_click_def click_host_def start_job_def m s split: option.splits)
next
  case (ClickJoin created)
  obtain k d1 where m: "mode_of d = (k, d1)" by fastforce
  obtain n' d2 where s: "start_node env created d1 = (n', d2)" by fastforce
  from ClickJoin assms jobs_frame(4) [OF m] jobs_frame(5) [OF s] show ?thesis
    by (auto simp: on_click_def click_join_def start_job_def Let_def m s split: option.splits if_splits)
next
  case (ClickOffer b)
  with assms show ?thesis
    by (auto simp: on_click_def click_offer_def open_dialog_def dest: finish_offer_jobs split: option.splits if_splits)
qed (use assms in \<open>auto simp: on_click_def click_host_def click_join_def click_approve_def click_send_def
       click_send_file_def click_export_def click_copy_def click_reopen_def click_leave_def ui_ops
       reset_models_ok leave_current_ok jobs_frame(3)
       dest: jobs_frame(2,4,5) split: option.splits if_splits prod.splits sum.splits\<close>)

lemma answer_jobs: "on_answer u g a d = Ret d' \<Longrightarrow> ds_jobs d' = ds_jobs d"
  by (cases g) (auto simp: on_answer_def offer_saved_def file_picked_def transcript_saved_def error_or_clear_def
      dest: jobs_frame(2) finish_offer_jobs split: option.splits prod.splits sum.splits)

lemma step_jobs:
  assumes "desk_step d (u, lb) d'" "JobApprove n req accept \<in> set (ds_jobs d')"
  shows "JobApprove n req accept \<in> set (ds_jobs d) \<or>
    lb = Click (ClickApprove req accept) \<and> ap_node d = Some n \<and> req \<in> rr_req ` set (ap_requests d)"
  using assms(1)
proof cases
  case (click c)
  then have "JobApprove n req accept \<in> set (ds_jobs d) \<or> c = ClickApprove req accept \<and> ap_node d = Some n"
    using click_jobs [OF _ assms(2)] by blast
  with click show ?thesis by (auto simp: active_def Let_def)
next
  case tick
  then show ?thesis using assms(2) by (simp add: pump_jobs)
next
  case (worker j i)
  have "set (ds_jobs d') \<subseteq> set (ds_jobs d) \<union> {JobJoining n' me room | n' me room. True}"
    using worker set_remove1_subset [of j "ds_jobs d"]
    by (cases j) (auto simp: run_job_def jobs_frame(1) start_job_def dest!: jobs_frame(2) split: prod.splits sum.splits)
  then show ?thesis using assms(2) by auto
next
  case (answer g a)
  then show ?thesis using assms(2) answer_jobs by fastforce
next
  case (engine n t env i nd)
  then show ?thesis using assms(2) by simp
qed

section \<open>Every run of the program\<close>

text \<open>The click behind an approval: made on the room of that node, on a row that was on screen.\<close>

definition clicked :: "disk \<Rightarrow> (ui_env \<times> desk_label) list \<Rightarrow> nat \<Rightarrow> rstr \<Rightarrow> bool \<Rightarrow> bool" where
  "clicked dk ls n req accept \<longleftrightarrow>
     (\<exists>ls0 u ls1 d0. ls = ls0 @ (u, Click (ClickApprove req accept)) # ls1 \<and>
        runs desk_step (desk_start dk) ls0 d0 \<and> ap_node d0 = Some n \<and>
        req \<in> rr_req ` set (ap_requests d0))"

text \<open>The approval of an id: an accepting click, and then its worker, when the request had that id.\<close>

definition let_in :: "disk \<Rightarrow> (ui_env \<times> desk_label) list \<Rightarrow> nat \<Rightarrow> peer_id \<Rightarrow> bool" where
  "let_in dk ls n k \<longleftrightarrow>
     (\<exists>ls1 u req i ls2 d1 pd. ls = ls1 @ (u, Worker (JobApprove n req True) i) # ls2 \<and>
        clicked dk ls1 n req True \<and> runs desk_step (desk_start dk) ls1 d1 \<and>
        hm_get (st_pending (ds_nodes d1 ! n)) req = Some pd \<and> pi_id (pd_info pd) = k)"

definition admission_ok :: "disk \<Rightarrow> (ui_env \<times> desk_label) list \<Rightarrow> desk \<Rightarrow> bool" where
  "admission_ok dk ls d \<longleftrightarrow>
     runs desk_step (desk_start dk) ls d \<and>
     (\<forall>n req accept. JobApprove n req accept \<in> set (ds_jobs d) \<longrightarrow> clicked dk ls n req accept) \<and>
     (\<forall>n. \<exists>ms. runs mstep fresh_members ms (members_at d n) \<and>
        (list_all (hosts_only n) ls \<longrightarrow>
           list_all hosting_mlabel ms \<and> (\<forall>k \<in> set (approved_ids ms). let_in dk ls n k)))"

lemma clicked_more: "clicked dk ls n req accept \<Longrightarrow> clicked dk (ls @ [l]) n req accept"
  unfolding clicked_def by fastforce

lemma let_in_more: "let_in dk ls n k \<Longrightarrow> let_in dk (ls @ [l]) n k"
  unfolding let_in_def by fastforce

lemma admission_ok_step:
  assumes step: "desk_step d l d'" and ok: "admission_ok dk ls d"
  shows "admission_ok dk (ls @ [l]) d'"
  unfolding admission_ok_def
proof (intro conjI allI impI)
  obtain u lb where l: "l = (u, lb)" by fastforce
  have run: "runs desk_step (desk_start dk) ls d" and
    jobs: "\<And>n req accept. JobApprove n req accept \<in> set (ds_jobs d) \<Longrightarrow> clicked dk ls n req accept"
    using ok by (simp_all add: admission_ok_def)
  from run step show "runs desk_step (desk_start dk) (ls @ [l]) d'" by (rule runs.run_step)
  show "clicked dk (ls @ [l]) n req accept" if "JobApprove n req accept \<in> set (ds_jobs d')" for n req accept
    using step_jobs [OF step [unfolded l] that]
  proof
    assume "JobApprove n req accept \<in> set (ds_jobs d)"
    then show ?thesis by (intro clicked_more jobs)
  next
    assume "lb = Click (ClickApprove req accept) \<and> ap_node d = Some n \<and> req \<in> rr_req ` set (ap_requests d)"
    with run l show ?thesis unfolding clicked_def by blast
  qed
  fix n
  obtain ms where ms: "runs mstep fresh_members ms (members_at d n)"
    "list_all (hosts_only n) ls \<longrightarrow>
       list_all hosting_mlabel ms \<and> (\<forall>k \<in> set (approved_ids ms). let_in dk ls n k)"
    using ok unfolding admission_ok_def by blast
  obtain ks where ks: "runs mstep (members_at d n) ks (members_at d' n)"
    "hosts_only n l \<longrightarrow> list_all hosting_mlabel ks \<and> set (approved_ids ks) \<subseteq> admissions d (snd l) n"
    using moves_step [OF step] unfolding moves_def by blast
  have new: "let_in dk (ls @ [l]) n k" if k: "k \<in> admissions d (snd l) n" for k
  proof -
    from k l obtain req i pd where r: "lb = Worker (JobApprove n req True) i"
      "hm_get (st_pending (ds_nodes d ! n)) req = Some pd" "pi_id (pd_info pd) = k"
      by (auto simp: admissions_def approval_of_def split: desk_label.splits job.splits if_splits option.splits)
        (metis (full_types))
    then have "JobApprove n req True \<in> set (ds_jobs d)" using step l by (auto elim: desk_step_WorkerE)
    with r l run jobs show ?thesis unfolding let_in_def by blast
  qed
  have "runs mstep fresh_members (ms @ ks) (members_at d' n)" by (rule runs_append [OF ms(1) ks(1)])
  moreover have "list_all hosting_mlabel (ms @ ks) \<and> (\<forall>k \<in> set (approved_ids (ms @ ks)). let_in dk (ls @ [l]) n k)"
    if "list_all (hosts_only n) (ls @ [l])"
    using that ms(2) ks(2) new by (auto intro: let_in_more)
  ultimately show "\<exists>ms. runs mstep fresh_members ms (members_at d' n) \<and>
      (list_all (hosts_only n) (ls @ [l]) \<longrightarrow>
         list_all hosting_mlabel ms \<and> (\<forall>k \<in> set (approved_ids ms). let_in dk (ls @ [l]) n k))"
    by blast
qed

interpretation admitting: run_invariant desk_step "admission_ok dk" for dk
  by unfold_locales (rule admission_ok_step)

lemma admission_ok_start: "admission_ok dk [] (desk_start dk)"
  by (auto simp: admission_ok_def desk_start_def members_at_def intro!: exI [of _ "[]"])

section \<open>A run\<close>

text \<open>The steps of the program as a function.\<close>

definition desk_exec :: "desk \<Rightarrow> ui_env \<times> desk_label \<Rightarrow> desk option" where
  "desk_exec d l =
     (case snd l of
        Click c \<Rightarrow>
          if active d c
          then (case on_click (ue_env (fst l)) c d of Panic \<Rightarrow> None | Ret d' \<Rightarrow> Some d') else None
      | Tick \<Rightarrow> Some (pump (ue_clock (fst l)) (ue_env (fst l)) d)
      | Worker j i \<Rightarrow>
          if j \<in> set (ds_jobs d)
          then Some (run_job (ue_env (fst l)) i j (d\<lparr>ds_jobs := remove1 j (ds_jobs d)\<rparr>)) else None
      | Answer g a \<Rightarrow>
          if g \<in> set (ds_dialogs d)
          then (case on_answer (fst l) g a (d\<lparr>ds_dialogs := remove1 g (ds_dialogs d)\<rparr>) of
                  Panic \<Rightarrow> None | Ret d' \<Rightarrow> Some d') else None
      | Engine n lb \<Rightarrow>
          (case lb of
             User _ _ \<Rightarrow> None
           | Thread _ _ _ \<Rightarrow>
               if n < length (ds_nodes d)
               then (case node_exec ((ds_nodes d ! n)\<lparr>nd_disk := ds_disk d\<rparr>) lb of
                       None \<Rightarrow> None
                     | Some nd \<Rightarrow> Some (d\<lparr>ds_nodes := (ds_nodes d)[n := nd], ds_disk := nd_disk nd\<rparr>))
               else None))"

fun desk_run :: "desk \<Rightarrow> (ui_env \<times> desk_label) list \<Rightarrow> desk option" where
  "desk_run d [] = Some d"
| "desk_run d (l # ls) = (case desk_exec d l of None \<Rightarrow> None | Some d' \<Rightarrow> desk_run d' ls)"

lemma desk_exec_step: "desk_exec d l = Some d' \<Longrightarrow> desk_step d l d'"
  by (cases l) (auto simp: desk_exec_def intro: desk_step.intros node_exec_step
      split: desk_label.splits label.splits run.splits option.splits if_splits)

lemma desk_run_runs: "desk_run d ls = Some d' \<Longrightarrow> runs desk_step d ls d'"
proof (induction d ls rule: desk_run.induct)
  case (2 d l ls)
  then obtain d1 where d1: "desk_exec d l = Some d1" "desk_run d1 ls = Some d'"
    by (auto split: option.splits)
  from runs_append [OF runs_one [of desk_step, OF desk_exec_step [OF d1(1)]] 2(1) [OF d1(1,2)]]
  show ?case by simp
qed auto

text \<open>
  Ann starts the program, hosts, is asked by Bob and lets him in.
\<close>

definition host_ui :: ui_env where
  "host_ui = \<lparr>ue_env = talk_env, ue_clock = \<lambda>_. [], ue_fmt = \<lambda>_. [], ue_json = \<lambda>_ _ _ _. Inr [],
     ue_display = \<lambda>p. p\<rparr>"

definition host_job :: job_input where
  "host_job = \<lparr>ji_listened = Inr (0, lit ''10.0.0.2:4000''), ji_connected = Inr 0, ji_shaken = Inr ()\<rparr>"

definition host_start :: "(ui_env \<times> desk_label) list" where
  "host_start = map (Pair host_ui)
     [Click (TypeName (lit ''Ann'')),
      Click (ClickHost (Inr (lit ''al'', lit ''AA''))),
      Worker (JobHost 0 Lan) host_job,
      Engine 0 (Thread talk_env (AcceptLoop 0) (talk_input 0)),
      Engine 0 (Thread talk_env (HandleIncoming 5 (lit ''10.0.0.7:41000'')) (talk_input 0)),
      Engine 0 (Thread talk_env (Greeting 5 (lit ''10.0.0.7'')) (talk_input 0))]"

definition host_clicks :: "(ui_env \<times> desk_label) list" where
  "host_clicks = host_start @ map (Pair host_ui)
     [Tick, Click (ClickApprove (lit ''1'') True), Worker (JobApprove 0 (lit ''1'') True) host_job]"

lemma host_clicks_host: "list_all (hosts_only 0) host_clicks"
  by (simp add: host_clicks_def host_start_def hosts_only_def hosting_label_def)

definition asked_desk :: desk where
  "asked_desk = (case desk_run (desk_start sample_disk) host_start of Some d \<Rightarrow> d | None \<Rightarrow> desk_start sample_disk)"

lemma host_start_evaluated:
  "case desk_run (desk_start sample_disk) host_start of
     None \<Rightarrow> False
   | Some d \<Rightarrow>
       ap_ui_rx d = [] \<and> ap_node d = Some 0 \<and> length (ds_nodes d) = 1 \<and> ap_requests d = [] \<and>
       length (unread d) = 2 \<and> (lit ''1'', lit ''Bob'') \<in> set (fold ask (unread d) []) \<and>
       hm_get (st_peers (snd (approve talk_env (lit ''1'') True ((ds_nodes d ! 0)\<lparr>nd_disk := ds_disk d\<rparr>))))
         (lit ''bo'') = Some \<lparr>p_info = bob, p_link = 5\<rparr>"
  by code_simp

lemma asked_desk_facts:
  "runs desk_step (desk_start sample_disk) host_start asked_desk"
  "ap_ui_rx asked_desk = []" "ap_node asked_desk = Some 0" "length (ds_nodes asked_desk) = 1"
  "ap_requests asked_desk = []" "length (unread asked_desk) = 2"
  "(lit ''1'', lit ''Bob'') \<in> set (fold ask (unread asked_desk) [])"
  "hm_get (st_peers (snd (approve talk_env (lit ''1'') True
     ((ds_nodes asked_desk ! 0)\<lparr>nd_disk := ds_disk asked_desk\<rparr>)))) (lit ''bo'') = Some \<lparr>p_info = bob, p_link = 5\<rparr>"
  using host_start_evaluated desk_run_runs [of "desk_start sample_disk" host_start asked_desk]
  by (simp_all add: asked_desk_def split: option.splits)

lemma fold_same [simp]: "fold (\<lambda>_ v. v) xs v = v"
  by (induction xs) simp_all

text \<open>A tick changes neither the nodes nor which of them is current.\<close>

interpretation current: event_view "\<lambda>d. (ap_node d, ds_nodes d, ds_disk d, ds_jobs d)" "\<lambda>_ v. v" "\<lambda>_. True"
proof
  fix clock env ev d b d'
  assume "handle_event clock env ev d = (b, d')"
  then show "(ap_node d', ds_nodes d', ds_disk d', ds_jobs d') = (ap_node d, ds_nodes d, ds_disk d, ds_jobs d)"
    by (cases ev)
      (auto simp: handle_event_def ui_events ui_ops show_fingerprint_def show_next_offer_def
        split: if_splits option.splits list.splits)
qed (simp_all add: update_expiry_def Let_def)

lemma host_lets_in:
  obtains d where "runs desk_step (desk_start sample_disk) host_clicks d" "0 < length (ds_nodes d)"
    "hm_get (st_peers (ds_nodes d ! 0)) (lit ''bo'') = Some \<lparr>p_info = bob, p_link = 5\<rparr>"
proof -
  define d1 where "d1 = pump (\<lambda>_. []) talk_env asked_desk"
  define d2 where "d2 = start_job (JobApprove 0 (lit ''1'') True) (remove_request (lit ''1'') d1)"
  define d3 where "d3 = run_job talk_env host_job (JobApprove 0 (lit ''1'') True)
    (d2\<lparr>ds_jobs := remove1 (JobApprove 0 (lit ''1'') True) (ds_jobs d2)\<rparr>)"
  have same: "ap_node d1 = Some 0" "ds_nodes d1 = ds_nodes asked_desk" "ds_disk d1 = ds_disk asked_desk"
    using current.pump_view [of asked_desk "\<lambda>_. []" talk_env] asked_desk_facts(2,3)
    by (simp_all add: d1_def)
  have "map request_key (ap_requests d1) = fold ask (unread asked_desk) []"
    using requests.pump_view [of asked_desk "\<lambda>_. []" talk_env] asked_desk_facts(2,5,6)
    by (simp add: d1_def MAX_EVENTS_PER_TICK_def)
  then have "(lit ''1'', lit ''Bob'') \<in> set (map request_key (ap_requests d1))"
    using asked_desk_facts(7) by (simp only:)
  then have row: "lit ''1'' \<in> rr_req ` set (ap_requests d1)"
    unfolding set_map request_key_def by (elim imageE) (simp only: prod.inject image_eqI)
  have "desk_step asked_desk (host_ui, Tick) d1"
    using desk_step.tick [of asked_desk host_ui] by (simp add: d1_def host_ui_def)
  moreover have "desk_step d1 (host_ui, Click (ClickApprove (lit ''1'') True)) d2"
  proof (rule desk_step.click)
    show "active d1 (ClickApprove (lit ''1'') True)" using row by (simp only: active_def Let_def click.case)
    show "on_click (ue_env host_ui) (ClickApprove (lit ''1'') True) d1 = Ret d2"
      by (simp only: on_click_def click_approve_def click.case same(1) option.case d2_def)
  qed
  moreover have "desk_step d2 (host_ui, Worker (JobApprove 0 (lit ''1'') True) host_job) d3"
    using desk_step.worker [of "JobApprove 0 (lit ''1'') True" d2 host_ui host_job]
    by (simp add: d3_def d2_def start_job_def host_ui_def)
  ultimately have "runs desk_step (desk_start sample_disk)
      (((host_start @ [(host_ui, Tick)]) @ [(host_ui, Click (ClickApprove (lit ''1'') True))]) @
        [(host_ui, Worker (JobApprove 0 (lit ''1'') True) host_job)]) d3"
    using asked_desk_facts(1) by (intro runs.run_step [where step = desk_step])
  then have "runs desk_step (desk_start sample_disk) host_clicks d3" by (simp add: host_clicks_def)
  moreover have "ds_nodes d3 = [snd (approve talk_env (lit ''1'') True
      ((ds_nodes asked_desk ! 0)\<lparr>nd_disk := ds_disk asked_desk\<rparr>))]"
    using asked_desk_facts(4)
    by (cases "ds_nodes asked_desk")
      (auto simp: d3_def d2_def run_job_def report_def on_node_def start_job_def remove_request_def same
        split: prod.splits sum.splits)
  ultimately show ?thesis using that asked_desk_facts(8) by simp
qed

section \<open>The claim\<close>



end
