(* ===== verification/Ui_Progress.thy ===== *)
theory Ui_Progress
  imports Ui_State
begin

text \<open>
  The progress bars: what the two roundings of \<open>done as f64 / total as f64\<close> to \<open>f32\<close> keep of
  the order of the numbers.
\<close>

section \<open>Rounding keeps the order\<close>

lemma round_half_even_le:
  assumes "0 < b" "a \<le> c * b"
  shows "round_half_even a b \<le> c"
proof (cases "a div b < c")
  case True
  then show ?thesis by (simp add: round_half_even_def Let_def)
next
  case False
  then have "c * b \<le> a" using assms(1) by (simp add: less_eq_div_iff_mult_less_eq not_less)
  then have "a = c * b" using assms(2) by simp
  then show ?thesis using assms(1) by (simp add: round_half_even_def)
qed

lemma round_half_even_ge:
  assumes "0 < b" "c * b \<le> a"
  shows "c \<le> round_half_even a b"
proof -
  have "c \<le> a div b" using assms by (simp add: less_eq_div_iff_mult_less_eq)
  then show ?thesis by (simp add: round_half_even_def Let_def)
qed

lemma round_half_even_mono:
  assumes "0 < b" "a \<le> a'"
  shows "round_half_even a b \<le> round_half_even a' b"
proof (cases "a div b = a' div b")
  case True
  then have "a mod b \<le> a' mod b"
    using assms(2) by (metis div_mult_mod_eq nat_add_left_cancel_le)
  then show ?thesis using True by (auto simp: round_half_even_def Let_def)
next
  case False
  then have "Suc (a div b) \<le> a' div b" using div_le_mono [OF assms(2), of b] by simp
  then show ?thesis by (auto simp: round_half_even_def Let_def)
qed

lemma less_bit_length: "n < 2 ^ bit_length n"
proof (induction n rule: bit_length.induct)
  case (1 n)
  show ?case
  proof (cases "n = 0")
    case False
    then have "n div 2 < 2 ^ bit_length (n div 2)" using 1 by simp
    then show ?thesis using False by (simp add: bit_length.simps [of n])
  qed (simp add: bit_length.simps)
qed

lemma bit_length_le: "0 < n \<Longrightarrow> 2 ^ (bit_length n - 1) \<le> n"
  using bit_length_bound [of n "bit_length n - 1"] less_bit_length [of n]
  by (cases "bit_length n") (auto simp: not_less [symmetric])

lemma bit_length_mono: "n \<le> m \<Longrightarrow> bit_length n \<le> bit_length m"
  using bit_length_bound [of n "bit_length m"] less_bit_length [of m] by simp

text \<open>Rounding to \<open>p\<close> bits does not pass a power of two, from either side.\<close>

lemma round_bits_le:
  assumes "n \<le> 2 ^ k" "0 < p"
  shows "round_bits p n \<le> 2 ^ k"
proof -
  define e where "e = bit_length n - p"
  have "bit_length n \<le> Suc k" using bit_length_bound [of n "Suc k"] assms(1)
    by (metis le_less_trans lessI one_less_numeral_iff power_strict_increasing semiring_norm(76))
  then have "e \<le> k" using assms(2) by (simp add: e_def)
  then have k: "2 ^ (k - e) * 2 ^ e = (2 :: nat) ^ k" by (simp flip: power_add)
  then have "round_half_even n (2 ^ e) \<le> 2 ^ (k - e)"
    using assms(1) by (intro round_half_even_le) simp_all
  then have "round_half_even n (2 ^ e) * 2 ^ e \<le> 2 ^ (k - e) * 2 ^ e" by simp
  then show ?thesis unfolding k by (simp add: round_bits_def e_def [symmetric])
qed

lemma round_bits_ge:
  assumes "0 < n" "0 < p"
  shows "2 ^ (bit_length n - 1) \<le> round_bits p n"
proof -
  define e where "e = bit_length n - p"
  have "e \<le> bit_length n - 1" using assms(2) by (simp add: e_def)
  then have k: "2 ^ (bit_length n - 1 - e) * 2 ^ e = (2 :: nat) ^ (bit_length n - 1)"
    by (simp flip: power_add)
  then have "2 ^ (bit_length n - 1 - e) \<le> round_half_even n (2 ^ e)"
    using bit_length_le [OF assms(1)] by (intro round_half_even_ge) simp_all
  then have "2 ^ (bit_length n - 1 - e) * 2 ^ e \<le> round_half_even n (2 ^ e) * 2 ^ e" by simp
  then show ?thesis unfolding k by (simp add: round_bits_def e_def [symmetric])
qed

lemma round_bits_mono:
  assumes "n \<le> m" "0 < p"
  shows "round_bits p n \<le> round_bits p m"
proof (cases "bit_length n = bit_length m")
  case True
  then show ?thesis
    using round_half_even_mono [of "2 ^ (bit_length m - p)" n m] assms(1)
    by (simp add: round_bits_def Let_def)
next
  case False
  then have l: "bit_length n \<le> bit_length m - 1" using bit_length_mono [OF assms(1)] by simp
  have "0 < m" using False assms(1) by (cases "m = 0") auto
  have "round_bits p n \<le> 2 ^ bit_length n"
    using less_bit_length [of n] assms(2) by (intro round_bits_le) simp_all
  also have "\<dots> \<le> 2 ^ (bit_length m - 1)" using l by simp
  also have "\<dots> \<le> round_bits p m" by (rule round_bits_ge) fact+
  finally show ?thesis .
qed

lemma f64_is_round_bits: "f64_of_u64 n = round_bits 53 n"
  by (simp add: f64_of_u64_def round_bits_def)

lemma quotient_le:
  assumes "a \<le> b" "0 < b"
  shows "f64_quotient a b \<le> 2 ^ quotient_scale b"
proof -
  define s n where "s = quotient_scale b" and "n = a * 2 ^ s"
  define e where "e = bit_length (n div b) - 53"
  have n: "n \<le> 2 ^ s * b" using assms(1) by (simp add: n_def)
  then have "n div b \<le> 2 ^ s"
    using assms(2) by (metis div_le_mono nonzero_mult_div_cancel_right not_gr_zero)
  then have "n div b < 2 ^ Suc s"
    by (metis le_less_trans lessI one_less_numeral_iff power_strict_increasing semiring_norm(76))
  then have "bit_length (n div b) \<le> Suc s" by (rule bit_length_bound)
  then have e: "e \<le> s" by (simp add: e_def)
  then have k: "2 ^ (s - e) * 2 ^ e = (2 :: nat) ^ s" by (simp flip: power_add)
  then have "round_half_even n (b * 2 ^ e) \<le> 2 ^ (s - e)"
    using n assms(2) by (intro round_half_even_le) (simp_all add: ac_simps)
  then have "round_half_even n (b * 2 ^ e) * 2 ^ e \<le> 2 ^ (s - e) * 2 ^ e" by simp
  then show ?thesis unfolding k
    by (simp add: f64_quotient_def n_def [symmetric] s_def [symmetric] e_def [symmetric])
qed

text \<open>
  C34. A progress bar never passes its end: as long as no more was transferred than there is
  to transfer, the \<open>f32\<close> handed to the window is at most one, for sizes of up to 64 bits,
  although two conversions and two divisions round.
\<close>

theorem progress_stays_within_the_bar:
  assumes "got \<le> full"
  shows "fst (progress_of got full) \<le> 2 ^ snd (progress_of got full)"
proof (cases "full = 0")
  case False
  let ?a = "f64_of_u64 (unat got)" and ?b = "f64_of_u64 (unat full)"
  have "0 < unat full" using False by (simp add: unat_gt_0)
  then have "0 < ?b"
    using round_bits_ge [of "unat full" 53] unfolding f64_is_round_bits
    by (meson less_le_trans zero_less_numeral zero_less_power)
  moreover have "?a \<le> ?b"
    unfolding f64_is_round_bits using assms by (intro round_bits_mono) (simp_all add: word_le_nat_alt)
  ultimately have "f64_quotient ?a ?b \<le> 2 ^ quotient_scale ?b" by (intro quotient_le)
  then show ?thesis using False by (simp add: progress_of_def Let_def round_bits_le)
qed (simp add: progress_of_def)

theorem progress_stays_within_the_bar_witness:
  "fst (progress_of 65536 (2 ^ 64 - 1)) \<le> 2 ^ snd (progress_of 65536 (2 ^ 64 - 1))"
  by (rule progress_stays_within_the_bar) (simp add: word_le_nat_alt)

end
