(* ===== verification/Teardown.thy ===== *)
theory Teardown
  imports Node_State
begin

text \<open>
  \<open>attach_peer\<close>, \<open>leave\<close> and \<open>shutdown_internal\<close> of \<open>core/src/mesh.rs\<close> at the grain of
  their locks: the running flag is swapped outside the lock, the registry is changed under
  it, links are closed after it is released.  Any number of threads attach links and tear
  the room down at once; what the handlers do as one step elsewhere is cut here where
  another thread can come between.
\<close>

section \<open>The threads\<close>

text \<open>
  Where a thread is: nowhere in these functions; holding a link that \<open>attach_peer\<close> refused
  and will close; after the flag, before the lock; closing what it drained.
\<close>

datatype teardown_pc = Resting | Refused link_id | Draining | Closing "link_id list"

text \<open>
  \<open>td_replaced\<close> is not in the code: it remembers the links whose place in the registry a
  newer link of the same id took.
\<close>

record teardown =
  td_running :: bool
  td_peers :: "(peer_id, link_id) hmap"
  td_closed :: "link_id list"
  td_replaced :: "link_id list"
  td_pc :: "nat \<Rightarrow> teardown_pc"

datatype teardown_label =
    Attach nat peer_id link_id
  | Swap nat
  | Store nat
  | Drain nat
  | Shut nat
  | Finish nat

text \<open>
  \<open>attach_open\<close> and \<open>attach_late\<close> are the locked block of \<open>attach_peer\<close>; \<open>leave_first\<close> and
  \<open>leave_again\<close> the swap at the start of \<open>leave\<close>, \<open>shut_down\<close> the store at the start of
  \<open>shutdown_internal\<close>, \<open>drain\<close> the locked block of either.
\<close>

inductive teardown_step :: "teardown \<Rightarrow> teardown_label \<Rightarrow> teardown \<Rightarrow> bool" where
  attach_open: "td_pc s t = Resting \<Longrightarrow> td_running s \<Longrightarrow>
    teardown_step s (Attach t k l)
      (s\<lparr>td_peers := hm_insert k l (td_peers s),
         td_replaced := td_replaced s @
           (case hm_get (td_peers s) k of None \<Rightarrow> [] | Some old \<Rightarrow> [old])\<rparr>)"
| attach_late: "td_pc s t = Resting \<Longrightarrow> \<not> td_running s \<Longrightarrow>
    teardown_step s (Attach t k l) (s\<lparr>td_pc := (td_pc s)(t := Refused l)\<rparr>)"
| close_refused: "td_pc s t = Refused l \<Longrightarrow>
    teardown_step s (Shut t)
      (s\<lparr>td_closed := td_closed s @ [l], td_pc := (td_pc s)(t := Resting)\<rparr>)"
| leave_first: "td_pc s t = Resting \<Longrightarrow> td_running s \<Longrightarrow>
    teardown_step s (Swap t) (s\<lparr>td_running := False, td_pc := (td_pc s)(t := Draining)\<rparr>)"
| leave_again: "td_pc s t = Resting \<Longrightarrow> \<not> td_running s \<Longrightarrow> teardown_step s (Swap t) s"
| shut_down: "td_pc s t = Resting \<Longrightarrow>
    teardown_step s (Store t) (s\<lparr>td_running := False, td_pc := (td_pc s)(t := Draining)\<rparr>)"
| drain: "td_pc s t = Draining \<Longrightarrow>
    teardown_step s (Drain t)
      (s\<lparr>td_peers := [], td_pc := (td_pc s)(t := Closing (hm_values (td_peers s)))\<rparr>)"
| close_next: "td_pc s t = Closing (l # ls) \<Longrightarrow>
    teardown_step s (Shut t)
      (s\<lparr>td_closed := td_closed s @ [l], td_pc := (td_pc s)(t := Closing ls)\<rparr>)"
| finish: "td_pc s t = Closing [] \<Longrightarrow>
    teardown_step s (Finish t) (s\<lparr>td_pc := (td_pc s)(t := Resting)\<rparr>)"

definition teardown_start :: teardown where
  "teardown_start =
     \<lparr>td_running = True, td_peers = [], td_closed = [], td_replaced = [], td_pc = \<lambda>_. Resting\<rparr>"

section \<open>No link is lost\<close>

text \<open>The links a thread has in its hands.\<close>

definition in_hand :: "teardown_pc \<Rightarrow> link_id set" where
  "in_hand pc = (case pc of Refused l \<Rightarrow> {l} | Closing ls \<Rightarrow> set ls | _ \<Rightarrow> {})"

lemma in_hand_simps [simp]:
  "in_hand Resting = {}" "in_hand Draining = {}" "in_hand (Refused l) = {l}" "in_hand (Closing ls) = set ls"
  by (simp_all add: in_hand_def)

definition kept :: "teardown \<Rightarrow> link_id set" where
  "kept s = set (td_closed s) \<union> set (td_replaced s) \<union> set (hm_values (td_peers s)) \<union>
     (\<Union>t. in_hand (td_pc s t))"

definition offered :: "teardown_label \<Rightarrow> link_id set" where
  "offered lb = (case lb of Attach _ _ l \<Rightarrow> {l} | _ \<Rightarrow> {})"

definition teardown_inv :: "teardown_label list \<Rightarrow> teardown \<Rightarrow> bool" where
  "teardown_inv lbs s \<longleftrightarrow>
     (\<Union> (offered ` set lbs)) \<subseteq> kept s \<and>
     (td_running s \<or> td_peers s = [] \<or> (\<exists>t. td_pc s t = Draining))"

lemma values_insert:
  "set (hm_values m) \<subseteq> set (hm_values (hm_insert k l m)) \<union>
     set (case hm_get m k of None \<Rightarrow> [] | Some old \<Rightarrow> [old])"
  "l \<in> set (hm_values (hm_insert k l m))"
  by (induction m) (auto simp: hm_values_def hm_insert_def hm_get_def)

lemma in_hand_update:
  "(\<Union>u. in_hand ((f(t := pc)) u)) = in_hand pc \<union> (\<Union>u \<in> - {t}. in_hand (f u))"
  "(\<Union>u. in_hand (f u)) = in_hand (f t) \<union> (\<Union>u \<in> - {t}. in_hand (f u))"
  by (auto split: if_splits)

lemma kept_moved:
  assumes "td_pc s' = (td_pc s)(t := pc)" "td_peers s' = td_peers s" "td_replaced s' = td_replaced s"
    and "set (td_closed s) \<union> in_hand (td_pc s t) \<subseteq> set (td_closed s') \<union> in_hand pc"
  shows "kept s \<subseteq> kept s'" "in_hand pc \<subseteq> kept s'"
  using assms(4) unfolding kept_def assms(1-3) in_hand_update(1) in_hand_update(2) [of "td_pc s" t]
  by auto

lemma kept_step:
  assumes "teardown_step s lb s'"
  shows "kept s \<union> offered lb \<subseteq> kept s'"
  using assms
proof cases
  case (attach_open t k l)
  then show ?thesis
    using values_insert [where m = "td_peers s" and k = k and l = l] by (auto simp: kept_def offered_def)
next
  case (attach_late t k l)
  then show ?thesis using kept_moved [of s' s t "Refused l"] by (auto simp: offered_def)
next
  case (drain t)
  then show ?thesis unfolding kept_def by (auto simp: offered_def in_hand_update [of _ t] hm_values_def)
qed (auto simp: offered_def intro: kept_moved(1) [THEN subsetD])

lemma teardown_step_inv:
  assumes "teardown_step s lb s'" "teardown_inv lbs s"
  shows "teardown_inv (lbs @ [lb]) s'"
proof -
  have "td_running s' \<or> td_peers s' = [] \<or> (\<exists>t. td_pc s' t = Draining)"
    using assms unfolding teardown_inv_def
    by cases (auto split: if_splits, (metis teardown_pc.distinct)+)
  then show ?thesis using kept_step [OF assms(1)] assms(2) by (auto simp: teardown_inv_def)
qed

interpretation teardown: run_invariant teardown_step teardown_inv
  by unfold_locales (rule teardown_step_inv)

text \<open>
  C37. No link is left dangling by a race with the teardown: in every interleaving of any
  number of threads that attach links, leave and shut down, once the room has been left and
  every thread is through, the registry is empty and every link that was ever handed to
  \<open>attach_peer\<close> has been closed, unless a newer link of the same id had taken its place.
\<close>

theorem teardown_leaves_no_link_behind:
  assumes "runs teardown_step teardown_start lbs s" "\<not> td_running s" "\<And>t. td_pc s t = Resting"
  shows "td_peers s = [] \<and>
    list_all (\<lambda>lb. case lb of Attach t k l \<Rightarrow> l \<in> set (td_closed s) \<or> l \<in> set (td_replaced s)
      | _ \<Rightarrow> True) lbs"
proof -
  have "teardown_inv lbs s"
    by (rule teardown.holds_after [OF assms(1)]) (simp add: teardown_inv_def teardown_start_def)
  then have "td_peers s = []" and k: "\<Union> (offered ` set lbs) \<subseteq> set (td_closed s) \<union> set (td_replaced s)"
    using assms(2,3) by (auto simp: teardown_inv_def kept_def hm_values_def)
  have "case lb of Attach t k l \<Rightarrow> l \<in> set (td_closed s) \<or> l \<in> set (td_replaced s) | _ \<Rightarrow> True"
    if "lb \<in> set lbs" for lb
    using k that by (force simp: offered_def split: teardown_label.splits)
  with \<open>td_peers s = []\<close> show ?thesis by (simp add: list_all_iff)
qed

text \<open>
  Thread 0 attaches link 7; thread 1 leaves; thread 2 arrives with link 8 between the flag
  and the lock and is refused; both links end closed.
\<close>

theorem teardown_leaves_no_link_behind_witness:
  "\<exists>s. runs teardown_step teardown_start
     [Attach 0 (lit ''a'') 7, Swap 1, Attach 2 (lit ''b'') 8, Drain 1, Shut 2, Shut 1, Finish 1] s \<and>
     {7, 8} \<subseteq> set (td_closed s) \<union> set (td_replaced s)"
proof -
  let ?s1 = "teardown_start\<lparr>td_peers := [(lit ''a'', 7)]\<rparr>"
  let ?s2 = "?s1\<lparr>td_running := False, td_pc := (\<lambda>_. Resting)(1 := Draining)\<rparr>"
  let ?s3 = "?s2\<lparr>td_pc := (td_pc ?s2)(2 := Refused 8)\<rparr>"
  let ?s4 = "?s3\<lparr>td_peers := [], td_pc := (td_pc ?s3)(1 := Closing [7])\<rparr>"
  let ?s5 = "?s4\<lparr>td_closed := [8], td_pc := (td_pc ?s4)(2 := Resting)\<rparr>"
  let ?s6 = "?s5\<lparr>td_closed := [8, 7], td_pc := (td_pc ?s5)(1 := Closing [])\<rparr>"
  let ?s7 = "?s6\<lparr>td_pc := (td_pc ?s6)(1 := Resting)\<rparr>"
  let ?lbs = "[Attach 0 (lit ''a'') 7, Swap 1, Attach 2 (lit ''b'') 8, Drain 1, Shut 2, Shut 1, Finish 1]"
  have 1: "teardown_step teardown_start (Attach 0 (lit ''a'') 7) ?s1"
    using attach_open [of teardown_start 0 "lit ''a''" 7]
    by (simp add: teardown_start_def hm_insert_def)
  have 2: "teardown_step ?s1 (Swap 1) ?s2"
    using leave_first [of ?s1 1] by (simp add: teardown_start_def)
  have 3: "teardown_step ?s2 (Attach 2 (lit ''b'') 8) ?s3"
    using attach_late [of ?s2 2 "lit ''b''" 8] by simp
  have 4: "teardown_step ?s3 (Drain 1) ?s4" using drain [of ?s3 1] by (simp add: hm_values_def)
  have 5: "teardown_step ?s4 (Shut 2) ?s5"
    using close_refused [of ?s4 2 8] by (simp add: teardown_start_def)
  have 6: "teardown_step ?s5 (Shut 1) ?s6" using close_next [of ?s5 1 7 "[]"] by simp
  have 7: "teardown_step ?s6 (Finish 1) ?s7" using finish [of ?s6 1] by simp
  have "runs teardown_step teardown_start ((((((([] @ [?lbs ! 0]) @ [?lbs ! 1]) @ [?lbs ! 2]) @
      [?lbs ! 3]) @ [?lbs ! 4]) @ [?lbs ! 5]) @ [?lbs ! 6]) ?s7"
    by (intro runs.run_step [where step = teardown_step] 1 2 3 4 5 6 7, rule runs.run_start)
      (use 1 2 3 4 5 6 7 in simp_all)
  then have r: "runs teardown_step teardown_start ?lbs ?s7" by simp
  from teardown_leaves_no_link_behind [OF r] show ?thesis
    using r by (intro exI [of _ ?s7] conjI) (simp_all add: teardown_start_def)
qed

end
