(* ===== verification/Node_Files.thy ===== *)
theory Node_Files
  imports Node_Events
begin

text \<open>
  The files of a running node: the invariant of \<open>File_Integrity\<close> holds after every step of
  every run, whatever the peers send, as long as the user does not choose a file that is
  being received as the target of something else.
\<close>

section \<open>Handlers that leave the incoming transfers alone\<close>

definition receiving :: "node \<Rightarrow> (bytes, active_in) hmap \<times> disk" where
  "receiving nd = (tr_active (nd_transfers nd), nd_disk nd)"

lemma receiving_prims [simp]:
  "receiving (emit e nd) = receiving nd" "receiving (record_line_to r nd) = receiving nd"
  "receiving (spawn t nd) = receiving nd" "receiving (close_link l nd) = receiving nd"
  "receiving (close_listener n nd) = receiving nd" "receiving (channel_send n d nd) = receiving nd"
  "receiving (snd (new_channel nd)) = receiving nd" "receiving (snd (wire_send env l bs nd)) = receiving nd"
  "receiving (snd (control_send env l c nd)) = receiving nd"
  "receiving (snd (peer_send env p c nd)) = receiving nd" "receiving (reject env l reason nd) = receiving nd"
  "receiving (take_task t nd) = receiving nd" "receiving (resume k nd) = receiving nd"
  by (simp_all add: receiving_def node_ops reject_eq take_task_def resume_def split: option.splits)

lemma receiving_updates [simp]:
  "receiving (nd\<lparr>nd_wire := x2\<rparr>) = receiving nd" "receiving (nd\<lparr>nd_running := x3\<rparr>) = receiving nd"
  "receiving (nd\<lparr>nd_req_seq := x4\<rparr>) = receiving nd" "receiving (nd\<lparr>nd_peer_state := x5\<rparr>) = receiving nd"
  "receiving (nd\<lparr>st_role := x6\<rparr>) = receiving nd" "receiving (nd\<lparr>st_kind := x7\<rparr>) = receiving nd"
  "receiving (nd\<lparr>st_room := x8\<rparr>) = receiving nd" "receiving (nd\<lparr>st_me := x9\<rparr>) = receiving nd"
  "receiving (nd\<lparr>st_listener := x10\<rparr>) = receiving nd" "receiving (nd\<lparr>st_peers := x11\<rparr>) = receiving nd"
  "receiving (nd\<lparr>st_roster := x12\<rparr>) = receiving nd" "receiving (nd\<lparr>st_pending := x13\<rparr>) = receiving nd"
  "receiving (nd\<lparr>st_history := x14\<rparr>) = receiving nd" "receiving (nd\<lparr>st_open_until := x15\<rparr>) = receiving nd"
  "receiving (nd\<lparr>st_limiter := x16\<rparr>) = receiving nd"
  by (simp_all add: receiving_def)

lemma receiving_out [simp]:
  "receiving (with_transfers (\<lambda>t. t\<lparr>tr_waiters := f1 t\<rparr>) nd) = receiving nd"
  "receiving (with_transfers (\<lambda>t. t\<lparr>tr_out_peer := f2 t\<rparr>) nd) = receiving nd"
  "receiving (with_transfers (\<lambda>t. t\<lparr>tr_offers := f3 t\<rparr>) nd) = receiving nd"
  "receiving (with_transfers (\<lambda>t. t\<lparr>tr_waiters := f4 t, tr_out_peer := f5 t\<rparr>) nd) = receiving nd"
  by (simp_all add: receiving_def node_ops)

lemma receiving_send:
  "wire_send env l bs nd = (r, nd') \<Longrightarrow> receiving nd' = receiving nd"
  "control_send env l c nd = (r, nd') \<Longrightarrow> receiving nd' = receiving nd"
  "peer_send env p c nd = (r, nd') \<Longrightarrow> receiving nd' = receiving nd"
  "new_channel nd = (chan, nd') \<Longrightarrow> receiving nd' = receiving nd"
  using receiving_prims(7-10) by (metis snd_conv)+

lemma receiving_quiet: "quiet a = quiet b \<Longrightarrow> receiving a = receiving b"
  using quiet_fields [of a b] by (simp add: receiving_def)

lemma receiving_folds [simp]:
  "receiving (fold (announce env info) ps nd) = receiving nd"
  "receiving (fold (deliver_chat env msg) ps nd) = receiving nd"
  "receiving (fold (say_bye env) ps nd) = receiving nd"
  "receiving (fold add_to_roster infos nd) = receiving nd"
  "receiving (fold (\<lambda>x. spawn (h x)) xs nd) = receiving nd"
  "receiving (close_all ls nd) = receiving nd" "receiving (close_taken n nd) = receiving nd"
proof -
  show "receiving (fold (announce env info) ps nd) = receiving nd"
    "receiving (fold (deliver_chat env msg) ps nd) = receiving nd"
    "receiving (fold (say_bye env) ps nd) = receiving nd"
    "receiving (close_all ls nd) = receiving nd" "receiving (close_taken n nd) = receiving nd"
    by (simp_all add: receiving_def)
  show "receiving (fold add_to_roster infos nd) = receiving nd"
    by (induction infos arbitrary: nd) (simp_all add: add_to_roster_def)
  show "receiving (fold (\<lambda>x. spawn (h x)) xs nd) = receiving nd"
    by (induction xs arbitrary: nd) simp_all
qed

lemma receiving_handlers [simp]:
  "receiving (finish_out tid h name ok detail nd) = receiving nd"
  "receiving (snd (send_file env path file_name meta opened nd)) = receiving nd"
  "receiving (snd (send_offer env p path name fsize sha nd)) = receiving nd"
  "receiving (snd (send_answered env p tid chan name fsize opened nd)) = receiving nd"
  "receiving (send_done env p tid name fsize nd) = receiving nd"
  "receiving (snd (send_chunk env p tid name fsize prog nd)) = receiving nd"
  "receiving (attach_peer env info l nd) = receiving nd"
  "receiving (snd (send_chat env text nd)) = receiving nd"
  "receiving (snd (reopen_joining env ttl nd)) = receiving nd"
  "receiving (set_display_name name nd) = receiving nd"
  "receiving (snd (accept_turn listener accepted nd)) = receiving nd"
  "receiving (snd (handle_incoming env l label nd)) = receiving nd"
  "receiving (snd (dial_peer info nd)) = receiving nd"
  "receiving (snd (on_mesh_hello env l version room peer nd)) = receiving nd"
  "receiving (shutdown_internal nd) = receiving nd" "receiving (leave env nd) = receiving nd"
proof -
  show fin [simp]: "receiving (finish_out tid h name ok detail nd) = receiving nd" for tid h name ok detail nd
    by (simp add: finish_out_def)
  show "receiving (snd (send_file env path file_name meta opened nd)) = receiving nd"
    by (auto simp: send_file_def Let_def split: sum.splits)
  show "receiving (snd (send_offer env p path name fsize sha nd)) = receiving nd"
    by (auto simp: send_offer_def Let_def dest!: receiving_send split: sum.splits prod.splits)
  show ended [simp]: "receiving (send_done env p tid name fsize nd) = receiving nd"
    by (auto simp: send_done_def Let_def dest!: receiving_send split: prod.splits)
  show "receiving (snd (send_answered env p tid chan name fsize opened nd)) = receiving nd"
    by (auto simp: send_answered_def Let_def dest!: receiving_send
        split: sum.splits prod.splits option.splits decision.splits)
  show "receiving (snd (send_chunk env p tid name fsize prog nd)) = receiving nd"
    by (auto simp: send_chunk_def Let_def dest!: receiving_send split: sum.splits prod.splits)
  show att [simp]: "receiving (attach_peer env info l nd) = receiving nd" for env info l nd
    by (simp add: attach_peer_def Let_def)
  show "receiving (snd (send_chat env text nd)) = receiving nd" by (simp add: send_chat_def Let_def)
  show "receiving (snd (reopen_joining env ttl nd)) = receiving nd" by (simp add: reopen_joining_def)
  show "receiving (set_display_name name nd) = receiving nd" by (simp add: set_display_name_def)
  show "receiving (snd (accept_turn listener accepted nd)) = receiving nd"
    by (auto simp: accept_turn_def split: sum.splits)
  show "receiving (snd (handle_incoming env l label nd)) = receiving nd"
    by (auto simp: handle_incoming_def Let_def split: prod.splits)
  show "receiving (snd (dial_peer info nd)) = receiving nd"
    by (auto simp: dial_peer_def split: option.splits)
  show "receiving (snd (on_mesh_hello env l version room peer nd)) = receiving nd"
    by (simp add: on_mesh_hello_def)
  show "receiving (shutdown_internal nd) = receiving nd" by (simp add: shutdown_internal_def Let_def)
  show "receiving (leave env nd) = receiving nd" by (simp add: leave_def Let_def)
qed

lemma receiving_room [simp]:
  "receiving (snd (host env kind ttl listened nd)) = receiving nd"
  "receiving (snd (join_open kind code listened nd)) = receiving nd"
  "receiving (snd (join_call env me room connected shaken nd)) = receiving nd"
  "receiving (snd (approve env req accept nd)) = receiving nd"
  "receiving (on_hello env l version room peer source nd) = receiving nd"
  "receiving (await_welcome env l received nd) = receiving nd"
  "receiving (snd (dial_turn env info k attempt last_error dialled shk nd)) = receiving nd"
  "receiving (snd (dial_reply env l got nd)) = receiving nd"
  "receiving (snd (mesh_call_turn env l peer deadline nd)) = receiving nd"
proof -
  show "receiving (snd (host env kind ttl listened nd)) = receiving nd"
    by (auto simp: host_def Let_def split: sum.splits prod.splits)
  show "receiving (snd (join_open kind code listened nd)) = receiving nd"
    by (auto simp: join_open_def Let_def split: sum.splits prod.splits)
  show "receiving (snd (join_call env me room connected shaken nd)) = receiving nd"
    by (auto simp: join_call_def dest!: receiving_send split: sum.splits prod.splits)
  show "receiving (snd (approve env req accept nd)) = receiving nd"
    by (auto simp: approve_def Let_def dest!: receiving_send split: option.splits sum.splits prod.splits)
  show "receiving (on_hello env l version room peer source nd) = receiving nd"
    by (simp add: on_hello_def Let_def)
  show "receiving (await_welcome env l received nd) = receiving nd"
    by (auto simp: await_welcome_def add_to_roster_def Let_def
        split: sum.splits frame.splits control.splits)
  show "receiving (snd (dial_turn env info k attempt last_error dialled shk nd)) = receiving nd"
    by (auto simp: dial_turn_def dial_call_def dest!: receiving_send
        split: sum.splits prod.splits if_splits)
  show "receiving (snd (dial_reply env l got nd)) = receiving nd"
    by (auto simp: dial_reply_def split: sum.splits frame.splits control.splits)
  show "receiving (snd (mesh_call_turn env l peer deadline nd)) = receiving nd"
    by (auto simp: mesh_call_turn_def accept_mesh_call_def dest!: receiving_send
        split: option.splits sum.splits prod.splits)
qed

section \<open>The invariant\<close>

definition files_ok :: "node \<Rightarrow> bool" where
  "files_ok nd \<longleftrightarrow> transfers_ok (nd_transfers nd) (nd_disk nd)"

lemma files_ok_receiving: "files_ok nd \<Longrightarrow> receiving nd' = receiving nd \<Longrightarrow> files_ok nd'"
  unfolding files_ok_def receiving_def transfers_ok_def by simp

lemma files_ok_fewer:
  assumes "files_ok nd" "nd_disk nd' = nd_disk nd"
    and "\<And>k a. hm_get (tr_active (nd_transfers nd')) k = Some a \<Longrightarrow>
      hm_get (tr_active (nd_transfers nd)) k = Some a"
  shows "files_ok nd'"
  using transfers_ok_same_disk [OF assms(1) [unfolded files_ok_def] assms(3)] assms(2)
  by (simp add: files_ok_def)

lemma receiving_greet [simp]:
  "receiving (snd (greet_incoming env l source shaken received nd)) = receiving nd"
  by (auto simp: greet_incoming_def Let_def split: sum.splits frame.splits control.splits)

lemma files_ok_reader:
  assumes "reader_turn env p received nd = Ret (k, nd')" "files_ok nd"
  shows "files_ok nd'"
proof -
  have gone: "files_ok (peer_gone env p reason nd)" for reason
    by (rule files_ok_fewer [OF assms(2)]) (auto simp: peer_gone_fields dest: peer_gone_active)
  have control: "files_ok nd1" if "handle_control env p c nd = Ret nd1" for c nd1
    by (rule files_ok_fewer [OF assms(2)]) (use handle_control_effect [OF that] in auto)
  have chunk: "files_ok (handle_chunk env p tid seq data nd)" for tid seq data
    using handle_chunk_ok assms(2) by (simp add: files_ok_def)
  have err: "files_ok (emit e nd)" for e by (rule files_ok_receiving [OF assms(2)]) simp
  show ?thesis
    using assms(1) gone control chunk err
    by (auto simp: reader_turn_def split: sum.splits frame.splits run.splits)
qed

lemma respond_offer_cases:
  assumes "respond_offer env transfer save_to nd = Ret (r, nd')"
  obtains (same) "receiving nd' = receiving nd"
    | (saving) tid a path d where "save_to = Some path"
      "file_create path (nd_disk nd) = (Inr (ai_file a), d)" "nd_disk nd' = d"
      "tr_active (nd_transfers nd') = hm_insert tid a (tr_active (nd_transfers nd))"
      "ai_got a = 0" "ai_hashed a = []"
proof -
  note def = assms [unfolded respond_offer_def Let_def]
  show thesis
  proof (cases "unhex16 transfer")
    case Panic
    with def show ?thesis by simp
  next
    case (Ret u)
    show ?thesis
    proof (cases "case u of Inl _ \<Rightarrow> None | Inr tid \<Rightarrow> hm_get (tr_offers (nd_transfers nd)) tid")
      case None
      with def Ret show ?thesis by (intro same) (auto split: sum.splits option.splits)
    next
      case (Some offer)
      then obtain tid where tid: "u = Inr tid" "hm_get (tr_offers (nd_transfers nd)) tid = Some offer"
        by (auto split: sum.splits)
      let ?nd1 = "with_transfers (\<lambda>t. t\<lparr>tr_offers := hm_remove tid (tr_offers t)\<rparr>) nd"
      note def1 = def [unfolded Ret tid run.case sum.case option.case]
      show ?thesis
      proof (cases save_to)
        case None
        with def1 show ?thesis by (intro same) (auto split: option.splits)
      next
        case path: (Some path)
        show ?thesis
        proof (cases "peer_by_id (po_peer_id offer) ?nd1")
          case None
          with def1 path show ?thesis by (intro same) auto
        next
          case p: (Some p)
          obtain h d where c: "file_create path (nd_disk ?nd1) = (h, d)" by fastforce
          show ?thesis
          proof (cases h)
            case (Inl e)
            with file_create_err c have "d = nd_disk nd" by (auto simp: node_ops)
            with def1 path p c Inl show ?thesis by (intro same) (auto simp: receiving_def node_ops)
          next
            case (Inr handle)
            let ?a = "\<lparr>ai_file = handle, ai_name = po_name offer, ai_size = po_size offer, ai_got = 0,
              ai_next_seq = 0, ai_hashed = [], ai_expect_sha = po_sha256 offer,
              ai_peer_id = po_peer_id offer, ai_peer_name = po_peer_name offer,
              ai_last_emit = instant_sub (e_now env) PROGRESS_INTERVAL\<rparr>"
            have "receiving nd' = (hm_insert tid ?a (tr_active (nd_transfers nd)), d)"
              using def1 path p c Inr
              by (auto simp: receiving_def node_ops peer_send_def dest!: control_send_eq
                  split: prod.splits sum.splits)
            then show ?thesis
              using saving [of path ?a d tid] path c Inr by (simp add: receiving_def node_ops)
          qed
        qed
      qed
    qed
  qed
qed

lemma files_ok_respond:
  assumes "respond_offer env transfer save_to nd = Ret (r, nd')" "files_ok nd"
    and "\<And>path. save_to = Some path \<Longrightarrow> path_free path (nd_transfers nd)"
  shows "files_ok nd'"
  using assms(1)
proof (cases rule: respond_offer_cases)
  case same
  then show ?thesis using files_ok_receiving [OF assms(2)] by simp
next
  case (saving tid a path d)
  note fc = file_create_ok [OF saving(2)]
  have path: "ai_path a = path" using fc by (auto simp: ai_path_def)
  have "active_ok d a" using fc saving(5,6) by (auto simp: active_ok_def)
  moreover have "ai_path b \<noteq> ai_path a" if "hm_get (tr_active (nd_transfers nd)) k = Some b" for k b
    using path_freeD [OF assms(3) [OF saving(1)] that] path by simp
  moreover have "file_content d q = file_content (nd_disk nd) q" if "q \<noteq> ai_path a" for q
    using fc that path by simp
  ultimately show ?thesis
    using transfers_ok_insert [OF assms(2) [unfolded files_ok_def], of d a "nd_transfers nd'" tid] saving
    by (simp add: files_ok_def)
qed

lemma files_ok_export:
  assumes "files_ok nd" "path_free path (nd_transfers nd)"
  shows "files_ok (snd (export_history fmt json env path ext nd))"
proof -
  obtain r d where e: "export fmt json (e_ts env) path ext (st_room nd) (kind_text nd) (st_history nd)
      (nd_disk nd) = (r, d)" by fastforce
  have "transfers_ok (nd_transfers nd) d"
    by (rule transfers_ok_mono [OF assms(1) [unfolded files_ok_def]])
      (use export_touches_only_path [OF e] path_freeD [OF assms(2)] in auto)
  then show ?thesis by (simp add: export_history_def e files_ok_def)
qed

text \<open>
  The one thing asked of the user: not to save or export over a file that is being received.
\<close>

definition careful :: "node \<Rightarrow> label \<Rightarrow> bool" where
  "careful nd l =
     (case l of
        User _ (DoRespond _ (Some path)) \<Rightarrow> path_free path (nd_transfers nd)
      | User _ (DoExport _ _ path _) \<Rightarrow> path_free path (nd_transfers nd)
      | _ \<Rightarrow> True)"

definition careful_step :: "node \<Rightarrow> label \<Rightarrow> node \<Rightarrow> bool" where
  "careful_step nd l nd' \<longleftrightarrow> node_step nd l nd' \<and> careful nd l"

lemma files_ok_perform:
  assumes "perform env a nd = Ret nd'" "careful nd (User env a)" "files_ok nd"
  shows "files_ok nd'"
proof (cases a)
  case (DoRespond transfer save_to)
  with assms obtain r where "respond_offer env transfer save_to nd = Ret (r, nd')"
    by (auto simp: perform_def split: run.splits)
  then show ?thesis
    by (rule files_ok_respond [OF _ assms(3)]) (use assms(2) DoRespond in \<open>simp add: careful_def\<close>)
next
  case (DoJoin kind code listened)
  with assms show ?thesis by (auto simp: perform_join resume_def intro: files_ok_receiving split: option.splits)
next
  case (DoExport fmt_full json path ext)
  with assms files_ok_export show ?thesis by (auto simp: perform_def careful_def)
qed (use assms files_ok_receiving in \<open>auto simp: perform_def\<close>)

lemma receiving_task:
  assumes "run_task env t i nd = Ret (k, nd')" "\<And>p. t \<noteq> Reader p"
  shows "receiving nd' = receiving nd"
proof (cases t)
  case (Reader p)
  then show ?thesis using assms(2) [of p] by simp
next
  case (Joining me room)
  with assms show ?thesis by (auto simp: run_task_def)
next
  case (AwaitWelcome l)
  with assms show ?thesis by (auto simp: run_task_def)
next
  case (Called info kind attempt l)
  then have "nd' = snd (called_turn env info kind attempt l (in_received i) nd)"
    using assms by (simp add: run_task_def)
  then show ?thesis by simp
qed (use assms(1) in \<open>simp_all add: run_task_def\<close>, (metis receiving_handlers receiving_room receiving_greet snd_conv)+)

lemma files_ok_step:
  assumes "careful_step nd l nd'" "files_ok nd"
  shows "files_ok nd'"
proof -
  from assms(1) have "node_step nd l nd'" and c: "careful nd l" by (simp_all add: careful_step_def)
  then show ?thesis
  proof cases
    case (user env a)
    then show ?thesis using files_ok_perform assms(2) c by blast
  next
    case (thread t env i k nd1)
    have 1: "files_ok (take_task t nd)" by (rule files_ok_receiving [OF assms(2)]) simp
    have "files_ok nd1"
    proof (cases "\<exists>p. t = Reader p")
      case True
      then show ?thesis using thread files_ok_reader [OF _ 1] by (auto simp: run_task_def)
    next
      case False
      then show ?thesis using receiving_task thread files_ok_receiving [OF 1] by blast
    qed
    then show ?thesis using thread by (simp add: files_ok_receiving)
  qed
qed

interpretation careful_run: run_invariant careful_step "\<lambda>_ nd. files_ok nd"
  by unfold_locales (rule files_ok_step)

section \<open>What a reported file is worth\<close>

lemma files_ok_start: "tr_active (nd_transfers nd) = [] \<Longrightarrow> files_ok nd"
  by (simp add: files_ok_def transfers_ok_def hm_get_def)


definition reading_node :: node where
  "reading_node = sample_receiver\<lparr>nd_spawned := [Reader \<lparr>p_info = sample_info ''al'', p_link = 3\<rparr>]\<rparr>"

definition saving_node :: node where
  "saving_node =
     (case respond_offer sample_env (hex (replicate 16 2)) (Some (lit ''x'')) reading_node of
        Ret (_, nd) \<Rightarrow> nd | Panic \<Rightarrow> reading_node)"

definition chunk_input :: task_input where
  "chunk_input = \<lparr>in_accepted = Inr (5, []), in_connected = Inr 5, in_shaken = Inr (),
     in_received = Inr (encode_chunk (replicate 16 2) 0 [1, 2, 3, 4, 5]), in_opened = Inr []\<rparr>"

definition saved_node :: node where
  "saved_node =
     (case run_task sample_env (Reader \<lparr>p_info = sample_info ''al'', p_link = 3\<rparr>) chunk_input
         (take_task (Reader \<lparr>p_info = sample_info ''al'', p_link = 3\<rparr>) saving_node) of
        Ret (k, nd) \<Rightarrow> resume k nd | Panic \<Rightarrow> saving_node)"

lemma saving_run:
  "runs careful_step reading_node
     [User sample_env (DoRespond (hex (replicate 16 2)) (Some (lit ''x''))),
      Thread sample_env (Reader \<lparr>p_info = sample_info ''al'', p_link = 3\<rparr>) chunk_input] saved_node"
    (is "runs _ _ [?u, ?t] _")
proof -
  let ?p = "Reader \<lparr>p_info = sample_info ''al'', p_link = 3\<rparr>"
  have "case respond_offer sample_env (hex (replicate 16 2)) (Some (lit ''x'')) reading_node of
      Ret _ \<Rightarrow> True | Panic \<Rightarrow> False" by code_simp
  then have "perform sample_env (DoRespond (hex (replicate 16 2)) (Some (lit ''x''))) reading_node =
      Ret saving_node"
    by (auto simp: perform_def saving_node_def split: run.splits)
  moreover have "path_free (lit ''x'') (nd_transfers reading_node)" by code_simp
  ultimately have 1: "careful_step reading_node ?u saving_node"
    by (simp add: careful_step_def careful_def node_step_User)
  have "case run_task sample_env ?p chunk_input (take_task ?p saving_node) of
      Ret _ \<Rightarrow> True | Panic \<Rightarrow> False" by code_simp
  then obtain k nd where k: "run_task sample_env ?p chunk_input (take_task ?p saving_node) = Ret (k, nd)"
    by (auto split: run.splits)
  have "?p \<in> set (nd_spawned saving_node)" by code_simp
  then have "node_step saving_node ?t (resume k nd)" using k by (rule node_step.thread)
  then have 2: "careful_step saving_node ?t saved_node"
    using k by (simp add: careful_step_def careful_def saved_node_def)
  have "runs careful_step reading_node (([] @ [?u]) @ [?t]) saved_node"
    by (intro runs.run_step [where step = careful_step], rule runs.run_start, rule 1, rule 2)
  then show ?thesis by simp
qed



end
