(* ===== verification/Newcomer.thy ===== *)
theory Newcomer
  imports Network_Claims
begin

text \<open>
  From the request to the mesh, with every message passed from one machine to the other: how a
  newcomer that is approved gets connected to the host, and then to a member.
\<close>

section \<open>Joining\<close>

lemma join_sends_hello:
  assumes "join_open kind code listened nd = (Inr (me, room), nd1)"
    "join_call env me room connected shaken nd1 = (Inr (), nd')"
  obtains l bs where "connected = Inr l" "nd_wire nd' = nd_wire nd @ [(l, bs)]"
    "encode_control (e_to_json env) (Hello PROTOCOL_VERSION (st_room nd') (st_me nd')) = Inr bs"
    "pi_id (st_me nd') = pi_id (st_me nd)" "nd_running nd'" "AwaitWelcome l \<in> set (nd_spawned nd')"
  using assms
  by (auto simp: join_open_def join_call_def Let_def node_ops wire_send_def
      split: sum.splits prod.splits if_splits option.splits)

lemma host_parks_hello:
  assumes "decode_frame (e_from_json env) bs = Inr (Control (Hello PROTOCOL_VERSION room peer))"
    "hello_welcome env PROTOCOL_VERSION room peer nd"
  shows "\<exists>nd'. greet_incoming env l source (Inr ()) (Inr bs) nd = (None, nd') \<and>
    hm_get (st_pending nd') (show_nat (unat (nd_req_seq nd))) =
      Some \<lparr>pd_info = peer\<lparr>pi_name := sanitize_name (pi_name peer)\<rparr>, pd_link = l\<rparr> \<and>
    nd_wire nd' = nd_wire nd \<and> st_me nd' = st_me nd \<and> st_room nd' = st_room nd \<and>
    st_peers nd' = st_peers nd \<and> nd_running nd' = nd_running nd"
  using assms by (simp add: greet_incoming_def on_hello_parked node_ops hm_simps)

lemma approve_ok:
  assumes "approve env req True nd = (Inr (), nd')" "hm_get (st_pending nd) req = Some pd" "nd_running nd"
  obtains bs where
    "encode_control (e_to_json env) (Welcome (st_room nd) (st_me nd) (map p_info (connected_peers nd))) = Inr bs"
    "nd_wire nd' = nd_wire nd @ concat (map (\<lambda>p. delivered env (p_link p) (PeerJoined (pd_info pd)))
       (connected_peers nd)) @ [(pd_link pd, bs)]"
    "peer_by_id (pi_id (pd_info pd)) nd' = Some \<lparr>p_info = pd_info pd, p_link = pd_link pd\<rparr>"
proof -
  let ?nd1 = "nd\<lparr>st_pending := hm_remove req (st_pending nd)\<rparr>"
  define nd2 where "nd2 = fold (announce env (pd_info pd)) (connected_peers ?nd1) ?nd1"
  define nd3 where "nd3 = nd2\<lparr>st_roster := hm_insert (pi_id (pd_info pd)) (pd_info pd) (st_roster nd2)\<rparr>"
  have same: "connected_peers ?nd1 = connected_peers nd" by (simp add: connected_peers_def)
  have f: "st_room nd3 = st_room nd" "st_me nd3 = st_me nd" "nd_running nd3 = nd_running nd"
    "st_peers nd3 = st_peers nd"
    "nd_wire nd3 = nd_wire nd @ concat (map (\<lambda>p. delivered env (p_link p) (PeerJoined (pd_info pd))) (connected_peers nd))"
    by (simp_all add: nd3_def nd2_def same)
  obtain r nd4 where r: "control_send env (pd_link pd) (Welcome (st_room nd3) (st_me nd3)
      (map p_info (connected_peers ?nd1))) nd3 = (r, nd4)" by fastforce
  have "approve env req True nd =
      (case r of Inl e \<Rightarrow> (Inl e, nd4)
       | Inr _ \<Rightarrow> (Inr (), attach_peer env (pd_info pd) (pd_link pd) (emit (EvJoinResolved req True) nd4)))"
    using r by (simp add: approve_def assms(2) Let_def nd2_def nd3_def split: sum.splits)
  then have "r = Inr ()" and nd': "nd' = attach_peer env (pd_info pd) (pd_link pd) (emit (EvJoinResolved req True) nd4)"
    using assms(1) by (auto split: sum.splits)
  with r obtain bs where bs: "encode_control (e_to_json env) (Welcome (st_room nd) (st_me nd)
      (map p_info (connected_peers nd))) = Inr bs" "nd4 = nd3\<lparr>nd_wire := nd_wire nd3 @ [(pd_link pd, bs)]\<rparr>"
    by (auto simp: control_send_def wire_send_def f same split: sum.splits if_splits option.splits)
  have "nd_running (emit (EvJoinResolved req True) nd4)" using bs(2) f assms(3) by (simp add: node_ops)
  then have "peer_by_id (pi_id (pd_info pd)) nd' = Some \<lparr>p_info = pd_info pd, p_link = pd_link pd\<rparr>"
    by (simp add: nd' peer_by_id_def attach_running hm_simps)
  moreover have "nd_wire nd' = nd_wire nd4" by (simp add: nd' attach_peer_def node_ops Let_def)
  ultimately show ?thesis using bs f by (intro that) simp_all
qed


lemma welcomed_ok:
  assumes "decode_frame (e_from_json env) bs = Inr (Control (Welcome room h peers))" "nd_running nd"
  shows "st_room (await_welcome env l (Inr bs) nd) = room"
    "peer_by_id (pi_id h) (await_welcome env l (Inr bs) nd) = Some \<lparr>p_info = h, p_link = l\<rparr>"
    "p \<in> set peers \<Longrightarrow> DialPeer p \<in> set (nd_spawned (await_welcome env l (Inr bs) nd))"
    "p \<in> set peers \<Longrightarrow> hm_contains (st_roster (await_welcome env l (Inr bs) nd)) (pi_id p)"
proof -
  define nd1 where "nd1 = fold add_to_roster peers (add_to_roster h (nd\<lparr>st_room := room\<rparr>))"
  define nd2 where "nd2 = record_line_to (record_system (e_ts env)
      (lit ''Joined room '' @ room @ lit '' over '' @ kind_text nd1)) nd1"
  define nd4 where "nd4 = emit (EvJoined room (kind_text nd1)) (attach_peer env h l nd2)"
  have eq: "await_welcome env l (Inr bs) nd = fold (\<lambda>p. spawn (DialPeer p)) peers nd4"
    using assms(1) by (simp add: await_welcome_def Let_def nd1_def nd2_def nd4_def)
  have spawned: "st_room (fold (\<lambda>p. spawn (DialPeer p)) ps n) = st_room n \<and>
      st_peers (fold (\<lambda>p. spawn (DialPeer p)) ps n) = st_peers n \<and>
      st_roster (fold (\<lambda>p. spawn (DialPeer p)) ps n) = st_roster n \<and>
      nd_spawned (fold (\<lambda>p. spawn (DialPeer p)) ps n) = nd_spawned n @ map DialPeer ps" for ps n
    by (induction ps arbitrary: n) (simp_all add: node_ops)
  have listed: "nd_running (fold add_to_roster ps n) = nd_running n \<and>
      st_room (fold add_to_roster ps n) = st_room n" for ps n
    by (induction ps arbitrary: n) (simp_all add: add_to_roster_def)
  have kept: "hm_get (st_roster n) k \<noteq> None \<Longrightarrow> hm_get (st_roster (fold add_to_roster ps n)) k \<noteq> None" for ps n k
    by (induction ps arbitrary: n) (simp_all add: add_to_roster_def hm_simps)
  have added: "p \<in> set ps \<Longrightarrow> hm_get (st_roster (fold add_to_roster ps n)) (pi_id p) \<noteq> None" for ps n p
  proof (induction ps arbitrary: n)
    case (Cons q ps)
    have "hm_get (st_roster (add_to_roster q n)) (pi_id q) \<noteq> None"
      by (simp add: add_to_roster_def hm_simps)
    with Cons kept [of "add_to_roster q n" "pi_id q" ps] show ?case by auto
  qed simp
  have run: "nd_running nd2" "st_room nd2 = room" "st_roster nd2 = st_roster nd1"
    using assms(2) listed by (simp_all add: nd2_def nd1_def node_ops add_to_roster_def)
  show "st_room (await_welcome env l (Inr bs) nd) = room"
    using run by (simp add: eq spawned nd4_def node_ops attach_peer_def Let_def)
  show "peer_by_id (pi_id h) (await_welcome env l (Inr bs) nd) = Some \<lparr>p_info = h, p_link = l\<rparr>"
    using run by (simp add: eq spawned nd4_def peer_by_id_def node_ops attach_running hm_simps)
  show "DialPeer p \<in> set (nd_spawned (await_welcome env l (Inr bs) nd))" if "p \<in> set peers"
    using that by (simp add: eq spawned)
  show "hm_contains (st_roster (await_welcome env l (Inr bs) nd)) (pi_id p)" if "p \<in> set peers"
    using added [OF that, of "add_to_roster h (nd\<lparr>st_room := room\<rparr>)"] run
    by (simp add: eq spawned nd4_def node_ops attach_running hm_simps nd1_def)
qed

section \<open>Mesh calls\<close>

lemma dial_calls:
  assumes "dial_turn env info kind attempt e (Inr l) (Inr ()) nd = (Some (Called info kind attempt l), nd')"
  obtains bs where "nd_wire nd' = nd_wire nd @ [(l, bs)]" "nd_running nd'"
    "encode_control (e_to_json env) (MeshHello PROTOCOL_VERSION (st_room nd) (st_me nd)) = Inr bs"
  using assms
  by (auto simp: dial_turn_def dial_call_def control_send_def wire_send_def
      split: sum.splits prod.splits if_splits option.splits)

lemma member_holds_call:
  assumes "decode_frame (e_from_json env) bs = Inr (Control (MeshHello PROTOCOL_VERSION room peer))"
    and "normalize_code room = normalize_code (st_room nd)"
  shows "greet_incoming env l source (Inr ()) (Inr bs) nd =
    (Some (MeshCall l (peer\<lparr>pi_name := sanitize_name (pi_name peer)\<rparr>) (instant_add (e_now env) ROSTER_GRACE)), nd)"
  using assms by (simp add: greet_incoming_def on_mesh_hello_def)

lemma member_accepts_call:
  assumes "hm_contains (st_roster nd) (pi_id peer)" "peer_by_id (pi_id peer) nd = None" "nd_running nd"
    and "delivered env l (MeshAck (st_me nd)) \<noteq> []"
  obtains bs nd' where "mesh_call_turn env l peer deadline nd = (None, nd')"
    "encode_control (e_to_json env) (MeshAck (st_me nd)) = Inr bs" "nd_wire nd' = nd_wire nd @ [(l, bs)]"
    "peer_by_id (pi_id peer) nd' = Some \<lparr>p_info = peer, p_link = l\<rparr>"
proof -
  obtain bs where bs: "encode_control (e_to_json env) (MeshAck (st_me nd)) = Inr bs"
    "wire_send env l bs nd = (Inr (), nd\<lparr>nd_wire := nd_wire nd @ [(l, bs)]\<rparr>)"
    using assms(4) by (auto simp: delivered_def wire_send_def split: sum.splits if_splits option.splits)
  then have eq: "mesh_call_turn env l peer deadline nd =
      (None, attach_peer env peer l (nd\<lparr>nd_wire := nd_wire nd @ [(l, bs)]\<rparr>))"
    using assms(1,2) by (simp add: mesh_call_turn_def accept_mesh_call_def)
  show ?thesis
    by (rule that [OF eq bs(1)])
      (use assms(3) in \<open>simp_all add: attach_peer_def node_ops Let_def peer_by_id_def hm_simps\<close>)
qed

section \<open>The claims\<close>

text \<open>
  C7. Joining works, end to end.  A joiner's call of \<open>join\<close> that succeeds has sent a request; when a
  host takes it (its room is open, the codes agree and the id is new), its operator approves the
  request under the number it was given, and the joiner receives the reply, then each of the two
  has the other registered over the link between them, the joiner has taken on the room of the
  host and has started to dial every member, and every member that the host could reach was told
  of the newcomer.
\<close>

theorem approved_newcomer_is_connected:
  assumes "json_ok tj fj" "\<And>e. e \<in> {envj, envh, enva, envw} \<Longrightarrow> e_to_json e = tj \<and> e_from_json e = fj"
    and "join_open kind code listened jo = (Inr (me, room), jo0)"
    and "join_call envj me room (Inr lj) (Inr ()) jo0 = (Inr (), jo1)"
    and "hello_welcome envh PROTOCOL_VERSION (st_room jo1) (st_me jo1) ho" "nd_running ho"
    and "greet_incoming envh lh source (Inr ()) (Inr (snd (last (nd_wire jo1)))) ho = (k, ho1)"
    and "approve enva (show_nat (unat (nd_req_seq ho))) True ho1 = (Inr (), ho2)"
    and "await_welcome envw lj (Inr (snd (last (nd_wire ho2)))) jo1 = jo2"
    and "newcomer = (st_me jo1)\<lparr>pi_name := sanitize_name (pi_name (st_me jo1))\<rparr>"
  shows "peer_by_id (pi_id (st_me jo)) ho2 = Some \<lparr>p_info = newcomer, p_link = lh\<rparr> \<and>
    peer_by_id (pi_id (st_me ho)) jo2 = Some \<lparr>p_info = st_me ho, p_link = lj\<rparr> \<and>
    st_room jo2 = st_room ho \<and>
    (\<forall>p \<in> set (connected_peers ho). DialPeer (p_info p) \<in> set (nd_spawned jo2) \<and>
       hm_contains (st_roster jo2) (pi_id (p_info p)) \<and>
       set (delivered enva (p_link p) (PeerJoined newcomer)) \<subseteq> set (nd_wire ho2))"
proof -
  have json: "e_to_json e = tj" "e_from_json e = fj" if "e \<in> {envj, envh, enva, envw}" for e
    using assms(2) [OF that] by simp_all
  have reads: "decode_frame fj bs = Inr (Control c)" if "encode_control tj c = Inr bs" for c bs
    using fluent.decode_encoded [OF fluent_json, of envj c bs] assms(1) json [of envj] that by simp
  obtain bs where j: "nd_wire jo1 = nd_wire jo @ [(lj, bs)]"
    "encode_control tj (Hello PROTOCOL_VERSION (st_room jo1) (st_me jo1)) = Inr bs"
    "pi_id (st_me jo1) = pi_id (st_me jo)" "nd_running jo1"
    by (rule join_sends_hello [OF assms(3,4)]) (simp add: json)
  have dec: "decode_frame (e_from_json envh) bs = Inr (Control (Hello PROTOCOL_VERSION (st_room jo1) (st_me jo1)))"
    using reads [OF j(2)] json [of envh] by simp
  have h: "hm_get (st_pending ho1) (show_nat (unat (nd_req_seq ho))) = Some \<lparr>pd_info = newcomer, pd_link = lh\<rparr>"
    "st_me ho1 = st_me ho" "st_room ho1 = st_room ho" "st_peers ho1 = st_peers ho" "nd_running ho1"
    using host_parks_hello [OF dec assms(5), of lh source] assms(6,7,10) j(1) by auto
  have peers: "connected_peers ho1 = connected_peers ho" by (simp add: connected_peers_def h)
  obtain bs2 where a: "encode_control tj (Welcome (st_room ho) (st_me ho) (map p_info (connected_peers ho))) = Inr bs2"
    "nd_wire ho2 = nd_wire ho1 @ concat (map (\<lambda>p. delivered enva (p_link p) (PeerJoined newcomer))
       (connected_peers ho)) @ [(lh, bs2)]"
    "peer_by_id (pi_id newcomer) ho2 = Some \<lparr>p_info = newcomer, p_link = lh\<rparr>"
    by (rule approve_ok [OF assms(8) h(1,5)]) (simp add: json h peers)
  have "decode_frame (e_from_json envw) bs2 =
      Inr (Control (Welcome (st_room ho) (st_me ho) (map p_info (connected_peers ho))))"
    using reads [OF a(1)] json [of envw] by simp
  note w = welcomed_ok [OF this j(4), where l = lj, folded assms(9)]
  have "await_welcome envw lj (Inr bs2) jo1 = jo2" using assms(9) a(2) by simp
  with w a j(3) assms(10) show ?thesis by auto
qed

text \<open>
  C8. Members connect directly.  When a newcomer dials a member that was told of it, of the
  same room and not yet connected to it, the member holds the call, takes it on its next turn
  and answers; and when the answer arrives, each has the other registered over the link between
  them.
\<close>

theorem dialled_member_is_connected:
  assumes "json_ok tj fj" "\<And>e. e \<in> {envc, envm, envt, envr} \<Longrightarrow> e_to_json e = tj \<and> e_from_json e = fj"
    and "dial_turn envc info kind attempt e (Inr lc) (Inr ()) ca = (Some (Called info kind attempt lc), ca1)"
    and "normalize_code (st_room ca) = normalize_code (st_room me)" "nd_running me"
    and "hm_contains (st_roster me) (pi_id (st_me ca))" "peer_by_id (pi_id (st_me ca)) me = None"
    and "greet_incoming envm lm source (Inr ()) (Inr (snd (last (nd_wire ca1)))) me = (Some t, me1)"
    and "delivered envt lm (MeshAck (st_me me)) \<noteq> []" "run_task envt t i me1 = Ret (k, me2)"
    and "called_turn envr info kind attempt lc (Inr (snd (last (nd_wire me2)))) ca1 = (k', ca2)"
  shows "k = None \<and> k' = None \<and>
    (\<exists>p. peer_by_id (pi_id (st_me ca)) me2 = Some p \<and> p_link p = lm) \<and>
    peer_by_id (pi_id (st_me me)) ca2 = Some \<lparr>p_info = st_me me, p_link = lc\<rparr>"
proof -
  have json: "e_to_json e = tj" "e_from_json e = fj" if "e \<in> {envc, envm, envt, envr}" for e
    using assms(2) [OF that] by simp_all
  have reads: "decode_frame fj bs = Inr (Control c)" if "encode_control tj c = Inr bs" for c bs
    using fluent.decode_encoded [OF fluent_json, of envc c bs] assms(1) json [of envc] that by simp
  obtain bs where c: "nd_wire ca1 = nd_wire ca @ [(lc, bs)]" "nd_running ca1"
    "encode_control tj (MeshHello PROTOCOL_VERSION (st_room ca) (st_me ca)) = Inr bs"
    by (rule dial_calls [OF assms(3)]) (simp add: json)
  have dec: "decode_frame (e_from_json envm) bs = Inr (Control (MeshHello PROTOCOL_VERSION (st_room ca) (st_me ca)))"
    using reads [OF c(3)] json [of envm] by simp
  let ?peer = "(st_me ca)\<lparr>pi_name := sanitize_name (pi_name (st_me ca))\<rparr>"
  have t: "t = MeshCall lm ?peer (instant_add (e_now envm) ROSTER_GRACE)" "me1 = me"
    using member_holds_call [OF dec assms(4), of lm source] assms(8) c(1) by auto
  obtain bs2 nd' where m: "mesh_call_turn envt lm ?peer (instant_add (e_now envm) ROSTER_GRACE) me = (None, nd')"
    "encode_control tj (MeshAck (st_me me)) = Inr bs2" "nd_wire nd' = nd_wire me @ [(lm, bs2)]"
    "peer_by_id (pi_id ?peer) nd' = Some \<lparr>p_info = ?peer, p_link = lm\<rparr>"
    by (rule member_accepts_call [where nd = me and peer = ?peer and env = envt and l = lm and
          deadline = "instant_add (e_now envm) ROSTER_GRACE"]) (use assms(5,6,7,9) json in simp_all)
  have me2: "k = None" "me2 = nd'" using assms(10) m(1) t by (simp_all add: run_task_def)
  have "decode_frame (e_from_json envr) bs2 = Inr (Control (MeshAck (st_me me)))"
    using reads [OF m(2)] json [of envr] by simp
  then have "k' = None" "ca2 = attach_peer envr (st_me me) lc ca1"
    using assms(11) me2 m(3) by (simp_all add: called_turn_def dial_reply_def)
  with me2 m(4) c(2) show ?thesis by (simp add: peer_by_id_def attach_running hm_simps)
qed

definition open_host :: node where
  "open_host = snd (host talk_env Lan (secs 600) (Inr (0, lit ''10.0.0.2:4000'')) (talk_nodes 0))"

definition dialling_joiner :: node where
  "dialling_joiner = snd (join_open Lan room_code_text (Inr (0, lit ''10.0.0.7:4001'')) (talk_nodes 1))"

definition asking_joiner :: node where
  "asking_joiner = snd (join_call talk_env bob room_code_text (Inr 7) (Inr ()) dialling_joiner)"

definition asked_host :: node where
  "asked_host = snd (greet_incoming talk_env 5 (lit ''10.0.0.7'') (Inr ())
     (Inr (snd (last (nd_wire asking_joiner)))) open_host)"

definition approving_host :: node where
  "approving_host = snd (approve talk_env (lit ''1'') True asked_host)"

lemma talk_json: "json_ok talk_to_json talk_from_json"
  using talk_sound by (simp add: sound_net_def)

lemma talk_env_json [simp]: "e_to_json talk_env = talk_to_json" "e_from_json talk_env = talk_from_json"
  by (simp_all add: talk_env_def)

lemma talk_envs: "e \<in> {talk_env, talk_env, talk_env, talk_env} \<Longrightarrow>
    e_to_json e = talk_to_json \<and> e_from_json e = talk_from_json"
  by simp

theorem approved_newcomer_is_connected_witness:
  "\<exists>jo2. peer_by_id (lit ''bo'') approving_host = Some \<lparr>p_info = bob, p_link = 5\<rparr> \<and>
    peer_by_id (lit ''al'') jo2 = Some \<lparr>p_info = ann, p_link = 7\<rparr> \<and> st_room jo2 = room_code_text"
proof -
  have opened: "join_open Lan room_code_text (Inr (0, lit ''10.0.0.7:4001'')) (talk_nodes 1) =
      (Inr (bob, room_code_text), dialling_joiner)"
    unfolding dialling_joiner_def by (rule prod_eqI) (code_simp, simp)
  have j: "join_call talk_env bob room_code_text (Inr 7) (Inr ()) dialling_joiner = (Inr (), asking_joiner)"
    unfolding asking_joiner_def by (rule prod_eqI) (code_simp, simp)
  have w: "hello_welcome talk_env PROTOCOL_VERSION (st_room asking_joiner) (st_me asking_joiner) open_host"
    "nd_running open_host" by code_simp+
  have g: "greet_incoming talk_env 5 (lit ''10.0.0.7'') (Inr ()) (Inr (snd (last (nd_wire asking_joiner)))) open_host =
      (None, asked_host)"
    unfolding asked_host_def by (rule prod_eqI) (code_simp, simp)
  have req: "show_nat (unat (nd_req_seq open_host)) = lit ''1''" by code_simp
  have a: "approve talk_env (show_nat (unat (nd_req_seq open_host))) True asked_host = (Inr (), approving_host)"
    unfolding approving_host_def req by (rule prod_eqI) (code_simp, simp)
  have facts: "pi_id (st_me (talk_nodes 1)) = lit ''bo''" "st_me open_host = ann" "st_room open_host = room_code_text"
    "(st_me asking_joiner)\<lparr>pi_name := sanitize_name (pi_name (st_me asking_joiner))\<rparr> = bob"
    by code_simp+
  from approved_newcomer_is_connected [OF talk_json talk_envs opened j w g a refl refl] facts show ?thesis
    by (auto simp: ann_def simp del: insert_iff)
qed

definition told_member :: node where
  "told_member = open_host\<lparr>st_roster := [(lit ''bo'', bob)]\<rparr>"

definition calling_joiner :: node where
  "calling_joiner = snd (dial_turn talk_env ann Lan 0 [] (Inr 7) (Inr ()) asking_joiner)"

definition held_call :: task where
  "held_call = MeshCall 5 bob (instant_add (e_now talk_env) ROSTER_GRACE)"

definition answering_member :: node where
  "answering_member =
     (case run_task talk_env held_call (talk_input 0) told_member of Ret (_, nd) \<Rightarrow> nd | Panic \<Rightarrow> told_member)"

theorem dialled_member_is_connected_witness:
  "\<exists>p ca2. peer_by_id (lit ''bo'') answering_member = Some p \<and> p_link p = 5 \<and>
    peer_by_id (lit ''al'') ca2 = Some \<lparr>p_info = ann, p_link = 7\<rparr>"
proof -
  have d: "dial_turn talk_env ann Lan 0 [] (Inr 7) (Inr ()) asking_joiner = (Some (Called ann Lan 0 7), calling_joiner)"
    unfolding calling_joiner_def by (rule prod_eqI) (code_simp, simp)
  have m: "normalize_code (st_room asking_joiner) = normalize_code (st_room told_member)" "nd_running told_member"
    "hm_contains (st_roster told_member) (pi_id (st_me asking_joiner))"
    "peer_by_id (pi_id (st_me asking_joiner)) told_member = None"
    "delivered talk_env 5 (MeshAck (st_me told_member)) \<noteq> []" by code_simp+
  have "fst (greet_incoming talk_env 5 (lit ''10.0.0.7'') (Inr ()) (Inr (snd (last (nd_wire calling_joiner)))) told_member)
      = Some held_call" by code_simp
  then obtain me1 where g: "greet_incoming talk_env 5 (lit ''10.0.0.7'') (Inr ())
      (Inr (snd (last (nd_wire calling_joiner)))) told_member = (Some held_call, me1)"
    by (metis prod.collapse)
  have me1: "me1 = told_member"
    using g by (auto simp: greet_incoming_def on_mesh_hello_def Let_def split: sum.splits frame.splits control.splits if_splits)
  obtain k where r: "run_task talk_env held_call (talk_input 0) told_member = Ret (k, answering_member)"
    by (cases "mesh_call_turn talk_env 5 bob (instant_add (e_now talk_env) ROSTER_GRACE) told_member")
      (simp add: answering_member_def held_call_def run_task_def)
  obtain k' ca2 where c: "called_turn talk_env ann Lan 0 7 (Inr (snd (last (nd_wire answering_member)))) calling_joiner = (k', ca2)"
    by fastforce
  have facts: "pi_id (st_me asking_joiner) = lit ''bo''" "st_me told_member = ann" by code_simp+
  from dialled_member_is_connected [OF talk_json talk_envs d m(1-4) g m(5) r [folded me1] c] facts show ?thesis
    by (auto simp: ann_def simp del: insert_iff)
qed

section \<open>Leaving too early\<close>

text \<open>
  A joiner that has left while it waited is not told: the reply that comes in renames the room
  of its stopped node and is reported as joined, though the link is closed and nobody is
  registered.
\<close>

lemma stopped_joiner_is_reported_joined:
  assumes "\<not> nd_running nd" "decode_frame (e_from_json env) bs = Inr (Control (Welcome room h peers))"
  shows "st_room (await_welcome env l (Inr bs) nd) = room"
    "EvJoined room (kind_text nd) \<in> set (nd_events (await_welcome env l (Inr bs) nd))"
    "l \<in> set (nd_closed (await_welcome env l (Inr bs) nd))"
    "st_peers (await_welcome env l (Inr bs) nd) = st_peers nd"
proof -
  have roster: "st_room (fold add_to_roster ps n) = st_room n" "nd_running (fold add_to_roster ps n) = nd_running n"
    "st_kind (fold add_to_roster ps n) = st_kind n" "st_peers (fold add_to_roster ps n) = st_peers n" for ps n
    by (induction ps arbitrary: n) (simp_all add: add_to_roster_def)
  define n1 where "n1 = fold add_to_roster peers (add_to_roster h (nd\<lparr>st_room := room\<rparr>))"
  have n1: "st_room n1 = room" "nd_running n1 = nd_running nd" "kind_text n1 = kind_text nd"
    "st_peers n1 = st_peers nd"
    by (simp_all add: n1_def roster add_to_roster_def kind_text_def)
  have spawns: "st_room (fold (\<lambda>p. spawn (DialPeer p)) ps n) = st_room n"
    "nd_events (fold (\<lambda>p. spawn (DialPeer p)) ps n) = nd_events n"
    "nd_closed (fold (\<lambda>p. spawn (DialPeer p)) ps n) = nd_closed n"
    "st_peers (fold (\<lambda>p. spawn (DialPeer p)) ps n) = st_peers n" for ps n
    by (induction ps arbitrary: n) (simp_all add: node_ops)
  show "st_room (await_welcome env l (Inr bs) nd) = room"
    "EvJoined room (kind_text nd) \<in> set (nd_events (await_welcome env l (Inr bs) nd))"
    "l \<in> set (nd_closed (await_welcome env l (Inr bs) nd))"
    "st_peers (await_welcome env l (Inr bs) nd) = st_peers nd"
    using assms n1 by (simp_all add: await_welcome_def Let_def attach_peer_def spawns node_ops flip: n1_def)
qed

end
