(* ===== verification/Impostor.thy ===== *)
theory Impostor
  imports Newcomer
begin

text \<open>
  What the nodes do not check: that the key of a link is the one a member was approved with, and
  that a line of chat carries the id of the peer that sent it.
\<close>

section \<open>Whose name is on the link\<close>

text \<open>
  C40. Identities are taken on trust.  Any machine that can connect, whatever key it has, gets the
  place of a member that is on the roster and not connected, by naming that member's id: the
  fingerprint under which the member was approved is not compared with that of the link.  And
  whatever name and id it then puts into a line of chat, that is how the line is shown.
\<close>

theorem identity_is_taken_on_trust:
  assumes "hm_get (st_roster me) (pi_id claimed) = Some approved"
    and "e_fingerprint env l \<noteq> pi_fingerprint approved"
    and "nd_running me" "peer_by_id (pi_id claimed) me = None"
    and "normalize_code room = normalize_code (st_room me)"
    and "decode_frame (e_from_json env) call = Inr (Control (MeshHello PROTOCOL_VERSION room claimed))"
    and "delivered env l (MeshAck (st_me me)) \<noteq> []"
    and "decode_frame (e_from_json env) line = Inr (Control (Chat i sender name ts body))"
  shows "\<exists>t me1 me2 p me3.
    greet_incoming env l source (Inr ()) (Inr call) me = (Some t, me1) \<and>
    run_task env t inp me1 = Ret (None, me2) \<and>
    peer_by_id (pi_id claimed) me2 = Some p \<and> p_link p = l \<and>
    reader_turn env p (Inr line) me2 = Ret (Some (Reader p), me3) \<and>
    nd_events me3 = nd_events me2 @ [EvChat sender (sanitize_name name) ts body False]"
proof -
  let ?peer = "claimed\<lparr>pi_name := sanitize_name (pi_name claimed)\<rparr>"
  have held: "greet_incoming env l source (Inr ()) (Inr call) me =
      (Some (MeshCall l ?peer (instant_add (e_now env) ROSTER_GRACE)), me)"
    using member_holds_call [OF assms(6,5), of l source] by simp
  obtain bs me2 where m: "mesh_call_turn env l ?peer (instant_add (e_now env) ROSTER_GRACE) me = (None, me2)"
    "peer_by_id (pi_id ?peer) me2 = Some \<lparr>p_info = ?peer, p_link = l\<rparr>"
    by (rule member_accepts_call [where nd = me and peer = ?peer and env = env and l = l and
          deadline = "instant_add (e_now env) ROSTER_GRACE"])
      (use assms(1,3,4,7) in \<open>simp_all add: hm_contains_def\<close>)
  have "run_task env (MeshCall l ?peer (instant_add (e_now env) ROSTER_GRACE)) inp me = Ret (None, me2)"
    using m(1) by (simp add: run_task_def)
  moreover have "reader_turn env q (Inr line) me2 = Ret (Some (Reader q),
      emit (EvChat sender (sanitize_name name) ts body False)
        (record_line_to (record_message (sanitize_name name) sender ts body) me2))" for q
    using assms(8) by (simp add: reader_turn_def handle_control_def Let_def)
  ultimately show ?thesis using held m(2) by (auto simp: node_ops)
qed

theorem identity_is_taken_on_trust_witness:
  "\<exists>t me1 me2 p me3.
    greet_incoming talk_env 5 (lit ''10.0.0.9'') (Inr ()) (Inr [KIND_CONTROL, 3]) told_member = (Some t, me1) \<and>
    run_task talk_env t (talk_input 0) me1 = Ret (None, me2) \<and>
    peer_by_id (lit ''bo'') me2 = Some p \<and> p_link p = 5 \<and>
    reader_turn talk_env p (Inr [KIND_CONTROL, 2]) me2 = Ret (Some (Reader p), me3) \<and>
    nd_events me3 = nd_events me2 @ [EvChat (lit ''bo'') (lit ''Bob'') 7 (lit ''hi'') False]"
proof -
  have w: "hm_get (st_roster told_member) (pi_id bob) = Some bob" "e_fingerprint talk_env 5 \<noteq> pi_fingerprint bob"
    "nd_running told_member" "peer_by_id (pi_id bob) told_member = None"
    "normalize_code room_code_text = normalize_code (st_room told_member)"
    "delivered talk_env 5 (MeshAck (st_me told_member)) \<noteq> []" by code_simp+
  have d: "decode_frame (e_from_json talk_env) [KIND_CONTROL, 3] = Inr (Control (MeshHello PROTOCOL_VERSION room_code_text bob))"
    "decode_frame (e_from_json talk_env) [KIND_CONTROL, 2] = Inr (Control (Chat (new_id (replicate 8 1)) (lit ''bo'') (lit ''Bob'') 7 (lit ''hi'')))"
    by code_simp+
  have n: "sanitize_name (lit ''Bob'') = lit ''Bob''" "pi_id bob = lit ''bo''" by code_simp+
  show ?thesis
    using identity_is_taken_on_trust [OF w(1-5) d(1) w(6) d(2), of "lit ''10.0.0.9''" "talk_input 0"]
    unfolding n .
qed

end
