(* ===== verification/Sockets.thy ===== *)
theory Sockets
  imports Room_Code
begin

text \<open>
  \<open>core/src/transport\<close>: listeners and connections.  What the operating system answers (a
  socket, an error, the address that a probe finds) is an argument; the listener's flag,
  the addresses, the errors and the sockets that are open are the program's own.  Sockets
  are numbers.

  \<open>lan.rs\<close> is TCP over \<open>std::net\<close>; \<open>bluetooth_windows.rs\<close> is RFCOMM over Winsock, where the
  program itself has to close what it opens; \<open>bluetooth_stub.rs\<close> stands in for it elsewhere.
\<close>

section \<open>LAN\<close>

record tcp_conn =
  tc_sock :: nat
  tc_label :: rstr

text \<open>A socket as \<open>accept\<close> or \<open>connect\<close> gives it, with the answer of \<open>peer_addr\<close>.\<close>

type_synonym tcp_socket = "nat \<times> (io_error + rstr)"

definition tcp_conn_new :: "tcp_socket \<Rightarrow> tcp_conn" where
  "tcp_conn_new s =
     (case s of
        (sock, peer_addr) \<Rightarrow>
          \<lparr>tc_sock = sock,
           tc_label = (case peer_addr of Inr a \<Rightarrow> a | Inl _ \<Rightarrow> lit ''unknown'')\<rparr>)"

record tcp_listener =
  tl_dial :: rstr
  tl_port :: u16
  tl_closed :: bool

text \<open>
  \<open>accept\<close>, with the next thing that arrives on the port; also the sockets it shuts down.
\<close>

definition lan_accept ::
  "tcp_listener \<Rightarrow> io_error + tcp_socket \<Rightarrow> (io_error + tcp_conn) \<times> nat list" where
  "lan_accept l arrived =
     (case arrived of
        Inl e \<Rightarrow> (Inl e, [])
      | Inr s \<Rightarrow>
          if tl_closed l then (Inl (io_new OtherKind (lit ''listener closed'')), [fst s])
          else (Inr (tcp_conn_new s), []))"

text \<open>\<open>close\<close>, and the address it pokes to wake the thread that accepts.\<close>

definition lan_close :: "tcp_listener \<Rightarrow> tcp_listener \<times> socket_addr" where
  "lan_close l = (l\<lparr>tl_closed := True\<rparr>, V4 [127, 0, 0, 1] (tl_port l))"

text \<open>
  A probe is the address of a UDP socket connected to it, if binding, connecting and asking
  for the address all worked.
\<close>

definition is_unspecified :: "bytes \<Rightarrow> bool" where
  "is_unspecified ip \<longleftrightarrow> list_all (\<lambda>b. b = 0) ip"

fun first_route :: "(rstr \<Rightarrow> socket_addr option) \<Rightarrow> rstr list \<Rightarrow> rstr" where
  "first_route probe [] = lit ''127.0.0.1''"
| "first_route probe (p # ps) =
     (case probe p of
        Some (V4 ip _) \<Rightarrow> if is_unspecified ip then first_route probe ps else show_ipv4 ip
      | _ \<Rightarrow> first_route probe ps)"

definition local_ipv4 :: "(rstr \<Rightarrow> socket_addr option) \<Rightarrow> rstr" where
  "local_ipv4 probe =
     first_route probe [lit ''8.8.8.8:80'', lit ''192.168.1.1:80'', lit ''10.0.0.1:80'']"

definition lan_listen ::
  "io_error + unit \<Rightarrow> io_error + u16 \<Rightarrow> (rstr \<Rightarrow> socket_addr option) \<Rightarrow> tcp_listener res" where
  "lan_listen bound local_port probe =
     res_bind (from_io bound) (\<lambda>_. res_bind (from_io local_port) (\<lambda>port.
       Inr \<lparr>tl_dial = local_ipv4 probe @ [ch CHR '':''] @ show_nat (unat port), tl_port = port,
            tl_closed = False\<rparr>))"

text \<open>\<open>tcp\<close> is \<open>TcpStream::connect_timeout\<close>.\<close>

definition lan_dial ::
  "(socket_addr \<Rightarrow> duration \<Rightarrow> io_error + tcp_socket) \<Rightarrow> rstr \<Rightarrow> socket_addr \<Rightarrow> duration \<Rightarrow>
   tcp_conn res" where
  "lan_dial tcp addr target timeout =
     (case tcp target timeout of
        Inl e \<Rightarrow>
          Inl (Closed (lit ''could not reach '' @ addr @ lit '' over the local network ('' @ err_msg e @
            lit '') - check that both machines are on the same network and that the host'' @ [39] @
            lit ''s firewall allows chat.exe''))
      | Inr s \<Rightarrow> Inr (tcp_conn_new s))"

definition lan_connect ::
  "(socket_addr \<Rightarrow> duration \<Rightarrow> io_error + tcp_socket) \<Rightarrow> rstr \<Rightarrow> duration \<Rightarrow> tcp_conn res" where
  "lan_connect tcp addr timeout =
     (case parse_socket_addr addr of
        None \<Rightarrow> Inl (RoomCode ([39] @ addr @ [39] @ lit '' is not a valid IPv4 address:port''))
      | Some target \<Rightarrow> lan_dial tcp addr target timeout)"

section \<open>Bluetooth on Windows\<close>

text \<open>
  The Winsock of the process: what is open, every \<open>closesocket\<close> in order, and how often it was
  started (\<open>wsa_init\<close> does that once).
\<close>

record winsock =
  wk_startups :: nat
  wk_open :: "nat list"
  wk_closes :: "nat list"

definition open_socket :: "nat \<Rightarrow> winsock \<Rightarrow> winsock" where
  "open_socket s k = k\<lparr>wk_open := s # wk_open k\<rparr>"

definition close_socket :: "nat \<Rightarrow> winsock \<Rightarrow> winsock" where
  "close_socket s k = k\<lparr>wk_open := remove1 s (wk_open k), wk_closes := wk_closes k @ [s]\<rparr>"

definition wsa_init :: "winsock \<Rightarrow> winsock" where
  "wsa_init k = (if wk_startups k = 0 then k\<lparr>wk_startups := 1\<rparr> else k)"

text \<open>
  What the calls answer, in the order the code makes them: \<open>socket\<close> (or the last error),
  \<open>bind\<close>, \<open>getsockname\<close>, \<open>listen\<close>, \<open>connect\<close>.
\<close>

record bt_answers =
  ba_socket :: "io_error + nat"
  ba_bind :: "io_error option"
  ba_name :: "io_error + u64 \<times> u32"
  ba_listen :: "io_error option"
  ba_connect :: "io_error option"

text \<open>\<open>BtStream\<close> and \<open>BtListener\<close>: the socket, the label or dial address, the flag.\<close>

record bt_endpoint =
  be_sock :: nat
  be_text :: rstr
  be_closed :: bool

definition no_socket :: "io_error \<Rightarrow> error" where
  "no_socket e = Unsupported (lit ''could not create a Bluetooth socket ('' @ err_msg e @ lit '')'')"

definition bt_listen :: "bt_answers \<Rightarrow> winsock \<Rightarrow> bt_endpoint res \<times> winsock" where
  "bt_listen a k0 =
     (let k = wsa_init k0 in
      case ba_socket a of
        Inl e \<Rightarrow> (Inl (no_socket e), k)
      | Inr s \<Rightarrow>
          (let k1 = open_socket s k in
           case ba_bind a of
             Some e \<Rightarrow>
               (Inl (Unsupported (lit ''Bluetooth bind failed: '' @ err_msg e)), close_socket s k1)
           | None \<Rightarrow>
               (case ba_name a of
                  Inl e \<Rightarrow> (Inl (Io e), close_socket s k1)
                | Inr (bt_addr, port) \<Rightarrow>
                    (case ba_listen a of
                       Some e \<Rightarrow> (Inl (Io e), close_socket s k1)
                     | None \<Rightarrow>
                         (Inr \<lparr>be_sock = s,
                            be_text = format_addr bt_addr @ [ch CHR '':''] @ show_nat (unat port),
                            be_closed = False\<rparr>, k1)))))"

definition bt_connect :: "bt_answers \<Rightarrow> rstr \<Rightarrow> winsock \<Rightarrow> bt_endpoint res \<times> winsock" where
  "bt_connect a addr k0 =
     (let k = wsa_init k0 in
      case parse_dial addr of
        Inl e \<Rightarrow> (Inl e, k)
      | Inr (target, channel) \<Rightarrow>
          (case ba_socket a of
             Inl e \<Rightarrow> (Inl (no_socket e), k)
           | Inr s \<Rightarrow>
               (let k1 = open_socket s k in
                case ba_connect a of
                  Some e \<Rightarrow>
                    (Inl (Closed (lit ''could not reach Bluetooth device '' @ format_addr target @
                       lit '' on channel '' @ show_nat (unat channel) @ lit '' ('' @ err_msg e @
                       lit ''). Make sure the two devices are paired in Windows Settings and that the host is waiting for a joiner.'')),
                     close_socket s k1)
                | None \<Rightarrow>
                    (Inr \<lparr>be_sock = s, be_text = format_addr target, be_closed = False\<rparr>, k1))))"

text \<open>\<open>accept\<close>: a new socket and the address it comes from, or the last error.\<close>

definition bt_accept ::
  "io_error + nat \<times> u64 \<Rightarrow> bt_endpoint \<Rightarrow> winsock \<Rightarrow> (io_error + bt_endpoint) \<times> winsock" where
  "bt_accept arrived l k =
     (case arrived of
        Inl e \<Rightarrow>
          (Inl (if be_closed l then io_new OtherKind (lit ''listener closed'') else e), k)
      | Inr (s, bt_addr) \<Rightarrow>
          (Inr \<lparr>be_sock = s, be_text = format_addr bt_addr, be_closed = False\<rparr>, open_socket s k))"

text \<open>\<open>close\<close> of either, which \<open>drop\<close> calls again.\<close>

definition bt_close :: "bt_endpoint \<times> winsock \<Rightarrow> bt_endpoint \<times> winsock" where
  "bt_close ek =
     (case ek of
        (e, k) \<Rightarrow>
          (e\<lparr>be_closed := True\<rparr>, if be_closed e then k else close_socket (be_sock e) k))"

text \<open>The milliseconds \<open>set_read_timeout\<close> hands to \<open>setsockopt\<close>, where zero waits for ever.\<close>

definition bt_timeout_ms :: "duration option \<Rightarrow> u32" where
  "bt_timeout_ms dur =
     (case dur of None \<Rightarrow> 0 | Some d \<Rightarrow> of_nat (min (d div 1000000) (2 ^ 32 - 1)))"

text \<open>
  \<open>read\<close>, \<open>write\<close> and \<open>set_read_timeout\<close>: \<open>n\<close> is what \<open>recv\<close>, \<open>send\<close> or \<open>setsockopt\<close> returned, \<open>e\<close>
  the last error after it.
\<close>

definition SOCKET_ERROR :: "32 word" where
  "SOCKET_ERROR = - 1"

definition bt_read :: "nat \<Rightarrow> 32 word \<Rightarrow> io_error \<Rightarrow> io_error + nat" where
  "bt_read buf_len n e =
     (if buf_len = 0 then Inr 0 else if n = SOCKET_ERROR then Inl e else Inr (unat n))"

definition bt_write :: "32 word \<Rightarrow> io_error \<Rightarrow> io_error + nat" where
  "bt_write n e = (if n = SOCKET_ERROR then Inl e else Inr (unat n))"

definition bt_set_read_timeout :: "duration option \<Rightarrow> (u32 \<Rightarrow> 32 word) \<Rightarrow> io_error \<Rightarrow> io_error + unit" where
  "bt_set_read_timeout dur setsockopt e =
     (if setsockopt (bt_timeout_ms dur) = SOCKET_ERROR then Inl e else Inr ())"

text \<open>\<open>found\<close>: is there a radio; \<open>rc\<close> and \<open>addr\<close>: the answer of \<open>BluetoothGetRadioInfo\<close>.\<close>

definition local_radio_address :: "bool \<Rightarrow> u32 \<Rightarrow> u64 \<Rightarrow> u64 res" where
  "local_radio_address found rc addr =
     (if \<not> found
      then Inl (Unsupported
        (lit ''no Bluetooth radio found on this machine (is Bluetooth switched on?)''))
      else if rc \<noteq> 0
      then Inl (Unsupported (lit ''could not read the local Bluetooth radio information (Windows error '' @
             show_nat (unat rc) @ lit '')''))
      else Inr (addr AND mask 48))"

section \<open>The stub and the dispatch\<close>

definition stub_msg :: rstr where
  "stub_msg = lit ''Bluetooth mode is only available in the Windows build of this application''"

definition stub_listen :: "'a res" where
  "stub_listen = Inl (Unsupported stub_msg)"

definition stub_connect :: "rstr \<Rightarrow> duration \<Rightarrow> 'a res" where
  "stub_connect addr timeout = Inl (Unsupported stub_msg)"

text \<open>\<open>transport::listen\<close> and \<open>transport::connect\<close>, over the two transports.\<close>

definition transport_listen :: "transport_kind \<Rightarrow> 'a res \<Rightarrow> 'a res \<Rightarrow> 'a res" where
  "transport_listen kind lan bluetooth = (case kind of Lan \<Rightarrow> lan | Bluetooth \<Rightarrow> bluetooth)"

definition transport_connect ::
  "transport_kind \<Rightarrow> (rstr \<Rightarrow> duration \<Rightarrow> 'a res) \<Rightarrow> (rstr \<Rightarrow> duration \<Rightarrow> 'a res) \<Rightarrow> rstr \<Rightarrow>
   duration \<Rightarrow> 'a res" where
  "transport_connect kind lan bluetooth addr timeout =
     (case kind of Lan \<Rightarrow> lan addr timeout | Bluetooth \<Rightarrow> bluetooth addr timeout)"

section \<open>Facts\<close>

lemma loopback_text: "lit ''127.0.0.1'' = show_ipv4 [127, 0, 0, 1]"
  by code_simp

lemma local_ipv4_text:
  assumes "\<And>p ip port. probe p = Some (V4 ip port) \<Longrightarrow> length ip = 4"
  shows "\<exists>ip. length ip = 4 \<and> local_ipv4 probe = show_ipv4 ip"
proof -
  have "\<exists>ip. length ip = 4 \<and> first_route probe ps = show_ipv4 ip" for ps
  proof (induction ps)
    case Nil
    show ?case by (rule exI [of _ "[127, 0, 0, 1]"]) (simp add: loopback_text)
  next
    case (Cons p ps)
    then show ?case using assms by (auto split: option.splits socket_addr.splits)
  qed
  then show ?thesis unfolding local_ipv4_def .
qed

lemma bt_close_again: "be_closed (fst ek) \<Longrightarrow> bt_close ek = ek"
  by (cases ek) (simp add: bt_close_def)

lemma bt_closes_once:
  assumes "\<not> be_closed e"
  shows "(bt_close ^^ Suc n) (e, k) = (e\<lparr>be_closed := True\<rparr>, close_socket (be_sock e) k)"
proof (induction n)
  case 0
  then show ?case using assms by (simp add: bt_close_def)
next
  case (Suc n)
  have "(bt_close ^^ Suc (Suc n)) (e, k) = bt_close ((bt_close ^^ Suc n) (e, k))" by simp
  then show ?case unfolding Suc by (simp add: bt_close_again)
qed

section \<open>The claims\<close>

text \<open>
  C35. A room that a host opens over the LAN can be found: the address of the listener,
  whatever the probes of the routing table gave, can be made into a room code; a joiner
  reads back exactly that address; and connecting to it dials the listener's own port.
\<close>

theorem lan_listener_can_be_dialled:
  assumes "lan_listen bound local_port probe = Inr l" "tl_port l \<noteq> 0"
    and "\<And>p ip port. probe p = Some (V4 ip port) \<Longrightarrow> length ip = 4"
  shows "\<exists>ip code. encode Lan (tl_dial l) = Inr code \<and> decode code = Inr (Lan, tl_dial l) \<and>
    lan_connect tcp (tl_dial l) timeout = lan_dial tcp (tl_dial l) (V4 ip (tl_port l)) timeout"
proof -
  obtain ip where ip: "length ip = 4" "local_ipv4 probe = show_ipv4 ip"
    using local_ipv4_text [of probe] assms(3) by blast
  have d: "tl_dial l = show_ipv4 ip @ [ch CHR '':''] @ show_nat (unat (tl_port l))"
    using assms(1) ip by (auto simp: lan_listen_def res_bind_def split: sum.splits)
  then obtain code where "encode Lan (tl_dial l) = Inr code" "decode code = Inr (Lan, tl_dial l)"
    using encode_lan [OF ip(1)] lan_decode_pretty [OF ip(1) assms(2)] by metis
  moreover have "parse_socket_addr (tl_dial l) = Some (V4 ip (tl_port l))"
    unfolding d by (rule parse_socket_addr_v4 [OF ip(1)])
  ultimately show ?thesis by (auto simp: lan_connect_def)
qed

theorem lan_listener_can_be_dialled_witness:
  "\<exists>ip code. encode Lan (lit ''192.168.1.24:47021'') = Inr code \<and>
    decode code = Inr (Lan, lit ''192.168.1.24:47021'') \<and>
    lan_connect (\<lambda>_ _. Inr (5, Inr [])) (lit ''192.168.1.24:47021'') 1 =
      lan_dial (\<lambda>_ _. Inr (5, Inr [])) (lit ''192.168.1.24:47021'') (V4 ip 47021) 1"
proof -
  let ?probe = "\<lambda>p. if p = lit ''8.8.8.8:80'' then Some V6 else Some (V4 [192, 168, 1, 24] 50000)"
  let ?l = "\<lparr>tl_dial = lit ''192.168.1.24:47021'', tl_port = 47021, tl_closed = False\<rparr>"
  have l: "lan_listen (Inr ()) (Inr 47021) ?probe = Inr ?l" by code_simp
  have p: "length ip = 4" if "?probe q = Some (V4 ip port)" for q ip port
    using that by (auto split: if_splits)
  have "tl_port ?l \<noteq> 0" by simp
  from lan_listener_can_be_dialled [OF l this p, where tcp = "\<lambda>_ _. Inr (5, Inr [])" and timeout = 1]
  show ?thesis unfolding tcp_listener.simps .
qed

text \<open>
  C36. No Bluetooth socket leaks and none is closed twice: on every error path of listening
  and of connecting, what was opened has been closed again; on success exactly one socket
  more is open, and however often it is closed after that (the last time by \<open>drop\<close>),
  \<open>closesocket\<close> is called for it exactly once.
\<close>

theorem bluetooth_sockets_are_closed_once:
  "let (r, k') = (case dial of None \<Rightarrow> bt_listen a k | Some addr \<Rightarrow> bt_connect a addr k) in
   case r of
     Inl _ \<Rightarrow> wk_open k' = wk_open k
   | Inr e \<Rightarrow> wk_open k' = be_sock e # wk_open k \<and> wk_closes k' = wk_closes k \<and>
       wk_open (snd ((bt_close ^^ Suc n) (e, k'))) = wk_open k \<and>
       wk_closes (snd ((bt_close ^^ Suc n) (e, k'))) = wk_closes k @ [be_sock e]"
proof -
  obtain r k' where r: "(case dial of None \<Rightarrow> bt_listen a k | Some addr \<Rightarrow> bt_connect a addr k) = (r, k')"
    by fastforce
  show ?thesis
  proof (cases r)
    case (Inl e)
    then have "wk_open k' = wk_open k"
      using r by (auto simp: bt_listen_def bt_connect_def Let_def wsa_init_def open_socket_def close_socket_def
          split: sum.splits option.splits prod.splits)
    then show ?thesis using r Inl by simp
  next
    case (Inr e)
    then have "wk_open k' = be_sock e # wk_open k \<and> wk_closes k' = wk_closes k \<and> \<not> be_closed e"
      using r by (auto simp: bt_listen_def bt_connect_def Let_def wsa_init_def open_socket_def close_socket_def
          split: sum.splits option.splits prod.splits)
    then show ?thesis using r Inr bt_closes_once [of e n k'] by (simp add: close_socket_def)
  qed
qed

end
