(* ===== verification/Bluetooth_Layout.thy ===== *)
theory Bluetooth_Layout
  imports Sockets
begin

unbundle bit_operations_syntax

text \<open>
  \<open>transport/bluetooth_windows.rs\<close>: the structure in which a Bluetooth address is handed to
  Winsock, byte by byte.  \<open>#[repr(C)]\<close> places each field at the next multiple of its
  alignment; what lies between is padding, of which Rust says nothing.  The reading side,
  Winsock, is a parameter.
\<close>

section \<open>The structure\<close>

definition AF_BTH :: "16 word" where
  "AF_BTH = 32"

definition BT_PORT_ANY :: u32 where
  "BT_PORT_ANY = 0xFFFFFFFF"

record sockaddr_bth =
  sb_family :: "16 word"
  sb_addr :: u64
  sb_class :: bytes
  sb_port :: u32

definition sockaddr_bth_new :: "u64 \<Rightarrow> u32 \<Rightarrow> sockaddr_bth" where
  "sockaddr_bth_new addr port =
     \<lparr>sb_family = AF_BTH, sb_addr = addr, sb_class = replicate 16 0, sb_port = port\<rparr>"

section \<open>Its bytes\<close>

text \<open>Where \<open>repr(C)\<close> puts fields of the given sizes and alignments, and the size of it all.\<close>

definition aligned :: "nat \<Rightarrow> nat \<Rightarrow> nat" where
  "aligned pos a = (pos + a - 1) div a * a"

fun field_offsets :: "nat \<Rightarrow> (nat \<times> nat) list \<Rightarrow> nat list" where
  "field_offsets pos [] = []"
| "field_offsets pos ((n, a) # fs) = aligned pos a # field_offsets (aligned pos a + n) fs"

fun struct_end :: "nat \<Rightarrow> (nat \<times> nat) list \<Rightarrow> nat" where
  "struct_end pos [] = pos"
| "struct_end pos ((n, a) # fs) = struct_end (aligned pos a + n) fs"

definition struct_size :: "(nat \<times> nat) list \<Rightarrow> nat" where
  "struct_size fs = aligned (struct_end 0 fs) (Max (set (map snd fs)))"

text \<open>\<open>u16\<close>, \<open>u64\<close>, \<open>[u8; 16]\<close>, \<open>u32\<close>.\<close>

definition sockaddr_fields :: "(nat \<times> nat) list" where
  "sockaddr_fields = [(2, 2), (8, 8), (16, 1), (4, 4)]"

definition le_bytes :: "nat \<Rightarrow> 'a::len word \<Rightarrow> bytes" where
  "le_bytes n w = rev (be_bytes n w)"

text \<open>\<open>pad\<close> is the padding before the address, \<open>rest\<close> that behind the port.\<close>

definition sockaddr_bytes :: "bytes \<Rightarrow> bytes \<Rightarrow> sockaddr_bth \<Rightarrow> bytes" where
  "sockaddr_bytes pad rest sb =
     le_bytes 2 (sb_family sb) @ pad @ le_bytes 8 (sb_addr sb) @ sb_class sb @
     le_bytes 4 (sb_port sb) @ rest"

lemma length_le_bytes [simp]: "length (le_bytes n w) = n"
  by (simp add: le_bytes_def)

lemma sockaddr_layout:
  assumes "length pad = 6" "length rest = 4" "length (sb_class sb) = 16"
  shows "field_offsets 0 sockaddr_fields = [0, 8, 16, 32]"
    "length (sockaddr_bytes pad rest sb) = struct_size sockaddr_fields"
    "take 8 (drop 8 (sockaddr_bytes pad rest sb)) = le_bytes 8 (sb_addr sb)"
proof -
  have "struct_size sockaddr_fields = 40" by code_simp
  then show "length (sockaddr_bytes pad rest sb) = struct_size sockaddr_fields"
    using assms by (simp add: sockaddr_bytes_def)
  show "field_offsets 0 sockaddr_fields = [0, 8, 16, 32]" by code_simp
  show "take 8 (drop 8 (sockaddr_bytes pad rest sb)) = le_bytes 8 (sb_addr sb)"
    using assms by (simp add: sockaddr_bytes_def)
qed

lemma of_be_bytes_tail:
  fixes xs ys :: bytes
  assumes "8 * length (xs @ ys) \<le> LENGTH('a::len)"
  shows "(of_be_bytes (xs @ ys) :: 'a word) AND mask (8 * length ys) = of_be_bytes ys"
proof (rule bit_word_eqI)
  fix i
  assume "i < LENGTH('a)"
  let ?w = "of_be_bytes (xs @ ys) :: 'a word"
  have "bits_of (8 * length (xs @ ys)) ?w = concat (map (bits_of 8) (xs @ ys))"
    by (rule bits_of_of_be_bytes [OF assms])
  moreover have "bits_of (8 * length (xs @ ys)) ?w =
      bits_of (8 * length xs) (drop_bit (8 * length ys) ?w) @ bits_of (8 * length ys) ?w"
    using bits_of_append [of "8 * length xs" "8 * length ys" ?w] by (simp add: distrib_left)
  ultimately have "bits_of (8 * length ys) ?w = concat (map (bits_of 8) ys)"
    by (simp add: append_eq_append_conv)
  moreover have "bits_of (8 * length ys) (of_be_bytes ys :: 'a word) = concat (map (bits_of 8) ys)"
    by (rule bits_of_of_be_bytes) (use assms in simp)
  ultimately have "bits_of (8 * length ys) ?w = bits_of (8 * length ys) (of_be_bytes ys :: 'a word)"
    by simp
  then have "i < 8 * length ys \<Longrightarrow> bit ?w i = bit (of_be_bytes ys :: 'a word) i"
    by (simp add: bits_of_eq_iff)
  then show "bit (?w AND mask (8 * length ys)) i = bit (of_be_bytes ys :: 'a word) i"
    by (cases "i < 8 * length ys") (auto simp: bit_simps bit_of_be_bytes_high dest: bit_imp_le_length)
qed

section \<open>The claim\<close>



end
