(* ===== verification/Clock_Text.thy ===== *)
theory Clock_Text
  imports Wire_Protocol
begin

text \<open>
  \<open>core/src/protocol.rs\<close>, the time: the clock in seconds, and its local form in the chat view and
  in the transcript.  The conversion to local time (external crate \<open>chrono\<close>, \<open>None\<close> where a time
  has none) is the parameter \<open>local\<close>; \<open>fmt_clock local\<close> and \<open>fmt_full local\<close> are what the other
  theories take as a \<open>fmt\<close>.
\<close>

section \<open>The clock\<close>

text \<open>\<open>now_ts\<close>: the system time, in nanoseconds from the epoch, as whole seconds; zero before it.\<close>

definition now_ts :: "int \<Rightarrow> i64" where
  "now_ts t = (if 0 \<le> t then of_int (t div 1000000000) else 0)"

section \<open>Local time as text\<close>

record local_time =
  lt_year :: int
  lt_month :: nat
  lt_day :: nat
  lt_hour :: nat
  lt_minute :: nat
  lt_second :: nat

fun dec_fixed :: "nat \<Rightarrow> nat \<Rightarrow> rstr" where
  "dec_fixed 0 n = []"
| "dec_fixed (Suc w) n = dec_fixed w (n div 10) @ [48 + n mod 10]"

text \<open>\<open>%Y\<close>: four digits, and a sign with at least four digits outside of 0 to 9999.\<close>

definition year_text :: "int \<Rightarrow> rstr" where
  "year_text y =
     (if 0 \<le> y \<and> y \<le> 9999 then dec_fixed 4 (nat y)
      else (if y < 0 then ch CHR ''-'' else ch CHR ''+'') #
        (let s = show_nat (nat \<bar>y\<bar>) in replicate (4 - length s) 48 @ s))"

definition clock_text :: "local_time \<Rightarrow> rstr" where
  "clock_text t =
     dec_fixed 2 (lt_hour t) @ [ch CHR '':''] @ dec_fixed 2 (lt_minute t) @ [ch CHR '':''] @
     dec_fixed 2 (lt_second t)"

definition full_text :: "local_time \<Rightarrow> rstr" where
  "full_text t =
     year_text (lt_year t) @ [ch CHR ''-''] @ dec_fixed 2 (lt_month t) @ [ch CHR ''-''] @
     dec_fixed 2 (lt_day t) @ [ch CHR '' ''] @ clock_text t"

definition fmt_clock :: "(i64 \<Rightarrow> local_time option) \<Rightarrow> i64 \<Rightarrow> rstr" where
  "fmt_clock local ts = (case local ts of Some t \<Rightarrow> clock_text t | None \<Rightarrow> lit ''??:??:??'')"

definition fmt_full :: "(i64 \<Rightarrow> local_time option) \<Rightarrow> i64 \<Rightarrow> rstr" where
  "fmt_full local ts = (case local ts of Some t \<Rightarrow> full_text t | None \<Rightarrow> lit ''unknown time'')"

section \<open>The text sorts as the time does\<close>

abbreviation before :: "nat list \<Rightarrow> nat list \<Rightarrow> bool" where
  "before s t \<equiv> (s, t) \<in> lexord {(x, y). x < y}"

lemma length_dec_fixed [simp]: "length (dec_fixed w n) = w"
  by (induction w arbitrary: n) simp_all

lemma before_dec_fixed:
  "a < 10 ^ w \<Longrightarrow> b < 10 ^ w \<Longrightarrow>
   before (dec_fixed w a @ s) (dec_fixed w b @ t) \<longleftrightarrow> a < b \<or> a = b \<and> before s t"
proof (induction w arbitrary: a b s t)
  case (Suc w)
  have ab: "a div 10 < 10 ^ w" "b div 10 < 10 ^ w" using Suc.prems by auto
  have "10 * q + r < 10 * q' + r' \<longleftrightarrow> q < q' \<or> q = q' \<and> r < r'"
    "10 * q + r = 10 * q' + r' \<longleftrightarrow> q = q' \<and> r = r'" if "r < 10" "r' < 10" for q r q' r' :: nat
    using that by (cases q q' rule: linorder_cases; simp)+
  from this [of "a mod 10" "b mod 10" "a div 10" "b div 10"]
  have "a < b \<longleftrightarrow> a div 10 < b div 10 \<or> a div 10 = b div 10 \<and> a mod 10 < b mod 10"
    "a = b \<longleftrightarrow> a div 10 = b div 10 \<and> a mod 10 = b mod 10" by simp_all
  moreover have "before (dec_fixed (Suc w) a @ s) (dec_fixed (Suc w) b @ t) \<longleftrightarrow>
      a div 10 < b div 10 \<or> a div 10 = b div 10 \<and> (a mod 10 < b mod 10 \<or> a mod 10 = b mod 10 \<and> before s t)"
    by (simp add: Suc.IH [OF ab])
  ultimately show ?case by blast
qed simp

definition plain_time :: "local_time \<Rightarrow> bool" where
  "plain_time t \<longleftrightarrow>
     0 \<le> lt_year t \<and> lt_year t \<le> 9999 \<and> lt_month t \<le> 12 \<and> lt_day t \<le> 31 \<and>
     lt_hour t < 24 \<and> lt_minute t < 60 \<and> lt_second t \<le> 60"

definition time_key :: "local_time \<Rightarrow> nat list" where
  "time_key t = [nat (lt_year t), lt_month t, lt_day t, lt_hour t, lt_minute t, lt_second t]"

lemma full_text_sorts:
  assumes "plain_time a" "plain_time b"
  shows "before (full_text a) (full_text b) \<longleftrightarrow> before (time_key a) (time_key b)" "length (full_text a) = 19"
proof -
  have y: "nat (lt_year a) < 10 ^ 4" "nat (lt_year b) < 10 ^ 4"
    "year_text (lt_year a) = dec_fixed 4 (nat (lt_year a))" "year_text (lt_year b) = dec_fixed 4 (nat (lt_year b))"
    using assms by (auto simp: plain_time_def year_text_def)
  have small: "lt_month c < 10 ^ 2 \<and> lt_day c < 10 ^ 2 \<and> lt_hour c < 10 ^ 2 \<and> lt_minute c < 10 ^ 2 \<and> lt_second c < 10 ^ 2"
    if "plain_time c" for c using that by (simp add: plain_time_def)
  note key = before_dec_fixed [where s = "[]" and t = "[]", simplified]
  show "before (full_text a) (full_text b) \<longleftrightarrow> before (time_key a) (time_key b)"
    using small [OF assms(1)] small [OF assms(2)] y
    by (simp add: full_text_def clock_text_def time_key_def before_dec_fixed key)
  show "length (full_text a) = 19" by (simp add: full_text_def clock_text_def y)
qed

end
