(* ===== verification/Spec2Isabelle.thy ===== *)
theory Spec2Isabelle
  imports Ui_Admission Ui_Progress Teardown Node_Files Impostor Bluetooth_Layout Clock_Text
begin

text \<open>
  Mesh Chat: a verification development of its core library and its front end.

  \<^bold>\<open>The program.\<close>  Every machine runs one process: a window (\<open>ui/src/main.rs\<close>) and, behind it,
  a node (\<open>core/src/mesh.rs\<close>, \<open>core/src/files.rs\<close>).  A node hosts a room or joins one with a
  room code (\<open>roomcode.rs\<close>), over TCP or RFCOMM (\<open>transport/\<close>).  Each connection is wrapped into
  an encrypted link (\<open>crypto.rs\<close>) that carries length-prefixed frames (\<open>codec.rs\<close>) of messages
  (\<open>protocol.rs\<close>).  A newcomer asks the host, its operator approves, the members are told, and
  the newcomer dials each of them; from then on chat and files go straight from peer to peer and
  nothing is relayed.  Connection attempts are limited (\<open>ratelimit.rs\<close>), the session has a
  transcript (\<open>history.rs\<close>).  The node starts a thread per task and tells the window what
  happens through a queue of events.

  \<^bold>\<open>From the code to the theories.\<close>  In the order of the imports:

  \<^item> \<open>Mesh_Prelude\<close>, \<open>Rust_Text\<close>, \<open>Bit_Streams\<close>: machine integers, panics (\<open>run\<close>), results
    (\<open>res\<close>), clocks, \<open>HashMap\<close>, \<open>String\<close> and \<open>char\<close>, big-endian bytes, runs of a step relation.
  \<^item> \<open>Errors\<close> is \<open>lib.rs\<close>; \<open>Transport_Kind\<close> is \<open>transport/mod.rs\<close> with the Bluetooth address
    strings of \<open>bluetooth_stub.rs\<close>; \<open>Socket_Addr\<close> is what the code uses of \<open>std::net\<close>;
    \<open>Sockets\<close> is \<open>lan.rs\<close>, \<open>bluetooth_windows.rs\<close> and the dispatch between them;
    \<open>Bluetooth_Layout\<close> is \<open>SockaddrBth\<close>, byte by byte.
  \<^item> \<open>Room_Code\<close> is \<open>roomcode.rs\<close>, \<open>Wire_Protocol\<close> and \<open>Clock_Text\<close> are \<open>protocol.rs\<close>, \<open>Codec\<close> is \<open>codec.rs\<close>,
    \<open>Rate_Limiter\<close> is \<open>ratelimit.rs\<close>, \<open>History\<close> is \<open>history.rs\<close>, \<open>Secure_Link\<close> is
    \<open>crypto.rs\<close>; \<open>Disk\<close> is what is used of \<open>std::fs\<close>; \<open>Names\<close> holds the functions of
    \<open>mesh.rs\<close> and \<open>files.rs\<close> that clean up names.
  \<^item> \<open>Node_State\<close> is the state of a node (\<open>Node\<close>, \<open>State\<close>, \<open>Transfers\<close>) and the primitive
    operations; \<open>Files\<close> is \<open>files.rs\<close>; \<open>Links\<close>, \<open>Admission\<close> and \<open>Lifecycle\<close> are the handlers
    of \<open>mesh.rs\<close>: links that are up, how a newcomer gets in, hosting, joining, dialling and
    leaving.  \<open>Node_System\<close> composes them to a step relation.
  \<^item> \<open>Ui_State\<close> and \<open>Ui_Events\<close> are \<open>main.rs\<close>: the window and \<open>App\<close>, the callbacks, the workers,
    the dialogs and the event pump, over any number of nodes.
  \<^item> \<open>Network\<close> lets any number of machines run \<open>Node_System\<close> and connects them.

  The other theories hold proofs: \<open>File_Integrity\<close>, \<open>Link_Claims\<close>, \<open>Room_Claims\<close> (what single
  handlers do), \<open>Membership\<close> and \<open>Node_Refinement\<close> (an abstract protocol and its refinement),
  \<open>Node_Events\<close>, \<open>Node_Files\<close>, \<open>Threads\<close>, \<open>Teardown\<close> (every run of a node), \<open>Ui_Claims\<close>,
  \<open>Ui_Runs\<close>, \<open>Ui_Progress\<close>, \<open>Ui_Requests\<close>, \<open>Ui_Admission\<close> (the front end, and the front end
  with its nodes), \<open>Network_Voice\<close>, \<open>Network_Trust\<close>, \<open>Network_Claims\<close> (every run of a network),
  \<open>Newcomer\<close>, \<open>Impostor\<close> (joining and calling, message by message).

  \<^bold>\<open>How the code is read.\<close>  A handler is a function from \<open>node\<close> to \<open>node\<close> (with \<open>res\<close> or \<open>run\<close>
  where the code fails or can panic).  The last fields of \<open>node\<close> collect what it does outside:
  events, payloads per link, closed links and listeners, threads, the disk.  What the world gives
  it (the clock, the random bytes, the answer of the system, what \<open>recv\<close> returned) is an argument
  or a field of \<open>env\<close>.  A link is a number, the identity of its \<open>Arc\<close>.

  A handler is one step, except where it waits: there it returns the \<open>task\<close> that goes on.  So an
  incoming connection is \<open>HandleIncoming\<close> and \<open>Greeting\<close>, a held mesh call is \<open>MeshCall\<close>, the
  caller of \<open>join\<close> is \<open>Joining\<close> and then \<open>AwaitWelcome\<close>, a dial is \<open>DialPeer\<close>, \<open>Dialling\<close> and
  \<open>Called\<close>, a file that is sent is \<open>SendFileTo\<close>, \<open>OutWaiting\<close> and \<open>OutSending\<close>, and the threads
  of a node interleave at these points in every order.
  Where the code's own locks matter, two theories go below the handler: \<open>gate_step\<close> in
  \<open>Secure_Link\<close> (the write half of a link, taken by concurrent senders) and \<open>teardown_step\<close> in
  \<open>Teardown\<close> (the running flag and the lock of the registry).

  \<^bold>\<open>The network.\<close>  In \<open>Network\<close> each end of a link has a far end, and a thread that receives gets
  the next payload that the machine at the far end has sent, in order, which is what
  \<open>Secure_Link\<close> proves of one link; or it gets an error, at any time; or it waits for ever.  All
  machines run the program; a machine that runs something else is covered by the theories about a
  single node, where the payloads are arbitrary.

  \<^bold>\<open>What is shown.\<close>

  \<^item> Of a network: only hosts and approved newcomers are connected, to the machine whose id they
    carry; a line of chat was typed by the user it is shown under; an approved newcomer gets
    connected to the host and to a member it dials.
  \<^item> Of the whole program, from the window to the registry: each of its steps is for each node a
    run of the membership protocol, and only a click on \<open>Accept\<close> lets somebody in.
  \<^item> Of a node, against arbitrary peers: its handlers refine the membership protocol, whose
    invariants are carried over; a host registers only whom its operator approved; nothing is
    relayed; a file is written only by the peer it was accepted from, and is reported complete
    only with the size and hash that were offered; its threads end; a closed room has no links.
  \<^item> Of the transfers: a file that is sent is received byte for byte; chunks out of order, too
    long or unwritable end the transfer; a lost peer cancels its own transfers and no others.
  \<^item> Of links and codecs: frames and payloads arrive as they were sent, in order, for every way
    in which the system cuts the stream and every interleaving of the senders; room codes decode
    to the address they encode, in spite of formatting.
  \<^item> Of the limiter: its budgets hold over every window, and it refines a log that never
    forgets.
  \<^item> Of the front end: no event is lost, its lists keep in order, its references stay valid, every
    request that waits has its row, progress stays within the bar.
  \<^item> Defects of the code are theorems too: the panic of \<open>unhex16\<close> on text that is
    not ASCII, the newcomer locked out by a failed reply, the reader of a replaced link that
    drops its successor, the joiner locked out of the window, the ids that are taken on trust
    whatever the key, the layout of \<open>SockaddrBth\<close>.

  \<^bold>\<open>The library.\<close>  Interfaces are locales, each interpreted on the model: \<open>hash_store\<close> (the laws
  of \<open>HashMap\<close>: \<open>hm\<close>), \<open>payload_code\<close> (\<open>b32\<close>), \<open>message_reader\<close> (a reader of messages from a
  stream: \<open>codec\<close> for frames, \<open>link\<close> for the encrypted link), \<open>quiet_loop\<close>, \<open>send_loop\<close> and
  \<open>silent_loop\<close> (loops over peers and links, one interpretation per loop of the code),
  \<open>event_view\<close> (a part of the window that follows the events: \<open>transcript\<close>, \<open>requests\<close>,
  \<open>current\<close>), \<open>fluent\<close> (surroundings whose JSON library reads what it writes: \<open>checked\<close>), and
  \<open>run_invariant\<close>, the induction over runs, with an interpretation per invariant (\<open>registry\<close>,
  \<open>requests\<close>, \<open>admission\<close>, \<open>gate\<close>, \<open>tracked\<close>, \<open>announcing_node\<close>, \<open>careful_run\<close>, \<open>teardown\<close>,
  \<open>accounting\<close>, \<open>desk\<close>, \<open>vain\<close>, \<open>admitting\<close>).  A property of a node that most handlers leave
  alone is a projection (\<open>members\<close>, \<open>receiving\<close>, \<open>voice_of\<close>) with one simplification rule per handler.

  \<^bold>\<open>Bounds and fuel.\<close>  Nothing runs on fuel that the code does not have: the event pump handles
  256 events per tick, dialling has three attempts, the room-code loops run along their input.
  Readers of streams recurse along the script of the system's answers, which ends; a script that
  has run out is a closed connection.  Sizes and counters have the width of the code (\<open>u8\<close> to
  \<open>u64\<close>), and their arithmetic wraps, as it does under the release profile of the workspace, whose
  \<open>panic = "abort"\<close> makes a panic the end of the process.

  \<^bold>\<open>Parameters.\<close>  Code that is not in the repository is a parameter with its documented law as a
  hypothesis: the Noise handshake and cipher (\<open>snow\<close>; the states of both sides match and
  decryption undoes encryption), SHA-256 (no law; a statement about a hash says that the hash
  agrees), JSON (\<open>serde_json\<close>; parsing undoes printing), the conversion to local time
  (\<open>chrono\<close>), the random generator, and in \<open>Bluetooth_Layout\<close> the place where Windows reads the
  address.

  \<^bold>\<open>Not modelled.\<close>  What the Slint toolkit draws, and \<open>ui/app.slint\<close> apart from the properties
  and the enabling of the buttons that \<open>main.rs\<close> relies on; the calls of Winsock themselves and
  the structures through which the radio is asked for its address (their answers are
  arguments); the traits \<open>Stream\<close> and \<open>Listener\<close> as such (dynamic dispatch; each implementation is
  modelled); \<open>set_nodelay\<close>, which changes no result; the accessors of a node, which are the fields
  of its record; \<open>ui/build.rs\<close>, one call of the Slint compiler; the tests.
\<close>

end
